(* ===== verification/Prelude.thy ===== *)
theory Prelude
  imports
    Main
    "HOL-Library.Word"
    "HOL-Library.Multiset"
    "HOL-Library.Char_ord"
    "HOL-Library.List_Lexorder"
begin

text \<open>
  The prelude of the development: the types the components share, the collections of facts
  the component proofs use, and the generic lemmas on lists, options and sums.

  A Go \<^verbatim>\<open>string\<close> is a sequence of bytes, and so is an Isabelle \<^typ>\<open>string\<close> (a \<^typ>\<open>char\<close> is a
  byte). A Go \<^verbatim>\<open>[]byte\<close> is a list of 8-bit words. Errors are the left values of a sum type.
  An instant \<^verbatim>\<open>time.Time\<close> is the number of nanoseconds since Go's zero time; a
  \<^verbatim>\<open>time.Duration\<close> is a number of nanoseconds.
\<close>

named_theorems codec_simps \<open>rewrite rules of byte-level encodings\<close>
named_theorems inv_intros \<open>preservation lemmas of component invariants\<close>

type_synonym byte = "8 word"
type_synonym bytes = "byte list"
type_synonym u16 = "16 word"
type_synonym u32 = "32 word"
type_synonym u64 = "64 word"
type_synonym time = int
type_synonym duration = int

section \<open>Sums as results\<close>

fun is_ok :: "'e + 'a \<Rightarrow> bool" where
  "is_ok (Inl e) = False"
| "is_ok (Inr a) = True"

lemma is_ok_iff: "is_ok r \<longleftrightarrow> (\<exists>a. r = Inr a)"
  by (cases r) auto

section \<open>Lists\<close>

lemma take_append_exact [simp]: "length xs = n \<Longrightarrow> take n (xs @ ys) = xs"
  by simp

lemma drop_append_exact [simp]: "length xs = n \<Longrightarrow> drop n (xs @ ys) = ys"
  by simp

lemma mset_concat_update:
  assumes "i < length xss"
  shows "mset (concat (xss[i := ys])) + mset (xss ! i) = mset (concat xss) + mset ys"
  using assms
proof (induction xss arbitrary: i)
  case Nil
  then show ?case by simp
next
  case (Cons x xss)
  then show ?case by (cases i) (auto simp: union_assoc add.commute add.left_commute)
qed

lemma set_concat_update_same:
  "i < length xss \<Longrightarrow> set ys = set (xss ! i) \<Longrightarrow> set (concat (xss[i := ys])) = set (concat xss)"
proof -
  assume i: "i < length xss" and s: "set ys = set (xss ! i)"
  have "set (concat (take i xss @ ys # drop (Suc i) xss)) =
      set (concat (take i xss @ (xss ! i) # drop (Suc i) xss))"
    using s by simp
  then show ?thesis
    using i by (simp add: upd_conv_take_nth_drop id_take_nth_drop [symmetric])
qed

lemma map_fold_last:
  "foldl (\<lambda>m (k, v). m(k \<mapsto> v)) m xs k =
     (case map_of (rev xs) k of None \<Rightarrow> m k | Some v \<Rightarrow> Some v)"
  by (induction xs arbitrary: m) (auto split: option.splits simp: map_add_def)

section \<open>Runs of a component\<close>

text \<open>
  A component is driven by a sequence of events; \<open>steps\<close> chains its step relation, and an
  invariant of the steps is an invariant of the runs.
\<close>

inductive steps :: "('s \<Rightarrow> 'e \<Rightarrow> 's \<Rightarrow> bool) \<Rightarrow> 's \<Rightarrow> 'e list \<Rightarrow> 's \<Rightarrow> bool"
  for step :: "'s \<Rightarrow> 'e \<Rightarrow> 's \<Rightarrow> bool" where
  steps_nil: "steps step s [] s"
| steps_cons: "step s e s' \<Longrightarrow> steps step s' es s'' \<Longrightarrow> steps step s (e # es) s''"

inductive_simps steps_nil_iff [simp]: "steps step s [] s'"
inductive_simps steps_cons_iff: "steps step s (e # es) s''"

lemma steps_append: "steps step s es s' \<Longrightarrow> steps step s' fs s'' \<Longrightarrow> steps step s (es @ fs) s''"
  by (induction rule: steps.induct) (auto intro: steps.intros)

locale event_system =
  fixes step :: "'s \<Rightarrow> 'e \<Rightarrow> 's \<Rightarrow> bool"
    and inv :: "'s \<Rightarrow> bool"
  assumes step_inv: "inv s \<Longrightarrow> step s e s' \<Longrightarrow> inv s'"
begin

lemma steps_inv: "steps step s es s' \<Longrightarrow> inv s \<Longrightarrow> inv s'"
  by (induction rule: steps.induct) (auto dest: step_inv)

text \<open>A quantity no step lets grow (under the invariant) does not grow in a run.\<close>

lemma steps_mono:
  fixes f :: "'s \<Rightarrow> 'b :: preorder"
  assumes mono: "\<And>s e s'. inv s \<Longrightarrow> step s e s' \<Longrightarrow> e \<in> E \<Longrightarrow> f s \<le> f s'"
  shows "steps step s es s' \<Longrightarrow> set es \<subseteq> E \<Longrightarrow> inv s \<Longrightarrow> f s \<le> f s'"
proof (induction rule: steps.induct)
  case (steps_nil s)
  then show ?case by simp
next
  case (steps_cons s e s' es s'')
  then show ?case using mono [of s e s'] step_inv [of s e s'] by (auto intro: order_trans)
qed

lemma steps_inv_on:
  assumes keep: "\<And>s e s'. inv s \<Longrightarrow> P s \<Longrightarrow> step s e s' \<Longrightarrow> e \<in> E \<Longrightarrow> P s'"
  shows "steps step s es s' \<Longrightarrow> set es \<subseteq> E \<Longrightarrow> inv s \<Longrightarrow> P s \<Longrightarrow> P s'"
proof (induction rule: steps.induct)
  case (steps_nil s)
  then show ?case by simp
next
  case (steps_cons s e s' es s'')
  then show ?case using keep [of s e s'] step_inv [of s e s'] by auto
qed

end

end
