(* ===== verification/GoLib.thy ===== *)
theory GoLib
  imports Prelude
begin

text \<open>
  What the sources use of Go's standard library: \<^verbatim>\<open>strings\<close>, \<^verbatim>\<open>encoding/hex\<close>,
  \<^verbatim>\<open>encoding/base64\<close>, \<^verbatim>\<open>encoding/binary\<close>, \<^verbatim>\<open>io.ReadFull\<close>, \<^verbatim>\<open>time\<close>, \<^verbatim>\<open>math/big\<close> bit lengths and
  \<^verbatim>\<open>sort.Slice\<close>, as executable definitions with the laws the components rely on.

  The library code that is not modelled (the Unicode tables, SHA-256, Ed25519, AES-GCM,
  X25519, HKDF, the RFC 3339 layout, IP address syntax, JSON text) is a parameter of the
  definitions that use it; the record \<open>golib\<close> collects the parameters that occur
  everywhere, and the named predicates on it state their documented behaviour.
\<close>

unbundle bit_operations_syntax

section \<open>Strings and bytes\<close>

definition bytes_of :: "string \<Rightarrow> bytes" where
  "bytes_of s = map (\<lambda>c. word_of_nat (of_char c)) s"

definition string_of :: "bytes \<Rightarrow> string" where
  "string_of bs = map (\<lambda>b. char_of (unat b)) bs"

lemma length_bytes_of [simp]: "length (bytes_of s) = length s"
  by (simp add: bytes_of_def)

lemma length_string_of [simp]: "length (string_of bs) = length bs"
  by (simp add: string_of_def)

lemma bytes_of_append [simp]: "bytes_of (s @ t) = bytes_of s @ bytes_of t"
  by (simp add: bytes_of_def)

lemma unat_word_of_char: "unat (word_of_nat (of_char c) :: byte) = of_char c"
proof -
  have "(of_char c :: nat) < 256" by (cases c) (simp add: of_char_def)
  then show ?thesis by (simp add: unat_of_nat)
qed

lemma string_of_bytes_of [simp]: "string_of (bytes_of s) = s"
  by (simp add: string_of_def bytes_of_def comp_def unat_word_of_char map_idI)

lemma bytes_of_inj: "bytes_of s = bytes_of t \<longleftrightarrow> s = t"
  by (metis string_of_bytes_of)

lemma bytes_of_string_of [simp]: "bytes_of (string_of bs) = bs"
proof -
  have "word_of_nat (of_char (char_of (unat b))) = b" for b :: byte
  proof -
    have "unat b < 256" using unsigned_less [of b] by simp
    then show ?thesis by (simp add: of_char_of)
  qed
  then show ?thesis by (simp add: string_of_def bytes_of_def comp_def map_idI)
qed

definition HasPrefix :: "string \<Rightarrow> string \<Rightarrow> bool" where
  "HasPrefix s p \<longleftrightarrow> take (length p) s = p"

definition TrimPrefix :: "string \<Rightarrow> string \<Rightarrow> string" where
  "TrimPrefix s p = (if HasPrefix s p then drop (length p) s else s)"

lemma HasPrefix_iff: "HasPrefix s p \<longleftrightarrow> (\<exists>t. s = p @ t)"
  by (metis HasPrefix_def append_eq_conv_conj)

lemma HasPrefix_append [simp]: "HasPrefix (p @ t) p"
  by (simp add: HasPrefix_def)

lemma TrimPrefix_append [simp]: "TrimPrefix (p @ t) p = t"
  by (simp add: TrimPrefix_def)

lemma HasPrefixE: "HasPrefix s p \<Longrightarrow> (\<And>t. s = p @ t \<Longrightarrow> TrimPrefix s p = t \<Longrightarrow> P) \<Longrightarrow> P"
  by (auto simp: HasPrefix_iff)

definition ContainsAny :: "string \<Rightarrow> string \<Rightarrow> bool" where
  "ContainsAny s cs \<longleftrightarrow> list_ex (\<lambda>c. c \<in> set cs) s"

definition ContainsChar :: "string \<Rightarrow> char \<Rightarrow> bool" where
  "ContainsChar s c \<longleftrightarrow> c \<in> set s"

text \<open>\<^verbatim>\<open>strings.Cut\<close> with a one-byte separator.\<close>

fun Cut :: "string \<Rightarrow> char \<Rightarrow> (string \<times> string) option" where
  "Cut [] c = None"
| "Cut (x # s) c = (if x = c then Some ([], s)
     else map_option (\<lambda>(b, a). (x # b, a)) (Cut s c))"

lemma Cut_Some: "Cut s c = Some (b, a) \<Longrightarrow> s = b @ c # a \<and> c \<notin> set b"
  by (induction s arbitrary: b) (auto split: if_splits)

lemma Cut_append: "c \<notin> set b \<Longrightarrow> Cut (b @ c # a) c = Some (b, a)"
  by (induction b) auto

lemma Cut_None: "Cut s c = None \<longleftrightarrow> c \<notin> set s"
  by (induction s) auto

text \<open>\<^verbatim>\<open>strings.Split\<close> with a one-byte separator, and \<^verbatim>\<open>strings.Join\<close>.\<close>

fun Split :: "string \<Rightarrow> char \<Rightarrow> string list" where
  "Split [] c = [[]]"
| "Split (x # s) c = (if x = c then [] # Split s c
     else (case Split s c of [] \<Rightarrow> [[x]] | p # ps \<Rightarrow> (x # p) # ps))"

fun Join :: "string list \<Rightarrow> string \<Rightarrow> string" where
  "Join [] sep = []"
| "Join [s] sep = s"
| "Join (s # t # ss) sep = s @ sep @ Join (t # ss) sep"

lemma Split_nonempty [simp]: "Split s c \<noteq> []"
  by (cases s) (auto split: list.splits)

lemma Split_no_sep: "c \<notin> set s \<Longrightarrow> Split s c = [s]"
  by (induction s) auto

lemma Split_append: "c \<notin> set p \<Longrightarrow> Split (p @ c # s) c = p # Split s c"
  by (induction p) auto

section \<open>Characters\<close>

definition is_ascii :: "string \<Rightarrow> bool" where
  "is_ascii s \<longleftrightarrow> list_all (\<lambda>c. (of_char c :: nat) < 128) s"

definition upper_char :: "char \<Rightarrow> char" where
  "upper_char c = (let n = (of_char c :: nat) in if 97 \<le> n \<and> n \<le> 122 then char_of (n - 32) else c)"

definition lower_char :: "char \<Rightarrow> char" where
  "lower_char c = (let n = (of_char c :: nat) in if 65 \<le> n \<and> n \<le> 90 then char_of (n + 32) else c)"

definition space_char :: "char \<Rightarrow> bool" where
  "space_char c \<longleftrightarrow> (of_char c :: nat) \<in> {9, 10, 11, 12, 13, 32}"

definition trim_ascii :: "string \<Rightarrow> string" where
  "trim_ascii s = rev (dropWhile space_char (rev (dropWhile space_char s)))"

lemma of_char_upper:
  "(of_char (upper_char c) :: nat) =
     (let n = of_char c in if 97 \<le> n \<and> n \<le> 122 then n - 32 else n)"
  by (auto simp: upper_char_def Let_def of_char_of)

lemma upper_char_idem [simp]: "upper_char (upper_char c) = upper_char c"
  by (subst upper_char_def) (auto simp: of_char_upper Let_def upper_char_def)

section \<open>Parameters: the library code that is not modelled\<close>

record golib =
  unicode_upper :: "string \<Rightarrow> string"    \<comment> \<open>\<^verbatim>\<open>strings.ToUpper\<close> beyond ASCII\<close>
  unicode_lower :: "string \<Rightarrow> string"    \<comment> \<open>\<^verbatim>\<open>strings.ToLower\<close> beyond ASCII\<close>
  unicode_trim :: "string \<Rightarrow> string"     \<comment> \<open>\<^verbatim>\<open>strings.TrimSpace\<close> beyond ASCII\<close>
  sha256 :: "bytes \<Rightarrow> bytes"
  ed25519_public :: "bytes \<Rightarrow> bytes"     \<comment> \<open>\<^verbatim>\<open>PrivateKey.Public\<close>\<close>
  ed25519_sign :: "bytes \<Rightarrow> bytes \<Rightarrow> bytes"
  ed25519_verify :: "bytes \<Rightarrow> bytes \<Rightarrow> bytes \<Rightarrow> bool"
  rfc3339_parse :: "string \<Rightarrow> time option"
  rfc3339_format :: "time \<Rightarrow> string"
  parse_ip :: "string \<Rightarrow> bytes option"   \<comment> \<open>\<^verbatim>\<open>net.ParseIP\<close>: 16 bytes\<close>
  ip_string :: "bytes \<Rightarrow> string"         \<comment> \<open>\<^verbatim>\<open>net.IP.String\<close>\<close>

definition ToUpper :: "golib \<Rightarrow> string \<Rightarrow> string" where
  "ToUpper G s = (if is_ascii s then map upper_char s else unicode_upper G s)"

definition ToLower :: "golib \<Rightarrow> string \<Rightarrow> string" where
  "ToLower G s = (if is_ascii s then map lower_char s else unicode_lower G s)"

definition TrimSpace :: "golib \<Rightarrow> string \<Rightarrow> string" where
  "TrimSpace G s = (if is_ascii s then trim_ascii s else unicode_trim G s)"

text \<open>The documented behaviour the proofs may assume.\<close>

definition sha256_ok :: "golib \<Rightarrow> bool" where
  "sha256_ok G \<longleftrightarrow> (\<forall>bs. length (sha256 G bs) = 32)"

definition ed25519_ok :: "golib \<Rightarrow> bool" where
  "ed25519_ok G \<longleftrightarrow>
     (\<forall>priv msg. length (ed25519_sign G priv msg) = 64 \<and>
        (length priv = 64 \<longrightarrow>
           ed25519_verify G (ed25519_public G priv) msg (ed25519_sign G priv msg)))"

text \<open>
  RFC 3339 output has second resolution: formatting drops the fraction. The layout covers the
  years 1 to 9999, \<^verbatim>\<open>rfc3339_end\<close> is the first instant after them.
\<close>

definition second :: duration where
  "second = 1000000000"

definition rfc3339_end :: time where
  "rfc3339_end = 315537897600 * second"

definition rfc3339_ok :: "golib \<Rightarrow> bool" where
  "rfc3339_ok G \<longleftrightarrow>
     (\<forall>t. 0 \<le> t \<longrightarrow> t < rfc3339_end \<longrightarrow>
        rfc3339_parse G (rfc3339_format G t) = Some (t - t mod second) \<and> rfc3339_format G t \<noteq> [])"

end
