(* ===== verification/GoBytes.thy ===== *)
theory GoBytes
  imports GoLib
begin

text \<open>
  The byte-level encodings of Go's standard library that the sources use:
  \<^verbatim>\<open>encoding/hex\<close>, \<^verbatim>\<open>encoding/base64\<close> (padded standard and unpadded URL alphabets),
  \<^verbatim>\<open>encoding/binary\<close>'s big-endian integers and \<^verbatim>\<open>io.ReadFull\<close> on the bytes a stream still
  holds. Each encoder has its round-trip law.
\<close>

section \<open>\<^verbatim>\<open>encoding/hex\<close>\<close>

definition hex_char :: "nat \<Rightarrow> char" where
  "hex_char n = (if n < 10 then char_of (48 + n) else char_of (87 + n))"

definition hex_val :: "char \<Rightarrow> nat option" where
  "hex_val c = (let n = (of_char c :: nat) in
     if 48 \<le> n \<and> n \<le> 57 then Some (n - 48)
     else if 97 \<le> n \<and> n \<le> 102 then Some (n - 87)
     else if 65 \<le> n \<and> n \<le> 70 then Some (n - 55)
     else None)"

definition EncodeToString :: "bytes \<Rightarrow> string" where
  "EncodeToString bs = concat (map (\<lambda>b. [hex_char (unat b div 16), hex_char (unat b mod 16)]) bs)"

fun DecodeString :: "string \<Rightarrow> bytes option" where
  "DecodeString [] = Some []"
| "DecodeString [c] = None"
| "DecodeString (c # d # s) =
     (case (hex_val c, hex_val d) of
        (Some h, Some l) \<Rightarrow> map_option (\<lambda>bs. word_of_nat (16 * h + l) # bs) (DecodeString s)
      | _ \<Rightarrow> None)"

lemma hex_val_char [simp]: "n < 16 \<Longrightarrow> hex_val (hex_char n) = Some n"
  by (auto simp: hex_val_def hex_char_def Let_def)

lemma byte_less_256: "unat (b :: byte) < 256"
  using unsigned_less [of b] by simp

lemma word_of_nat_unat_byte: "word_of_nat (unat b) = (b :: byte)"
  by simp

lemma byte_div_16: "unat (b :: byte) div 16 < 16"
  using byte_less_256 [of b] by (simp add: less_mult_imp_div_less)

lemma Decode_Encode [codec_simps]: "DecodeString (EncodeToString bs) = Some bs"
  by (induction bs) (simp_all add: EncodeToString_def byte_div_16)

lemma Encode_hex_digits: "c \<in> set (EncodeToString bs) \<Longrightarrow> hex_val c \<noteq> None"
  by (auto simp: EncodeToString_def byte_div_16)

lemma length_Encode [simp]: "length (EncodeToString bs) = 2 * length bs"
  by (induction bs) (simp_all add: EncodeToString_def)

lemma EncodeToString_inj: "EncodeToString a = EncodeToString b \<longleftrightarrow> a = b"
  by (metis Decode_Encode option.inject)

lemma length_Decode: "DecodeString s = Some bs \<Longrightarrow> length s = 2 * length bs"
  by (induction s arbitrary: bs rule: DecodeString.induct) (auto split: option.splits)

lemma lower_hex_char [simp]: "n < 16 \<Longrightarrow> lower_char (hex_char n) = hex_char n"
  by (auto simp: lower_char_def hex_char_def Let_def)

lemma of_char_hex_char: "n < 16 \<Longrightarrow> (of_char (hex_char n) :: nat) < 128"
  by (auto simp: hex_char_def)

lemma ascii_Encode [simp]: "is_ascii (EncodeToString bs)"
  by (induction bs) (simp_all add: EncodeToString_def is_ascii_def byte_div_16 of_char_hex_char)

lemma lower_Encode [simp]: "ToLower G (EncodeToString bs) = EncodeToString bs"
proof -
  have "map lower_char (EncodeToString bs) = EncodeToString bs"
    by (induction bs) (simp_all add: EncodeToString_def byte_div_16)
  then show ?thesis by (simp add: ToLower_def)
qed

section \<open>\<^verbatim>\<open>encoding/base64\<close>\<close>

text \<open>The two alphabets differ in the characters for 62 and 63.\<close>

datatype b64 = StdEncoding | RawURLEncoding

definition b64_char :: "b64 \<Rightarrow> nat \<Rightarrow> char" where
  "b64_char e n =
     (if n < 26 then char_of (65 + n) else if n < 52 then char_of (71 + n)
      else if n < 62 then char_of (n - 4)
      else if n = 62 then (if e = StdEncoding then CHR ''+'' else CHR ''-'')
      else (if e = StdEncoding then CHR ''/'' else CHR ''_''))"

definition b64_val :: "b64 \<Rightarrow> char \<Rightarrow> nat option" where
  "b64_val e c = (let n = (of_char c :: nat) in
     if 65 \<le> n \<and> n \<le> 90 then Some (n - 65)
     else if 97 \<le> n \<and> n \<le> 122 then Some (n - 71)
     else if 48 \<le> n \<and> n \<le> 57 then Some (n + 4)
     else if c = (if e = StdEncoding then CHR ''+'' else CHR ''-'') then Some 62
     else if c = (if e = StdEncoding then CHR ''/'' else CHR ''_'') then Some 63
     else None)"

definition b64_pad :: "b64 \<Rightarrow> nat \<Rightarrow> string" where
  "b64_pad e n = (if e = StdEncoding then replicate n (CHR ''='') else [])"

fun b64_encode :: "b64 \<Rightarrow> bytes \<Rightarrow> string" where
  "b64_encode e [] = []"
| "b64_encode e [a] = (let v = unat a * 16 in
     [b64_char e (v div 64), b64_char e (v mod 64)] @ b64_pad e 2)"
| "b64_encode e [a, b] = (let v = (unat a * 256 + unat b) * 4 in
     [b64_char e (v div 4096), b64_char e (v div 64 mod 64), b64_char e (v mod 64)] @ b64_pad e 1)"
| "b64_encode e (a # b # c # bs) = (let v = (unat a * 256 + unat b) * 256 + unat c in
     b64_char e (v div 262144) # b64_char e (v div 4096 mod 64) #
     b64_char e (v div 64 mod 64) # b64_char e (v mod 64) # b64_encode e bs)"

text \<open>The quantum decoders: two, three or four symbols. Trailing bits are not checked.\<close>

definition b64_dec2 :: "b64 \<Rightarrow> char \<Rightarrow> char \<Rightarrow> bytes option" where
  "b64_dec2 e a b = (case (b64_val e a, b64_val e b) of
     (Some x, Some y) \<Rightarrow> Some [word_of_nat ((x * 64 + y) div 16)] | _ \<Rightarrow> None)"

definition b64_dec3 :: "b64 \<Rightarrow> char \<Rightarrow> char \<Rightarrow> char \<Rightarrow> bytes option" where
  "b64_dec3 e a b c = (case (b64_val e a, b64_val e b, b64_val e c) of
     (Some x, Some y, Some z) \<Rightarrow> (let v = ((x * 64 + y) * 64 + z) div 4 in
        Some [word_of_nat (v div 256), word_of_nat (v mod 256)])
   | _ \<Rightarrow> None)"

definition b64_dec4 :: "b64 \<Rightarrow> char \<Rightarrow> char \<Rightarrow> char \<Rightarrow> char \<Rightarrow> bytes option" where
  "b64_dec4 e a b c d = (case (b64_val e a, b64_val e b, b64_val e c, b64_val e d) of
     (Some x, Some y, Some z, Some w) \<Rightarrow> (let v = ((x * 64 + y) * 64 + z) * 64 + w in
        Some [word_of_nat (v div 65536), word_of_nat (v div 256 mod 256), word_of_nat (v mod 256)])
   | _ \<Rightarrow> None)"

fun b64_quanta :: "b64 \<Rightarrow> string \<Rightarrow> bytes option" where
  "b64_quanta e [] = Some []"
| "b64_quanta e [a] = None"
| "b64_quanta e [a, b] = (if e = RawURLEncoding then b64_dec2 e a b else None)"
| "b64_quanta e [a, b, c] = (if e = RawURLEncoding then b64_dec3 e a b c else None)"
| "b64_quanta e (a # b # c # d # s) =
     (if e = StdEncoding \<and> s = [] \<and> d = CHR ''='' then
        (if c = CHR ''='' then b64_dec2 e a b else b64_dec3 e a b c)
      else (case b64_dec4 e a b c d of None \<Rightarrow> None
            | Some q \<Rightarrow> map_option (\<lambda>bs. q @ bs) (b64_quanta e s)))"

text \<open>Go's decoder skips carriage returns and line feeds anywhere in its input.\<close>

definition b64_decode :: "b64 \<Rightarrow> string \<Rightarrow> bytes option" where
  "b64_decode e s = b64_quanta e (filter (\<lambda>c. (of_char c :: nat) \<noteq> 10 \<and> (of_char c :: nat) \<noteq> 13) s)"

lemma of_char_b64_char:
  "n < 64 \<Longrightarrow> (of_char (b64_char e n) :: nat) =
     (if n < 26 then 65 + n else if n < 52 then 71 + n else if n < 62 then n - 4
      else if n = 62 then (if e = StdEncoding then 43 else 45)
      else (if e = StdEncoding then 47 else 95))"
  by (auto simp: b64_char_def)

lemma b64_char_plain:
  assumes "n < 64"
  shows "(of_char (b64_char e n) :: nat) \<noteq> 10 \<and> (of_char (b64_char e n) :: nat) \<noteq> 13"
    and "b64_char e n \<noteq> CHR ''=''"
proof -
  show "(of_char (b64_char e n) :: nat) \<noteq> 10 \<and> (of_char (b64_char e n) :: nat) \<noteq> 13"
    using assms by (auto simp: of_char_b64_char)
  have "(of_char (b64_char e n) :: nat) \<noteq> of_char (CHR ''='')"
    using assms by (auto simp: of_char_b64_char)
  then show "b64_char e n \<noteq> CHR ''=''" by auto
qed

lemma b64_val_char [simp]:
  assumes "n < 64"
  shows "b64_val e (b64_char e n) = Some n"
proof (cases "n < 62")
  case True
  then show ?thesis by (auto simp: b64_val_def of_char_b64_char Let_def)
next
  case False
  with assms have "n = 62 \<or> n = 63" by auto
  then show ?thesis by (cases e) (auto simp: b64_val_def b64_char_def Let_def)
qed

lemma b64_filter_pad [simp]:
  "filter (\<lambda>c. (of_char c :: nat) \<noteq> 10 \<and> (of_char c :: nat) \<noteq> 13) (b64_pad e n) = b64_pad e n"
  by (simp add: b64_pad_def filter_replicate)

lemma b64_digits3:
  assumes "a < 256" "b < 256" "c < (256 :: nat)"
  shows "((a * 256 + b) * 256 + c) div 262144 < 64"
  using assms by (simp add: less_mult_imp_div_less)

lemma b64_encode_plain:
  "filter (\<lambda>c. (of_char c :: nat) \<noteq> 10 \<and> (of_char c :: nat) \<noteq> 13) (b64_encode e bs) = b64_encode e bs"
proof (induction e bs rule: b64_encode.induct)
  case (2 e a)
  have "unat a * 16 div 64 < 64" using byte_less_256 [of a] by (simp add: less_mult_imp_div_less)
  then show ?case by (simp add: Let_def b64_char_plain)
next
  case (3 e a b)
  have "(unat a * 256 + unat b) * 4 div 4096 < 64"
    using byte_less_256 [of a] byte_less_256 [of b] by (simp add: less_mult_imp_div_less)
  then show ?case by (simp add: Let_def b64_char_plain)
next
  case (4 e a b c bs)
  have "((unat a * 256 + unat b) * 256 + unat c) div 262144 < 64"
    by (intro b64_digits3 byte_less_256)
  with 4 show ?case by (simp add: Let_def b64_char_plain)
qed simp

lemma b64_split3: "(v div 4096 * 64 + v div 64 mod 64) * 64 + v mod 64 = (v :: nat)"
proof -
  have "v div 4096 = v div 64 div 64" by (simp add: div_mult2_eq)
  then have "v div 4096 * 64 + v div 64 mod 64 = v div 64" by simp
  then show ?thesis by simp
qed
lemma b64_split4: "((v div 262144 * 64 + v div 4096 mod 64) * 64 + v div 64 mod 64) * 64 + v mod 64 = (v :: nat)"
proof -
  have "v div 262144 = v div 4096 div 64" by (simp add: div_mult2_eq)
  then have "v div 262144 * 64 + v div 4096 mod 64 = v div 4096" by simp
  then show ?thesis by (simp only: b64_split3)
qed

lemma b64_split2: "v div 64 * 64 + v mod 64 = (v :: nat)"
  by (rule div_mult_mod_eq)
lemma mod_64_less: "v mod 64 < (64 :: nat)"
  by simp

lemma b64_bytes3:
  assumes "a < 256" "b < 256" "c < (256 :: nat)" "v = (a * 256 + b) * 256 + c"
  shows "v div 65536 = a" "v div 256 mod 256 = b" "v mod 256 = c"
proof -
  have d: "v div 256 = a * 256 + b" using assms by simp
  show "v div 65536 = a" using assms by simp
  show "v div 256 mod 256 = b" unfolding d using assms by (simp add: mod_mult_self3)
  show "v mod 256 = c" unfolding assms(4) using assms(3) by (simp only: mod_mult_self3 mod_less)
qed

lemma b64_bytes2:
  assumes "a < 256" "b < (256 :: nat)" "v = (a * 256 + b)"
  shows "v div 256 = a" "v mod 256 = b"
  using assms by auto

lemma b64_dec4_enc:
  assumes "v = (unat a * 256 + unat b) * 256 + unat c"
  shows "b64_dec4 e (b64_char e (v div 262144)) (b64_char e (v div 4096 mod 64))
           (b64_char e (v div 64 mod 64)) (b64_char e (v mod 64)) = Some [a, b, c]"
proof -
  have lt: "v div 262144 < 64" unfolding assms by (intro b64_digits3 byte_less_256)
  note bytes = b64_bytes3 [OF byte_less_256 byte_less_256 byte_less_256 assms]
  show ?thesis
    by (simp only: b64_dec4_def b64_val_char [OF lt] b64_val_char [OF mod_64_less] prod.case
      option.case Let_def b64_split4 bytes word_of_nat_unat_byte)
qed

lemma b64_dec3_enc:
  assumes "v = (unat a * 256 + unat b) * 4"
  shows "b64_dec3 e (b64_char e (v div 4096)) (b64_char e (v div 64 mod 64)) (b64_char e (v mod 64))
           = Some [a, b]"
proof -
  have lt: "v div 4096 < 64"
    unfolding assms using byte_less_256 [of a] byte_less_256 [of b] by (simp add: less_mult_imp_div_less)
  have v: "v div 4 = unat a * 256 + unat b" using assms by simp
  note bytes = b64_bytes2 [OF byte_less_256 byte_less_256 v]
  show ?thesis
    by (simp only: b64_dec3_def b64_val_char [OF lt] b64_val_char [OF mod_64_less] prod.case
      option.case Let_def b64_split3 bytes word_of_nat_unat_byte)
qed

lemma b64_dec2_enc:
  assumes "v = unat a * 16"
  shows "b64_dec2 e (b64_char e (v div 64)) (b64_char e (v mod 64)) = Some [a]"
proof -
  have lt: "v div 64 < 64"
    unfolding assms using byte_less_256 [of a] by (simp add: less_mult_imp_div_less)
  have v: "v div 16 = unat a" using assms by simp
  show ?thesis
    by (simp only: b64_dec2_def b64_val_char [OF lt] b64_val_char [OF mod_64_less] prod.case
      option.case b64_split2 v word_of_nat_unat_byte)
qed

lemma b64_quanta_encode: "b64_quanta e (b64_encode e bs) = Some bs"
proof (induction e bs rule: b64_encode.induct)
  case (2 e a)
  show ?case
    by (cases e) (simp_all only: b64_encode.simps Let_def b64_pad_def append.simps b64_quanta.simps
      b64_dec2_enc [OF refl] simp_thms if_True if_False b64.distinct numeral_2_eq_2
      replicate.simps append_Nil)
next
  case (3 e a b)
  show ?case
    by (cases e) (simp_all only: b64_encode.simps Let_def b64_pad_def append.simps b64_quanta.simps
      b64_dec3_enc [OF refl] simp_thms if_True if_False b64.distinct One_nat_def
      replicate.simps append_Nil b64_char_plain(2) [OF mod_64_less])
next
  case (4 e a b c bs)
  then show ?case
    by (simp only: b64_encode.simps Let_def b64_quanta.simps b64_dec4_enc [OF refl]
      b64_char_plain(2) [OF mod_64_less] simp_thms if_False option.case option.map append.simps)
qed simp

theorem b64_decode_encode [codec_simps, simp]: "b64_decode e (b64_encode e bs) = Some bs"
  by (simp add: b64_decode_def b64_encode_plain b64_quanta_encode)

lemma b64_set:
  "c \<in> set (b64_encode e bs) \<Longrightarrow> c = CHR ''='' \<or> (\<exists>n < 64. c = b64_char e n)"
proof (induction e bs rule: b64_encode.induct)
  case (2 e a)
  have "unat a * 16 div 64 < 64" using byte_less_256 [of a] by (simp add: less_mult_imp_div_less)
  with 2 show ?case by (auto simp: Let_def b64_pad_def intro: mod_64_less)
next
  case (3 e a b)
  have "(unat a * 256 + unat b) * 4 div 4096 < 64"
    using byte_less_256 [of a] byte_less_256 [of b] by (simp add: less_mult_imp_div_less)
  with 3 show ?case by (auto simp: Let_def b64_pad_def intro: mod_64_less)
next
  case (4 e a b c bs)
  have "((unat a * 256 + unat b) * 256 + unat c) div 262144 < 64"
    by (intro b64_digits3 byte_less_256)
  with 4 show ?case by (auto simp: Let_def intro: mod_64_less)
qed simp

lemma ascii_b64 [simp]: "is_ascii (b64_encode e bs)"
  unfolding is_ascii_def list_all_iff
proof
  fix c
  assume "c \<in> set (b64_encode e bs)"
  then consider "c = CHR ''=''" | n where "n < 64" "c = b64_char e n" using b64_set by blast
  then show "(of_char c :: nat) < 128" by cases (auto simp: of_char_b64_char)
qed

lemma length_b64: "length (b64_encode StdEncoding bs) = 4 * ((length bs + 2) div 3)"
proof (induction StdEncoding bs rule: b64_encode.induct)
  case (4 a b c bs)
  have "4 + 4 * ((length bs + 2) div 3) = 4 * ((length bs + 5) div 3)" by presburger
  with 4 show ?case by (simp add: Let_def add.commute)
qed (simp_all add: Let_def b64_pad_def)

lemma b64_encode_inj: "b64_encode e a = b64_encode e b \<longleftrightarrow> a = b"
  by (metis b64_decode_encode option.inject)

lemma b64_encode_Nil_iff [simp]: "b64_encode e bs = [] \<longleftrightarrow> bs = []"
  by (cases "(e, bs)" rule: b64_encode.cases) (auto simp: Let_def)

section \<open>\<^verbatim>\<open>encoding/binary\<close>: big-endian integers\<close>

definition PutUint16 :: "u16 \<Rightarrow> bytes" where
  "PutUint16 w = [ucast (drop_bit 8 w), ucast w]"

definition Uint16 :: "bytes \<Rightarrow> u16" where
  "Uint16 bs = push_bit 8 (ucast (bs ! 0)) OR ucast (bs ! 1)"

definition PutUint32 :: "u32 \<Rightarrow> bytes" where
  "PutUint32 w = [ucast (drop_bit 24 w), ucast (drop_bit 16 w), ucast (drop_bit 8 w), ucast w]"

definition Uint32 :: "bytes \<Rightarrow> u32" where
  "Uint32 bs = push_bit 24 (ucast (bs ! 0)) OR push_bit 16 (ucast (bs ! 1))
     OR push_bit 8 (ucast (bs ! 2)) OR ucast (bs ! 3)"

definition PutUint64 :: "u64 \<Rightarrow> bytes" where
  "PutUint64 w = [ucast (drop_bit 56 w), ucast (drop_bit 48 w), ucast (drop_bit 40 w),
     ucast (drop_bit 32 w), ucast (drop_bit 24 w), ucast (drop_bit 16 w),
     ucast (drop_bit 8 w), ucast w]"

definition Uint64 :: "bytes \<Rightarrow> u64" where
  "Uint64 bs = push_bit 56 (ucast (bs ! 0)) OR push_bit 48 (ucast (bs ! 1))
     OR push_bit 40 (ucast (bs ! 2)) OR push_bit 32 (ucast (bs ! 3))
     OR push_bit 24 (ucast (bs ! 4)) OR push_bit 16 (ucast (bs ! 5))
     OR push_bit 8 (ucast (bs ! 6)) OR ucast (bs ! 7)"

lemma length_PutUint [simp]:
  "length (PutUint16 w) = 2" "length (PutUint32 x) = 4" "length (PutUint64 y) = 8"
  by (simp_all add: PutUint16_def PutUint32_def PutUint64_def)

lemma bit_be_byte:
  "bit (push_bit k (ucast (ucast (drop_bit k w) :: byte) :: 'a::len word)) n \<longleftrightarrow>
     k \<le> n \<and> n < k + 8 \<and> bit (w :: 'a word) n"
proof (cases "k \<le> n \<and> n < LENGTH('a)")
  case True
  then show ?thesis by (auto simp: bit_simps)
next
  case False
  then show ?thesis by (auto simp: bit_simps dest: bit_imp_le_length)
qed

lemma bit_be_low: "bit (ucast (ucast w :: byte) :: 'a::len word) n \<longleftrightarrow> n < 8 \<and> bit (w :: 'a word) n"
  using bit_be_byte [of 0 w n] by simp

lemmas be_bits = bit_or_iff bit_be_byte bit_be_low

lemma be_nth:
  "(a # l) ! 0 = a" "(a # b # l) ! 1 = b" "(a # b # c # l) ! 2 = c" "(a # b # c # d # l) ! 3 = d"
  "(a # b # c # d # e # l) ! 4 = e" "(a # b # c # d # e # f # l) ! 5 = f"
  "(a # b # c # d # e # f # g # l) ! 6 = g" "(a # b # c # d # e # f # g # h # l) ! 7 = h"
  by (simp_all add: eval_nat_numeral)

lemma Uint16_PutUint16 [codec_simps]: "Uint16 (PutUint16 w) = w"
proof (rule bit_word_eqI)
  fix n assume "n < LENGTH(16)"
  then have "n < 16" by simp
  then show "bit (Uint16 (PutUint16 w)) n = bit w n"
    unfolding Uint16_def PutUint16_def be_nth by (simp only: be_bits; arith)
qed

lemma Uint32_PutUint32 [codec_simps]: "Uint32 (PutUint32 w) = w"
proof (rule bit_word_eqI)
  fix n assume "n < LENGTH(32)"
  then have "n < 32" by simp
  then show "bit (Uint32 (PutUint32 w)) n = bit w n"
    unfolding Uint32_def PutUint32_def be_nth by (simp only: be_bits; arith)
qed

lemma Uint64_PutUint64 [codec_simps]: "Uint64 (PutUint64 w) = w"
proof (rule bit_word_eqI)
  fix n assume "n < LENGTH(64)"
  then have "n < 64" by simp
  then show "bit (Uint64 (PutUint64 w)) n = bit w n"
    unfolding Uint64_def PutUint64_def be_nth by (simp only: be_bits; arith)
qed

lemma PutUint64_inj: "PutUint64 a = PutUint64 b \<longleftrightarrow> a = b"
  by (metis Uint64_PutUint64)

section \<open>\<^verbatim>\<open>io.ReadFull\<close>\<close>

text \<open>
  A reader is the list of the bytes it will still deliver before it reports the end of the
  stream. \<^verbatim>\<open>io.ReadFull\<close> fails with \<open>EOF\<close> when nothing is left and with
  \<open>UnexpectedEOF\<close> when the stream ends inside the buffer.
\<close>

datatype io_error = EOF | UnexpectedEOF

definition ReadFull :: "nat \<Rightarrow> bytes \<Rightarrow> io_error + (bytes \<times> bytes)" where
  "ReadFull n r =
     (if n \<le> length r then Inr (take n r, drop n r)
      else if r = [] then Inl EOF else Inl UnexpectedEOF)"

lemma ReadFull_append [codec_simps]: "length xs = n \<Longrightarrow> ReadFull n (xs @ r) = Inr (xs, r)"
  by (simp add: ReadFull_def)

lemma ReadFull_ok: "ReadFull n r = Inr (xs, r') \<longleftrightarrow> r = xs @ r' \<and> length xs = n"
  by (auto simp: ReadFull_def split: if_splits)

lemma ReadFull_short: "length r < n \<Longrightarrow> \<exists>e. ReadFull n r = Inl e"
  by (auto simp: ReadFull_def)

end
