(* ===== verification/GoSort.thy ===== *)
theory GoSort
  imports GoBytes
begin

text \<open>
  \<^verbatim>\<open>sort.Slice\<close>, \<^verbatim>\<open>time.Time\<close> arithmetic and \<^verbatim>\<open>big.Int.BitLen\<close>.

  The contract of \<^verbatim>\<open>sort.Slice\<close> is the locale \<open>slice_sort\<close>: the result is a permutation of
  the input, in order whenever the comparison is a strict weak order. The model sorts by
  the insertion sort that Go runs on short slices (each element moves left past the larger
  ones); the locale shows that for a comparison that orders the elements totally any other
  sort with the same contract returns the same slice.
\<close>

section \<open>\<^verbatim>\<open>sort.Slice\<close>\<close>

definition strict_weak :: "('a \<Rightarrow> 'a \<Rightarrow> bool) \<Rightarrow> bool" where
  "strict_weak lt \<longleftrightarrow>
     (\<forall>x y. lt x y \<longrightarrow> \<not> lt y x) \<and> (\<forall>x y z. \<not> lt x y \<longrightarrow> \<not> lt y z \<longrightarrow> \<not> lt x z)"

definition in_order :: "('a \<Rightarrow> 'a \<Rightarrow> bool) \<Rightarrow> 'a list \<Rightarrow> bool" where
  "in_order lt xs \<longleftrightarrow> sorted_wrt (\<lambda>x y. \<not> lt y x) xs"

text \<open>\<open>acc\<close> is the sorted part, last element first.\<close>

fun slide_left :: "('a \<Rightarrow> 'a \<Rightarrow> bool) \<Rightarrow> 'a \<Rightarrow> 'a list \<Rightarrow> 'a list" where
  "slide_left lt x [] = [x]"
| "slide_left lt x (y # acc) = (if lt x y then y # slide_left lt x acc else x # y # acc)"

definition sort_slice :: "('a \<Rightarrow> 'a \<Rightarrow> bool) \<Rightarrow> 'a list \<Rightarrow> 'a list" where
  "sort_slice lt xs = rev (foldl (\<lambda>acc x. slide_left lt x acc) [] xs)"

lemma mset_slide_left [simp]: "mset (slide_left lt x acc) = add_mset x (mset acc)"
  by (induction acc) auto

lemma set_slide_left [simp]: "set (slide_left lt x acc) = insert x (set acc)"
  by (metis mset_slide_left set_mset_add_mset_insert set_mset_mset)

lemma strict_weak_trans_ge: "strict_weak lt \<Longrightarrow> \<not> lt x y \<Longrightarrow> \<not> lt y z \<Longrightarrow> \<not> lt x z"
  unfolding strict_weak_def by blast

lemma strict_weak_asym: "strict_weak lt \<Longrightarrow> lt x y \<Longrightarrow> \<not> lt y x"
  unfolding strict_weak_def by blast

lemma sorted_slide_left:
  assumes sw: "strict_weak lt" and acc: "sorted_wrt (\<lambda>x y. \<not> lt x y) acc"
  shows "sorted_wrt (\<lambda>x y. \<not> lt x y) (slide_left lt x acc)"
  using acc
proof (induction acc)
  case Nil
  then show ?case by simp
next
  case (Cons y acc)
  show ?case
  proof (cases "lt x y")
    case True
    then have "\<not> lt y x" by (rule strict_weak_asym [OF sw])
    with True Cons show ?thesis by simp
  next
    case False
    have "\<not> lt x z" if "z \<in> set acc" for z
      using Cons.prems that by (intro strict_weak_trans_ge [OF sw False]) simp
    with False Cons.prems show ?thesis by simp
  qed
qed

lemma mset_sort_slice [simp]: "mset (sort_slice lt xs) = mset xs"
proof -
  have "mset (foldl (\<lambda>acc x. slide_left lt x acc) acc xs) = mset acc + mset xs" for acc
    by (induction xs arbitrary: acc) auto
  then show ?thesis by (simp add: sort_slice_def)
qed

lemma set_sort_slice [simp]: "set (sort_slice lt xs) = set xs"
  by (metis mset_sort_slice set_mset_mset)

lemma length_sort_slice [simp]: "length (sort_slice lt xs) = length xs"
  by (metis mset_sort_slice size_mset)

lemma distinct_sort_slice [simp]: "distinct (sort_slice lt xs) = distinct xs"
  by (rule mset_eq_imp_distinct_iff) simp

lemma in_order_sort_slice: "strict_weak lt \<Longrightarrow> in_order lt (sort_slice lt xs)"
proof -
  assume sw: "strict_weak lt"
  have "sorted_wrt (\<lambda>x y. \<not> lt x y) acc \<Longrightarrow>
      sorted_wrt (\<lambda>x y. \<not> lt x y) (foldl (\<lambda>acc x. slide_left lt x acc) acc xs)" for acc
    by (induction xs arbitrary: acc) (auto simp: sorted_slide_left [OF sw])
  then show ?thesis by (simp add: in_order_def sort_slice_def sorted_wrt_rev)
qed

lemma sorted_wrt_unique:
  assumes "sorted_wrt P xs" "sorted_wrt P ys" "mset xs = mset ys"
    and anti: "\<And>x y. x \<in> set xs \<Longrightarrow> y \<in> set xs \<Longrightarrow> P x y \<Longrightarrow> P y x \<Longrightarrow> x = y"
  shows "xs = ys"
  using assms
proof (induction xs arbitrary: ys)
  case Nil
  then show ?case by simp
next
  case (Cons x xs)
  from Cons.prems(3) obtain y ys' where ys: "ys = y # ys'" by (cases ys) auto
  have sets: "set (x # xs) = set ys" using Cons.prems(3) by (rule mset_eq_setD)
  have "x = y"
  proof (rule ccontr)
    assume "x \<noteq> y"
    with sets ys have "y \<in> set xs" "x \<in> set ys'" by auto
    with Cons.prems ys have "P x y" "P y x" by auto
    with Cons.prems(4) \<open>y \<in> set xs\<close> \<open>x \<noteq> y\<close> show False by auto
  qed
  moreover have "xs = ys'"
  proof (rule Cons.IH)
    show "sorted_wrt P xs" "sorted_wrt P ys'" using Cons.prems ys by auto
    show "mset xs = mset ys'" using Cons.prems(3) ys \<open>x = y\<close> by simp
    show "\<And>x y. x \<in> set xs \<Longrightarrow> y \<in> set xs \<Longrightarrow> P x y \<Longrightarrow> P y x \<Longrightarrow> x = y"
      using Cons.prems(4) by simp
  qed
  ultimately show ?case using ys by simp
qed

locale slice_sort =
  fixes srt :: "('a \<Rightarrow> 'a \<Rightarrow> bool) \<Rightarrow> 'a list \<Rightarrow> 'a list"
  assumes srt_perm: "mset (srt lt xs) = mset xs"
    and srt_sorted: "strict_weak lt \<Longrightarrow> in_order lt (srt lt xs)"
begin

lemma srt_unique:
  assumes sw: "strict_weak lt"
    and tot: "\<And>x y. x \<in> set xs \<Longrightarrow> y \<in> set xs \<Longrightarrow> x \<noteq> y \<Longrightarrow> lt x y \<or> lt y x"
    and ys: "mset ys = mset xs" "in_order lt ys"
  shows "srt lt xs = ys"
proof (rule sorted_wrt_unique)
  show "sorted_wrt (\<lambda>x y. \<not> lt y x) (srt lt xs)"
    using srt_sorted [OF sw] by (simp add: in_order_def)
  show "sorted_wrt (\<lambda>x y. \<not> lt y x) ys" using ys(2) by (simp add: in_order_def)
  show "mset (srt lt xs) = mset ys" by (simp add: srt_perm ys(1))
  have "set (srt lt xs) = set xs" by (rule mset_eq_setD [OF srt_perm])
  then show "\<And>x y. x \<in> set (srt lt xs) \<Longrightarrow> y \<in> set (srt lt xs) \<Longrightarrow> \<not> lt y x \<Longrightarrow> \<not> lt x y \<Longrightarrow> x = y"
    using tot by auto
qed

lemma srt_set: "set (srt lt xs) = set xs"
  by (rule mset_eq_setD [OF srt_perm])

lemma srt_take_least:
  assumes "strict_weak lt" "x \<in> set (take n (srt lt xs))" "y \<in> set (drop n (srt lt xs))"
  shows "\<not> lt y x"
proof -
  have "sorted_wrt (\<lambda>x y. \<not> lt y x) (take n (srt lt xs) @ drop n (srt lt xs))"
    using srt_sorted [OF assms(1)] by (simp add: in_order_def)
  then show ?thesis using assms(2,3) unfolding sorted_wrt_append by blast
qed

end

interpretation insertion: slice_sort sort_slice
  by unfold_locales (simp_all add: in_order_sort_slice)

text \<open>
  The order-independence of a sort over the entries of a map: two enumerations of the same
  elements sort to the same slice when the comparison is total on them.
\<close>

lemma sort_slice_cong:
  assumes "strict_weak lt" "mset xs = mset ys"
    and "\<And>x y. x \<in> set xs \<Longrightarrow> y \<in> set xs \<Longrightarrow> x \<noteq> y \<Longrightarrow> lt x y \<or> lt y x"
  shows "sort_slice lt xs = sort_slice lt ys"
  using assms by (intro insertion.srt_unique) (simp_all add: in_order_sort_slice)

text \<open>Comparisons by a key in a linear order, and lexicographic comparisons.\<close>

lemma strict_weak_key: "strict_weak (\<lambda>x y. (f x :: 'b::linorder) < f y)"
  by (auto simp: strict_weak_def)

lemma strict_weak_key2:
  "strict_weak (\<lambda>x y. if f x \<noteq> f y then (f x :: 'b::linorder) < f y else (g x :: 'c::linorder) < g y)"
  unfolding strict_weak_def by (auto split: if_splits)

section \<open>\<^verbatim>\<open>time.Time\<close>\<close>

definition minute :: duration where
  "minute = 60 * second"

definition hour :: duration where
  "hour = 60 * minute"

definition IsZero :: "time \<Rightarrow> bool" where
  "IsZero t \<longleftrightarrow> t = 0"

text \<open>\<^verbatim>\<open>Time.Sub\<close> saturates at the ends of the 64-bit duration range.\<close>

definition Sub :: "time \<Rightarrow> time \<Rightarrow> duration" where
  "Sub t u = max (- (2 ^ 63)) (min (2 ^ 63 - 1) (t - u))"

text \<open>Seconds since 1970-01-01, from nanoseconds since year one.\<close>

definition Unix :: "time \<Rightarrow> int" where
  "Unix t = t div second - 62135596800"

lemma Sub_less_iff: "d \<le> 2 ^ 63 - 1 \<Longrightarrow> - (2 ^ 63) < d \<Longrightarrow> Sub t u < d \<longleftrightarrow> t - u < d"
  unfolding Sub_def by linarith

lemma Sub_greater_iff: "d < 2 ^ 63 - 1 \<Longrightarrow> - (2 ^ 63) \<le> d \<Longrightarrow> d < Sub t u \<longleftrightarrow> d < t - u"
  unfolding Sub_def by linarith

section \<open>\<^verbatim>\<open>math/big\<close>\<close>

definition SetBytes :: "bytes \<Rightarrow> nat" where
  "SetBytes bs = foldl (\<lambda>n b. n * 256 + unat b) 0 bs"

fun BitLen :: "nat \<Rightarrow> nat" where
  "BitLen n = (if n = 0 then 0 else Suc (BitLen (n div 2)))"

declare BitLen.simps [simp del]

lemma BitLen_0 [simp]: "BitLen 0 = 0"
  by (simp add: BitLen.simps)

lemma BitLen_le_iff: "BitLen n \<le> k \<longleftrightarrow> n < 2 ^ k"
proof (induction n arbitrary: k rule: BitLen.induct)
  case (1 n)
  show ?case
  proof (cases "n = 0")
    case False
    then have b: "BitLen n = Suc (BitLen (n div 2))" by (simp add: BitLen.simps [of n])
    show ?thesis
    proof (cases k)
      case 0
      with b False show ?thesis by simp
    next
      case (Suc j)
      have "BitLen n \<le> k \<longleftrightarrow> BitLen (n div 2) \<le> j" using b Suc by simp
      also have "\<dots> \<longleftrightarrow> n div 2 < 2 ^ j" using 1 [OF False] .
      also have "\<dots> \<longleftrightarrow> n < 2 ^ k" using Suc by auto
      finally show ?thesis .
    qed
  qed simp
qed

lemma BitLen_Suc_iff: "BitLen n = Suc k \<longleftrightarrow> 2 ^ k \<le> n \<and> n < 2 ^ Suc k"
  using BitLen_le_iff [of n "Suc k"] BitLen_le_iff [of n k] by linarith

lemma BitLen_pos: "0 < BitLen n \<longleftrightarrow> 0 < n"
  by (subst BitLen.simps) simp

lemma foldl_bytes: "foldl (\<lambda>n (b :: byte). n * 256 + unat b) m bs = m * 256 ^ length bs + SetBytes bs"
proof (induction bs arbitrary: m)
  case Nil
  then show ?case by (simp add: SetBytes_def)
next
  case (Cons b bs)
  have "SetBytes (b # bs) = unat b * 256 ^ length bs + SetBytes bs"
    using Cons [of "unat b"] by (simp add: SetBytes_def)
  with Cons [of "m * 256 + unat b"] show ?case by (simp add: algebra_simps)
qed

lemma SetBytes_Cons: "SetBytes (b # bs) = unat b * 256 ^ length bs + SetBytes bs"
  using foldl_bytes [of "unat b" bs] by (simp add: SetBytes_def)

lemma SetBytes_less: "SetBytes bs < 256 ^ length bs"
proof (induction bs)
  case Nil
  then show ?case by (simp add: SetBytes_def)
next
  case (Cons b bs)
  have "unat b * 256 ^ length bs \<le> 255 * 256 ^ length bs"
    using byte_less_256 [of b] by (intro mult_le_mono1) simp
  moreover have "255 * 256 ^ length bs + 256 ^ length bs = (256 :: nat) ^ length (b # bs)" by simp
  ultimately show ?case using Cons unfolding SetBytes_Cons by linarith
qed

lemma SetBytes_inj: "length xs = length ys \<Longrightarrow> SetBytes xs = SetBytes ys \<Longrightarrow> xs = ys"
proof (induction xs ys rule: list_induct2)
  case Nil
  then show ?case by simp
next
  case (Cons x xs y ys)
  have "SetBytes (x # xs) div 256 ^ length xs = unat x" "SetBytes (y # ys) div 256 ^ length ys = unat y"
    by (simp_all add: SetBytes_Cons SetBytes_less)
  with Cons have "unat x = unat y" by simp
  with Cons show ?case by (simp add: SetBytes_Cons word_unat_eq_iff)
qed

text \<open>\<^verbatim>\<open>big.Int.FillBytes\<close> into a buffer of \<open>n\<close> bytes, for numbers that fit.\<close>

fun FillBytes :: "nat \<Rightarrow> nat \<Rightarrow> bytes" where
  "FillBytes 0 v = []"
| "FillBytes (Suc n) v = FillBytes n (v div 256) @ [word_of_nat (v mod 256)]"

lemma length_FillBytes [simp]: "length (FillBytes n v) = n"
  by (induction n arbitrary: v) auto

lemma SetBytes_snoc: "SetBytes (bs @ [b]) = SetBytes bs * 256 + unat b"
  by (simp add: SetBytes_def)

lemma SetBytes_FillBytes: "v < 256 ^ n \<Longrightarrow> SetBytes (FillBytes n v) = v"
proof (induction n arbitrary: v)
  case 0
  then show ?case by (simp add: SetBytes_def)
next
  case (Suc n)
  then have "v div 256 < 256 ^ n" by (simp add: less_mult_imp_div_less mult.commute)
  with Suc.IH show ?case by (simp add: SetBytes_snoc unat_of_nat)
qed

end
