(* ===== verification/Proto.thy ===== *)
theory Proto
  imports GoSort
begin

text \<open>
  \<^verbatim>\<open>internal/proto/proto.go\<close>: the stream header, length-prefixed frames, the DHT request and
  response messages and the validation of a request. A writer is modelled by the bytes it
  writes, a reader by the bytes it still holds.
\<close>

section \<open>Kinds and messages\<close>

abbreviation (input) KindFileTransfer :: byte where "KindFileTransfer \<equiv> 1"
abbreviation (input) KindDiscoveryReq :: byte where "KindDiscoveryReq \<equiv> 2"
abbreviation (input) KindDiscoveryRes :: byte where "KindDiscoveryRes \<equiv> 3"
abbreviation (input) KindServiceConn :: byte where "KindServiceConn \<equiv> 4"
abbreviation (input) KindOnion :: byte where "KindOnion \<equiv> 5"
abbreviation (input) KindExtend :: byte where "KindExtend \<equiv> 6"
abbreviation (input) KindRendezvous :: byte where "KindRendezvous \<equiv> 7"
abbreviation (input) KindDHT :: byte where "KindDHT \<equiv> 8"
abbreviation (input) KindLiveness :: byte where "KindLiveness \<equiv> 9"

definition magic :: bytes where
  "magic = bytes_of ''VX61''"

record DHTRequest =
  req_Version :: "8 word"
  req_Type :: string
  req_Action :: string
  req_Target :: string
  req_Data :: string

record NodeInfo =
  ni_IdentityVersion :: "8 word"
  ni_IdentitySequence :: u64
  ni_ID :: string
  ni_Name :: string
  ni_NameHash :: string
  ni_Addr :: string
  ni_PublicKey :: string
  ni_IdentityIssuedAt :: string
  ni_IdentityExpiresAt :: string
  ni_IdentitySignature :: string

record DHTResponse =
  resp_Version :: "8 word"
  resp_Type :: string
  resp_Nodes :: "NodeInfo list"
  resp_Value :: string

abbreviation DHTTypeBootstrap :: string where "DHTTypeBootstrap \<equiv> ''bootstrap''"
abbreviation DHTTypeUpdate :: string where "DHTTypeUpdate \<equiv> ''update''"
abbreviation DHTTypeUpdateIP :: string where "DHTTypeUpdateIP \<equiv> ''update_ip''"
abbreviation DHTTypeLookupName :: string where "DHTTypeLookupName \<equiv> ''lookup_name''"
abbreviation DHTTypeLookupKey :: string where "DHTTypeLookupKey \<equiv> ''lookup_key''"
abbreviation DHTTypeLookupSvc :: string where "DHTTypeLookupSvc \<equiv> ''lookup_service''"
abbreviation DHTTypeLookupPriv :: string where "DHTTypeLookupPriv \<equiv> ''lookup_private''"
abbreviation DHTTypeLookupHid :: string where "DHTTypeLookupHid \<equiv> ''lookup_hidden''"
abbreviation DHTTypeLookupOther :: string where "DHTTypeLookupOther \<equiv> ''lookup_other''"

abbreviation (input) DHTWireVersion :: "8 word" where "DHTWireVersion \<equiv> 1"

section \<open>Request types and validation\<close>

definition DHTTypeFor :: "string \<Rightarrow> string \<Rightarrow> string" where
  "DHTTypeFor action target =
     (if action = ''update_ip'' then DHTTypeUpdateIP
      else if action = ''store'' then DHTTypeUpdate
      else if HasPrefix target ''node/name/'' then DHTTypeLookupName
      else if HasPrefix target ''node/id/'' then DHTTypeLookupKey
      else if HasPrefix target ''service/'' then DHTTypeLookupSvc
      else if HasPrefix target ''private-catalog/'' then DHTTypeLookupPriv
      else if HasPrefix target ''hidden-desc/v1/'' then DHTTypeLookupHid
      else if action = ''find_node'' then DHTTypeBootstrap
      else [])"

definition isSHA256Hex :: "golib \<Rightarrow> string \<Rightarrow> bool" where
  "isSHA256Hex G value \<longleftrightarrow>
     length value = 64 \<and> ToLower G value = value \<and> DecodeString value \<noteq> None"

definition validEndpointUpdateTarget :: "golib \<Rightarrow> string \<Rightarrow> bool" where
  "validEndpointUpdateTarget G target =
     (if HasPrefix target ''node/name/'' then isSHA256Hex G (TrimPrefix target ''node/name/'')
      else if HasPrefix target ''node/id/vx6_'' then isSHA256Hex G (TrimPrefix target ''node/id/vx6_'')
      else False)"

definition validDHTValueKey :: "golib \<Rightarrow> string \<Rightarrow> bool" where
  "validDHTValueKey G target =
     (if length target = 0 \<or> length target > 512 \<or>
         ContainsAny target [char_of (0 :: nat), CHR 0x0D, CHR 0x0A, CHR 0x09, CHR '' ''] then False
      else if HasPrefix target ''node/name/'' then isSHA256Hex G (TrimPrefix target ''node/name/'')
      else if HasPrefix target ''node/id/vx6_'' then isSHA256Hex G (TrimPrefix target ''node/id/vx6_'')
      else if HasPrefix target ''service/'' then length (TrimPrefix target ''service/'') > 0
      else if HasPrefix target ''private-catalog/'' then length (TrimPrefix target ''private-catalog/'') > 0
      else if HasPrefix target ''hidden-desc/v1/'' then length (TrimPrefix target ''hidden-desc/v1/'') > 0
      else False)"

datatype validate_error =
    UnsupportedWireVersion
  | TargetEmptyOrTooLong
  | DataTooLarge
  | NameTargetNotDigest
  | IdentityTargetNotNodeID
  | BootstrapTargetInvalid
  | EndpointUpdateInvalid
  | StoreTargetUnsupported
  | LookupNotFindValue
  | UnsupportedLookupTarget
  | UnsupportedRequestType
  | TypeMismatch
  | LookupHasData
  | UpdateHasNoData
  | UnsupportedAction

text \<open>The \<^verbatim>\<open>switch r.Type\<close> of \<^verbatim>\<open>Validate\<close>.\<close>

definition validate_type :: "golib \<Rightarrow> DHTRequest \<Rightarrow> validate_error + unit" where
  "validate_type G r =
     (let lookup = req_Action r = ''find_value'' \<or> req_Action r = ''find_node'';
          node_id = HasPrefix (req_Target r) ''vx6_'' \<and> isSHA256Hex G (TrimPrefix (req_Target r) ''vx6_'')
      in
      if req_Type r = DHTTypeLookupName then
        (if \<not> lookup \<or> \<not> isSHA256Hex G (req_Target r) then Inl NameTargetNotDigest else Inr ())
      else if req_Type r = DHTTypeLookupKey then
        (if \<not> lookup \<or> \<not> node_id then Inl IdentityTargetNotNodeID else Inr ())
      else if req_Type r = DHTTypeBootstrap then
        (if req_Action r \<noteq> ''find_node'' \<or> \<not> (isSHA256Hex G (req_Target r) \<or> node_id)
         then Inl BootstrapTargetInvalid else Inr ())
      else if req_Type r = DHTTypeUpdateIP then
        (if req_Action r \<noteq> ''update_ip'' \<or> \<not> validEndpointUpdateTarget G (req_Target r)
         then Inl EndpointUpdateInvalid else Inr ())
      else if req_Type r = DHTTypeUpdate then
        (if req_Action r \<noteq> ''store'' \<or> \<not> validDHTValueKey G (req_Target r)
         then Inl StoreTargetUnsupported else Inr ())
      else if req_Type r = DHTTypeLookupSvc \<or> req_Type r = DHTTypeLookupPriv \<or> req_Type r = DHTTypeLookupHid then
        (if req_Action r \<noteq> ''find_value'' then Inl LookupNotFindValue else Inr ())
      else if req_Type r = DHTTypeLookupOther then Inl UnsupportedLookupTarget
      else Inl UnsupportedRequestType)"

definition Validate :: "golib \<Rightarrow> DHTRequest \<Rightarrow> validate_error + unit" where
  "Validate G r =
     (if req_Version r \<noteq> DHTWireVersion then Inl UnsupportedWireVersion
      else if req_Target r = [] \<or> length (req_Target r) > 512 then Inl TargetEmptyOrTooLong
      else if length (req_Data r) > 1024 * 1024 then Inl DataTooLarge
      else (case validate_type G r of
        Inl e \<Rightarrow> Inl e
      | Inr _ \<Rightarrow>
        if req_Type r \<notin> {DHTTypeLookupName, DHTTypeLookupKey, DHTTypeBootstrap, DHTTypeUpdateIP} \<and>
           req_Type r \<noteq> DHTTypeFor (req_Action r) (req_Target r) then Inl TypeMismatch
        else if req_Action r = ''find_node'' \<or> req_Action r = ''find_value'' then
          (if req_Data r \<noteq> [] then Inl LookupHasData else Inr ())
        else if req_Action r = ''store'' \<or> req_Action r = ''update_ip'' then
          (if req_Data r = [] then Inl UpdateHasNoData else Inr ())
        else Inl UnsupportedAction))"

section \<open>Stream header and frames\<close>

datatype proto_error =
    HeaderRead io_error
  | InvalidMagic
  | SizeRead io_error
  | InvalidPayloadSize u32
  | PayloadRead io_error

definition WriteHeader :: "byte \<Rightarrow> bytes" where
  "WriteHeader kind = magic @ [kind]"

definition ReadHeader :: "bytes \<Rightarrow> proto_error + (byte \<times> bytes)" where
  "ReadHeader r = (case ReadFull 5 r of
     Inl e \<Rightarrow> Inl (HeaderRead e)
   | Inr (header, r') \<Rightarrow>
       if header ! 0 \<noteq> magic ! 0 \<or> header ! 1 \<noteq> magic ! 1 \<or>
          header ! 2 \<noteq> magic ! 2 \<or> header ! 3 \<noteq> magic ! 3 then Inl InvalidMagic
       else Inr (header ! 4, r'))"

text \<open>The length is truncated to 32 bits, as \<^verbatim>\<open>uint32(len(payload))\<close> does.\<close>

definition WriteLengthPrefixed :: "bytes \<Rightarrow> bytes" where
  "WriteLengthPrefixed payload = PutUint32 (word_of_nat (length payload)) @ payload"

definition ReadLengthPrefixed :: "bytes \<Rightarrow> u32 \<Rightarrow> proto_error + (bytes \<times> bytes)" where
  "ReadLengthPrefixed r maxSize = (case ReadFull 4 r of
     Inl e \<Rightarrow> Inl (SizeRead e)
   | Inr (sz, r1) \<Rightarrow>
       let n = Uint32 sz in
       if n = 0 \<or> n > maxSize then Inl (InvalidPayloadSize n)
       else (case ReadFull (unat n) r1 of
         Inl e \<Rightarrow> Inl (PayloadRead e)
       | Inr (payload, r2) \<Rightarrow> Inr (payload, r2)))"

section \<open>Properties of the header and the frames\<close>

lemma length_magic [simp]: "length magic = 4"
  by (simp add: magic_def)

lemma nth_magic_eq:
  assumes "length h = 5" "h ! 0 = magic ! 0" "h ! 1 = magic ! 1" "h ! 2 = magic ! 2" "h ! 3 = magic ! 3"
  shows "h = magic @ [h ! 4]"
proof (rule nth_equalityI)
  show "length h = length (magic @ [h ! 4])" using assms(1) by simp
  fix i assume "i < length h"
  then have "i = 0 \<or> i = 1 \<or> i = 2 \<or> i = 3 \<or> i = 4" using assms(1) by auto
  then show "h ! i = (magic @ [h ! 4]) ! i" using assms by (auto simp: nth_append)
qed

text \<open>
  The stream header round-trips, and it is the only input the reader accepts. Reading a
  header succeeds with a kind exactly when the stream starts with the magic bytes and that
  kind, and it leaves the rest of the stream untouched.
\<close>

theorem ReadHeader_iff: "ReadHeader r = Inr (kind, r') \<longleftrightarrow> r = WriteHeader kind @ r'"
proof
  assume "ReadHeader r = Inr (kind, r')"
  then obtain h where h: "ReadFull 5 r = Inr (h, r')" "h ! 0 = magic ! 0" "h ! 1 = magic ! 1"
      "h ! 2 = magic ! 2" "h ! 3 = magic ! 3" "kind = h ! 4"
    by (auto simp: ReadHeader_def split: sum.splits if_splits)
  then have "r = h @ r'" "length h = 5" by (simp_all add: ReadFull_ok)
  with h nth_magic_eq [of h] show "r = WriteHeader kind @ r'" by (simp add: WriteHeader_def)
next
  assume r: "r = WriteHeader kind @ r'"
  have "ReadFull 5 r = Inr (WriteHeader kind, r')"
    unfolding r by (rule ReadFull_append) (simp add: WriteHeader_def)
  then show "ReadHeader r = Inr (kind, r')"
    by (simp add: ReadHeader_def WriteHeader_def nth_append)
qed

lemma frame_length: "length p < 2 ^ 32 \<Longrightarrow> unat (word_of_nat (length p) :: u32) = length p"
  by (simp add: unat_of_nat)

lemma Uint32_split: "length h = 4 \<Longrightarrow> PutUint32 (Uint32 h) = h"
proof -
  assume "length h = 4"
  then obtain a b c d where h: "h = [a, b, c, d]"
    by (auto simp: length_Suc_conv eval_nat_numeral)
  have "ucast (drop_bit 24 (Uint32 h)) = a" "ucast (drop_bit 16 (Uint32 h)) = b"
    "ucast (drop_bit 8 (Uint32 h)) = c" "ucast (Uint32 h) = d"
    unfolding h Uint32_def be_nth
    by (rule bit_word_eqI; force simp: bit_simps dest: bit_imp_le_length)+
  then show ?thesis by (simp add: PutUint32_def h)
qed

lemma ReadLengthPrefixed_ok:
  assumes "ReadLengthPrefixed r maxSize = Inr (payload, r')"
  shows "r = WriteLengthPrefixed payload @ r' \<and> 0 < length payload \<and> length payload \<le> unat maxSize"
proof -
  from assms obtain h r1 where h: "ReadFull 4 r = Inr (h, r1)" "Uint32 h \<noteq> 0" "Uint32 h \<le> maxSize"
      "ReadFull (unat (Uint32 h)) r1 = Inr (payload, r')"
    by (auto simp: ReadLengthPrefixed_def Let_def split: sum.splits if_splits)
  then have r: "r = h @ payload @ r'" and "length h = 4" and len: "length payload = unat (Uint32 h)"
    by (simp_all add: ReadFull_ok)
  then have hd: "PutUint32 (word_of_nat (length payload)) = h" using Uint32_split [of h] by simp
  have "0 < length payload" "length payload \<le> unat maxSize"
    using h(2,3) unfolding len by (simp_all add: word_le_nat_alt unat_gt_0)
  then show ?thesis by (simp add: WriteLengthPrefixed_def hd r)
qed

lemma ReadLengthPrefixed_append:
  assumes "0 < length payload" "length payload \<le> unat maxSize"
  shows "ReadLengthPrefixed (WriteLengthPrefixed payload @ r') maxSize = Inr (payload, r')"
proof -
  let ?n = "word_of_nat (length payload) :: u32"
  have "unat maxSize < 2 ^ 32" using unsigned_less [of maxSize, where 'a = nat] by simp
  with assms have "length payload < 2 ^ 32" by simp
  then have n: "unat ?n = length payload" by (rule frame_length)
  with assms have "?n \<noteq> 0" "?n \<le> maxSize"
    by (auto simp: word_le_nat_alt unat_eq_0 [symmetric] simp del: unat_eq_0)
  moreover have "ReadFull 4 (WriteLengthPrefixed payload @ r') = Inr (PutUint32 ?n, payload @ r')"
    unfolding WriteLengthPrefixed_def append_assoc by (rule ReadFull_append) simp
  moreover have "ReadFull (unat ?n) (payload @ r') = Inr (payload, r')"
    by (rule ReadFull_append) (simp add: n)
  ultimately show ?thesis by (simp add: ReadLengthPrefixed_def codec_simps Let_def not_less)
qed

text \<open>
  Frames round-trip and the reader enforces the size limit. \<^verbatim>\<open>ReadLengthPrefixed\<close> returns a
  payload exactly when the stream starts with the frame \<^verbatim>\<open>WriteLengthPrefixed\<close> writes for it
  and the payload has between one and \<^verbatim>\<open>maxSize\<close> bytes; the rest of the stream is untouched.
\<close>

theorem ReadLengthPrefixed_iff:
  "ReadLengthPrefixed r maxSize = Inr (payload, r') \<longleftrightarrow>
     r = WriteLengthPrefixed payload @ r' \<and> 0 < length payload \<and> length payload \<le> unat maxSize"
  using ReadLengthPrefixed_ok ReadLengthPrefixed_append by blast

section \<open>Properties of request validation\<close>

text \<open>The shapes a valid request can have, read off the protocol.\<close>

definition node_id_target :: "golib \<Rightarrow> string \<Rightarrow> bool" where
  "node_id_target G t \<longleftrightarrow> (\<exists>h. t = ''vx6_'' @ h \<and> isSHA256Hex G h)"

definition lookup_shape :: "golib \<Rightarrow> DHTRequest \<Rightarrow> bool" where
  "lookup_shape G r \<longleftrightarrow> req_Data r = [] \<and>
     (req_Type r = DHTTypeLookupName \<and> req_Action r \<in> {''find_value'', ''find_node''} \<and>
        isSHA256Hex G (req_Target r)
    \<or> req_Type r = DHTTypeLookupKey \<and> req_Action r \<in> {''find_value'', ''find_node''} \<and>
        node_id_target G (req_Target r)
    \<or> req_Type r = DHTTypeBootstrap \<and> req_Action r = ''find_node'' \<and>
        (isSHA256Hex G (req_Target r) \<or> node_id_target G (req_Target r))
    \<or> req_Type r = DHTTypeLookupSvc \<and> req_Action r = ''find_value'' \<and> HasPrefix (req_Target r) ''service/''
    \<or> req_Type r = DHTTypeLookupPriv \<and> req_Action r = ''find_value'' \<and> HasPrefix (req_Target r) ''private-catalog/''
    \<or> req_Type r = DHTTypeLookupHid \<and> req_Action r = ''find_value'' \<and> HasPrefix (req_Target r) ''hidden-desc/v1/'')"

definition update_shape :: "golib \<Rightarrow> DHTRequest \<Rightarrow> bool" where
  "update_shape G r \<longleftrightarrow> req_Data r \<noteq> [] \<and>
     (req_Type r = DHTTypeUpdateIP \<and> req_Action r = ''update_ip'' \<and> validEndpointUpdateTarget G (req_Target r)
    \<or> req_Type r = DHTTypeUpdate \<and> req_Action r = ''store'' \<and> validDHTValueKey G (req_Target r))"

lemma node_id_target_iff:
  "node_id_target G t \<longleftrightarrow> HasPrefix t ''vx6_'' \<and> isSHA256Hex G (TrimPrefix t ''vx6_'')"
  unfolding node_id_target_def HasPrefix_iff by (metis TrimPrefix_append)

lemma DHTTypeFor_find_value:
  "DHTTypeLookupSvc = DHTTypeFor ''find_value'' t \<longleftrightarrow> HasPrefix t ''service/''"
  "DHTTypeLookupPriv = DHTTypeFor ''find_value'' t \<longleftrightarrow> HasPrefix t ''private-catalog/''"
  "DHTTypeLookupHid = DHTTypeFor ''find_value'' t \<longleftrightarrow> HasPrefix t ''hidden-desc/v1/''"
  by (auto simp: DHTTypeFor_def HasPrefix_iff)

lemma DHTTypeFor_store: "DHTTypeFor ''store'' t = DHTTypeUpdate"
  by (simp add: DHTTypeFor_def)

text \<open>
  \<^verbatim>\<open>DHTRequest.Validate\<close> accepts exactly the well-formed requests: the wire version is the
  supported one, the target has 1 to 512 bytes, the data at most one megabyte, and the type,
  action, target and data fit together as one of the lookup or update shapes.
\<close>

theorem Validate_iff:
  "Validate G r = Inr () \<longleftrightarrow>
     req_Version r = DHTWireVersion \<and> req_Target r \<noteq> [] \<and> length (req_Target r) \<le> 512 \<and>
     length (req_Data r) \<le> 1024 * 1024 \<and> (lookup_shape G r \<or> update_shape G r)"
proof -
  define ok where "ok \<longleftrightarrow> req_Version r = DHTWireVersion \<and> req_Target r \<noteq> [] \<and>
      length (req_Target r) \<le> 512 \<and> length (req_Data r) \<le> 1024 * 1024"
  show ?thesis
  proof (cases ok)
    case False
    then show ?thesis by (auto simp: Validate_def ok_def)
  next
    case True
    then have V: "Validate G r = (case validate_type G r of Inl e \<Rightarrow> Inl e | Inr _ \<Rightarrow>
        if req_Type r \<notin> {DHTTypeLookupName, DHTTypeLookupKey, DHTTypeBootstrap, DHTTypeUpdateIP} \<and>
           req_Type r \<noteq> DHTTypeFor (req_Action r) (req_Target r) then Inl TypeMismatch
        else if req_Action r = ''find_node'' \<or> req_Action r = ''find_value'' then
          (if req_Data r \<noteq> [] then Inl LookupHasData else Inr ())
        else if req_Action r = ''store'' \<or> req_Action r = ''update_ip'' then
          (if req_Data r = [] then Inl UpdateHasNoData else Inr ())
        else Inl UnsupportedAction)"
      by (simp add: Validate_def ok_def)
    note defs = V validate_type_def lookup_shape_def update_shape_def node_id_target_iff Let_def
      DHTTypeFor_find_value DHTTypeFor_store
    consider "req_Type r = DHTTypeLookupName" | "req_Type r = DHTTypeLookupKey"
      | "req_Type r = DHTTypeBootstrap" | "req_Type r = DHTTypeUpdateIP" | "req_Type r = DHTTypeUpdate"
      | "req_Type r = DHTTypeLookupSvc" | "req_Type r = DHTTypeLookupPriv" | "req_Type r = DHTTypeLookupHid"
      | "req_Type r \<notin> {DHTTypeLookupName, DHTTypeLookupKey, DHTTypeBootstrap, DHTTypeUpdateIP,
           DHTTypeUpdate, DHTTypeLookupSvc, DHTTypeLookupPriv, DHTTypeLookupHid}"
      by blast
    then have "Validate G r = Inr () \<longleftrightarrow> lookup_shape G r \<or> update_shape G r"
    proof cases
      case 9
      then show ?thesis by (simp add: defs)
    qed (auto simp: defs)
    with True show ?thesis by (simp add: ok_def)
  qed
qed

end
