(* ===== verification/RelayGovernor.thy ===== *)
theory RelayGovernor
  imports Proto
begin

text \<open>
  \<^verbatim>\<open>internal/node/relay_governor.go\<close>: the admission control of relay streams. Every operation
  runs under the governor's mutex, so an execution is a sequence of operations. The number of
  processors (\<^verbatim>\<open>runtime.GOMAXPROCS(0)\<close>) is the parameter \<open>procs\<close>; the reason texts are the values
  of a datatype that carry the numbers the source formats into them.
\<close>

section \<open>The governor\<close>

datatype relay_reason =
    NoReason
  | AboveRefreshedBudget int int
  | ParticipationDisabled
  | BudgetReached int int int

record relayGovernor =
  mode :: string
  percent :: int
  budget :: int
  active :: int
  lastReason :: relay_reason

abbreviation (input) defaultRelayResourcePercent :: int where "defaultRelayResourcePercent \<equiv> 33"
abbreviation (input) minRelayResourcePercent :: int where "minRelayResourcePercent \<equiv> 5"
abbreviation (input) maxRelayResourcePercent :: int where "maxRelayResourcePercent \<equiv> 90"
abbreviation (input) relayStreamsPerCPUUnit :: int where "relayStreamsPerCPUUnit \<equiv> 8"
abbreviation relayModeOn :: string where "relayModeOn \<equiv> ''on''"
abbreviation relayModeOff :: string where "relayModeOff \<equiv> ''off''"

definition relayBudget :: "int \<Rightarrow> int \<Rightarrow> int" where
  "relayBudget procs pct =
     (let cpuUnits = (if procs \<le> 0 then 1 else procs);
          usable = (cpuUnits * pct) div 100;
          usableUnits = (if usable \<le> 0 then 1 else usable);
          b = usableUnits * relayStreamsPerCPUUnit
      in if b < 2 then 2 else b)"

definition isRelayKind :: "byte \<Rightarrow> bool" where
  "isRelayKind kind \<longleftrightarrow> kind = KindExtend \<or> kind = KindRendezvous"

definition normalizeRelayMode :: "string \<Rightarrow> string" where
  "normalizeRelayMode m = (if m = relayModeOff then relayModeOff else relayModeOn)"

definition normalizeRelayResourcePercent :: "int \<Rightarrow> int" where
  "normalizeRelayResourcePercent pct =
     (if pct \<le> 0 then defaultRelayResourcePercent
      else if pct < minRelayResourcePercent then minRelayResourcePercent
      else if pct > maxRelayResourcePercent then maxRelayResourcePercent
      else pct)"

definition Update :: "int \<Rightarrow> string \<Rightarrow> int \<Rightarrow> relayGovernor \<Rightarrow> relayGovernor" where
  "Update procs m pct g =
     (let g1 = g\<lparr>mode := normalizeRelayMode m, percent := normalizeRelayResourcePercent pct\<rparr>;
          g2 = g1\<lparr>budget := relayBudget procs (percent g1)\<rparr>
      in if active g2 > budget g2
         then g2\<lparr>lastReason := AboveRefreshedBudget (active g2) (budget g2)\<rparr> else g2)"

definition newRelayGovernor :: "int \<Rightarrow> string \<Rightarrow> int \<Rightarrow> relayGovernor" where
  "newRelayGovernor procs m pct =
     Update procs m pct \<lparr>mode = [], percent = 0, budget = 0, active = 0, lastReason = NoReason\<rparr>"

text \<open>
  \<^verbatim>\<open>Acquire\<close> returns the release function: for a relay kind the closure that gives the slot
  back (\<open>ReleaseSlot\<close>), for any other kind the empty function (\<open>ReleaseNothing\<close>).
\<close>

datatype release_fn = ReleaseNothing | ReleaseSlot

definition Acquire :: "byte \<Rightarrow> relayGovernor \<Rightarrow> (relay_reason + release_fn) \<times> relayGovernor" where
  "Acquire kind g =
     (if \<not> isRelayKind kind then (Inr ReleaseNothing, g)
      else if mode g \<noteq> relayModeOn then
        (Inl ParticipationDisabled, g\<lparr>lastReason := ParticipationDisabled\<rparr>)
      else if active g \<ge> budget g then
        (Inl (BudgetReached (active g) (budget g) (100 - percent g)),
         g\<lparr>lastReason := BudgetReached (active g) (budget g) (100 - percent g)\<rparr>)
      else (Inr ReleaseSlot, g\<lparr>active := active g + 1\<rparr>))"

fun release :: "release_fn \<Rightarrow> relayGovernor \<Rightarrow> relayGovernor" where
  "release ReleaseNothing g = g"
| "release ReleaseSlot g = (if active g > 0 then g\<lparr>active := active g - 1\<rparr> else g)"

record relayGovernorSnapshot =
  snap_Mode :: string
  snap_Percent :: int
  snap_Budget :: int
  snap_Active :: int
  snap_LastReason :: relay_reason

definition Snapshot :: "relayGovernor \<Rightarrow> relayGovernorSnapshot" where
  "Snapshot g = \<lparr>snap_Mode = mode g, snap_Percent = percent g, snap_Budget = budget g,
     snap_Active = active g, snap_LastReason = lastReason g\<rparr>"

section \<open>Executions\<close>

text \<open>
  The streams of a node share one governor. An execution keeps the release functions that are
  still to be called: a granted stream calls its own once, when it ends.
\<close>

datatype gov_event = GUpdate string int | GAcquire byte | GRelease nat

fun is_update :: "gov_event \<Rightarrow> bool" where
  "is_update (GUpdate m p) = True"
| "is_update e = False"

type_synonym gov_state = "relayGovernor \<times> release_fn list"

inductive gov_step :: "int \<Rightarrow> gov_state \<Rightarrow> gov_event \<Rightarrow> gov_state \<Rightarrow> bool"
  for procs :: int where
  gov_update: "gov_step procs (g, fs) (GUpdate m p) (Update procs m p g, fs)"
| gov_grant: "Acquire kind g = (Inr f, g') \<Longrightarrow> gov_step procs (g, fs) (GAcquire kind) (g', f # fs)"
| gov_refuse: "Acquire kind g = (Inl e, g') \<Longrightarrow> gov_step procs (g, fs) (GAcquire kind) (g', fs)"
| gov_release: "i < length fs \<Longrightarrow>
    gov_step procs (g, fs) (GRelease i) (release (fs ! i) g, take i fs @ drop (Suc i) fs)"

inductive_cases gov_stepE: "gov_step procs s e s'"

definition gov_inv :: "int \<Rightarrow> gov_state \<Rightarrow> bool" where
  "gov_inv procs s \<longleftrightarrow> (case s of (g, fs) \<Rightarrow>
     mode g \<in> {relayModeOn, relayModeOff} \<and>
     minRelayResourcePercent \<le> percent g \<and> percent g \<le> maxRelayResourcePercent \<and>
     budget g = relayBudget procs (percent g) \<and>
     active g = int (count_list fs ReleaseSlot))"

lemma relayBudget_bounds:
  assumes "minRelayResourcePercent \<le> p" "p \<le> maxRelayResourcePercent"
  shows "relayStreamsPerCPUUnit \<le> relayBudget procs p \<and>
         relayBudget procs p \<le> relayStreamsPerCPUUnit * max 1 procs"
proof -
  define c where "c = max 1 procs"
  have c: "(if procs \<le> 0 then 1 else procs) = c" "1 \<le> c" by (auto simp: c_def)
  have "c * p \<le> c * 100" using assms c by (intro mult_left_mono) auto
  then have "(c * p) div 100 \<le> c" by linarith
  then show ?thesis using c unfolding relayBudget_def c_def [symmetric] Let_def c(1) by auto
qed

lemma normalize_percent_bounds:
  "minRelayResourcePercent \<le> normalizeRelayResourcePercent p \<and>
   normalizeRelayResourcePercent p \<le> maxRelayResourcePercent"
  by (simp add: normalizeRelayResourcePercent_def)

lemma Update_fields [simp]:
  "mode (Update procs m p g) = normalizeRelayMode m"
  "percent (Update procs m p g) = normalizeRelayResourcePercent p"
  "budget (Update procs m p g) = relayBudget procs (normalizeRelayResourcePercent p)"
  "active (Update procs m p g) = active g"
  by (simp_all add: Update_def Let_def)

lemma count_list_remove:
  "i < length fs \<Longrightarrow> count_list fs x = count_list (take i fs @ drop (Suc i) fs) x + (if fs ! i = x then 1 else 0)"
  by (subst id_take_nth_drop [of i fs], assumption) simp

lemma gov_step_inv: "gov_inv procs s \<Longrightarrow> gov_step procs s e s' \<Longrightarrow> gov_inv procs s'"
proof (erule gov_stepE)
  fix i fs g
  assume "gov_inv procs s" "s = (g, fs)" "i < length fs"
    "s' = (release (fs ! i) g, take i fs @ drop (Suc i) fs)"
  then show "gov_inv procs s'"
    using count_list_remove [of i fs ReleaseSlot] by (cases "fs ! i") (auto simp: gov_inv_def)
qed (auto simp: gov_inv_def normalize_percent_bounds normalizeRelayMode_def Acquire_def split: if_splits)

interpretation gov: event_system "gov_step procs" "gov_inv procs"
  by unfold_locales (rule gov_step_inv)

lemma newRelayGovernor_inv: "gov_inv procs (newRelayGovernor procs m p, [])"
  by (simp add: gov_inv_def newRelayGovernor_def normalize_percent_bounds normalizeRelayMode_def)

text \<open>
  C10: the governor's accounting in every execution. However updates, acquisitions and releases
  interleave, \<^verbatim>\<open>active\<close> is the number of granted relay slots still to be released, the percentage
  is between 5 and 90 and the budget is between one CPU unit's streams and those of all
  processors.
\<close>

theorem relayGovernor_accounting:
  assumes "steps (gov_step procs) (newRelayGovernor procs m p, []) es (g, fs)"
  shows "active g = int (count_list fs ReleaseSlot) \<and> 5 \<le> percent g \<and> percent g \<le> 90 \<and>
         8 \<le> budget g \<and> budget g \<le> 8 * max 1 procs"
proof -
  have "gov_inv procs (g, fs)" by (rule gov.steps_inv [OF assms newRelayGovernor_inv])
  then show ?thesis using relayBudget_bounds [of "percent g" procs] by (auto simp: gov_inv_def)
qed

theorem relayGovernor_accounting_witness:
  "\<exists>g fs. steps (gov_step 4) (newRelayGovernor 4 ''on'' 33, []) [GAcquire KindExtend, GUpdate ''off'' 0] (g, fs) \<and>
     active g = 1 \<and> active g = int (count_list fs ReleaseSlot) \<and> budget g \<le> 8 * max 1 4"
proof -
  let ?g = "snd (Acquire KindExtend (newRelayGovernor 4 ''on'' 33))"
  have r: "steps (gov_step 4) (newRelayGovernor 4 ''on'' 33, []) [GAcquire KindExtend, GUpdate ''off'' 0]
      (Update 4 ''off'' 0 ?g, [ReleaseSlot])"
    by (rule steps_cons, rule gov_grant [where f = ReleaseSlot and g' = ?g])
      (code_simp, rule steps_cons, rule gov_update, rule steps_nil)
  have "active (Update 4 ''off'' 0 ?g) = 1" by code_simp
  with r relayGovernor_accounting [OF r] show ?thesis by blast
qed

lemma release_le: "active (release f g) \<le> active g" "budget (release f g) = budget g"
  by (cases f; simp)+

lemma gov_step_le:
  assumes "active (fst s) \<le> b" "budget (fst s) \<le> b" "gov_step procs s e s'" "\<not> is_update e"
  shows "active (fst s') \<le> b \<and> budget (fst s') \<le> b"
  using assms(3,1,2,4)
  by (cases rule: gov_step.cases)
    (auto simp: Acquire_def release_le intro: order_trans [OF release_le(1)] split: if_splits)

text \<open>
  C9: the budget binds. From any state an execution reaches, as long as the configuration is not
  refreshed, the number of active relay slots never exceeds the larger of the budget and the
  number already active; so it stays within the budget once it is there, and a budget lowered
  below the load admits nothing until enough streams have ended.
\<close>

theorem relayGovernor_budget:
  assumes "steps (gov_step procs) (newRelayGovernor procs m p, []) es s"
    and "steps (gov_step procs) s es' s'" "\<not> list_ex is_update es'"
  shows "active (fst s') \<le> max (active (fst s)) (budget (fst s))"
proof -
  define b where "b = max (active (fst s)) (budget (fst s))"
  have "gov_inv procs s" by (rule gov.steps_inv [OF assms(1) newRelayGovernor_inv])
  moreover have "set es' \<subseteq> {e. \<not> is_update e}"
    using assms(3) by (auto simp: list_ex_iff)
  moreover have "active (fst s) \<le> b \<and> budget (fst s) \<le> b" by (simp add: b_def)
  ultimately have "active (fst s') \<le> b \<and> budget (fst s') \<le> b"
    using gov.steps_inv_on [where E = "{e. \<not> is_update e}"
        and P = "\<lambda>s. active (fst s) \<le> b \<and> budget (fst s) \<le> b", OF _ assms(2)] gov_step_le by blast
  then show ?thesis by (simp add: b_def)
qed

theorem relayGovernor_budget_witness:
  "\<exists>s. steps (gov_step 1) (newRelayGovernor 1 [] 0, []) [GAcquire KindRendezvous] s \<and>
     active (fst s) = 1 \<and> active (fst s) \<le> 8"
proof -
  let ?g = "newRelayGovernor 1 [] 0"
  let ?s = "(snd (Acquire KindRendezvous ?g), [ReleaseSlot])"
  have r: "steps (gov_step 1) (?g, []) [GAcquire KindRendezvous] ?s"
    by (rule steps_cons, rule gov_grant [where f = ReleaseSlot and g' = "fst ?s"])
      (code_simp, simp)
  have "active (fst ?s) = 1" by code_simp
  moreover have "active ?g = 0" "budget ?g = 8" by code_simp+
  ultimately show ?thesis using r relayGovernor_budget [OF steps_nil r] by auto
qed

text \<open>
  \<^verbatim>\<open>Acquire\<close> grants a relay slot exactly when the stream kind is a relay kind, relaying is on
  and fewer than \<^verbatim>\<open>budget\<close> slots are active; it refuses nothing but relay kinds, and calling the
  release function it returned restores the number of active slots.
\<close>

theorem Acquire_release:
  "Acquire kind g = (r, g') \<Longrightarrow> 0 \<le> active g \<Longrightarrow>
     (r = Inr ReleaseSlot \<longleftrightarrow> isRelayKind kind \<and> mode g = relayModeOn \<and> active g < budget g) \<and>
     (is_ok r \<longleftrightarrow> \<not> isRelayKind kind \<or> mode g = relayModeOn \<and> active g < budget g) \<and>
     (case r of Inl _ \<Rightarrow> active g' = active g | Inr f \<Rightarrow> active (release f g') = active g)"
  by (auto simp: Acquire_def split: if_splits)

end
