(* ===== verification/Crypto.thy ===== *)
theory Crypto
  imports Proto
begin

text \<open>
  The cryptographic code the sources call: AES-GCM (\<^verbatim>\<open>crypto/cipher\<close>), HKDF (\<^verbatim>\<open>crypto/hkdf\<close>) and
  X25519 (\<^verbatim>\<open>crypto/ecdh\<close>). It is a parameter of the definitions that use it, the record
  \<open>cryptolib\<close>; the predicates below state the documented behaviour the proofs rely on. An
  AEAD object is represented by its key. \<open>demo_crypto\<close> and \<open>demo_lib\<close> are concrete (and
  insecure) instances that have this behaviour.
\<close>

record cryptolib =
  gcm_seal :: "bytes \<Rightarrow> bytes \<Rightarrow> bytes \<Rightarrow> bytes"          \<comment> \<open>key, nonce, plaintext\<close>
  gcm_open :: "bytes \<Rightarrow> bytes \<Rightarrow> bytes \<Rightarrow> bytes option"   \<comment> \<open>key, nonce, ciphertext\<close>
  hkdf_key :: "bytes \<Rightarrow> bytes \<Rightarrow> string \<Rightarrow> nat \<Rightarrow> bytes option"  \<comment> \<open>secret, salt, info, length\<close>
  x25519_public :: "bytes \<Rightarrow> bytes"
  x25519_ecdh :: "bytes \<Rightarrow> bytes \<Rightarrow> bytes option"

text \<open>Opening what was sealed under the same key and nonce gives the plaintext; a tag has 16 bytes.\<close>

definition aead_ok :: "cryptolib \<Rightarrow> bool" where
  "aead_ok C \<longleftrightarrow> (\<forall>k n p. gcm_open C k n (gcm_seal C k n p) = Some p \<and>
     length (gcm_seal C k n p) = length p + 16)"

text \<open>GCM is deterministic: \<^verbatim>\<open>Open\<close> succeeds only on the output of \<^verbatim>\<open>Seal\<close> for the same key and nonce.\<close>

definition aead_exact :: "cryptolib \<Rightarrow> bool" where
  "aead_exact C \<longleftrightarrow> (\<forall>k n c p. gcm_open C k n c = Some p \<longrightarrow> c = gcm_seal C k n p)"

definition hkdf_ok :: "cryptolib \<Rightarrow> bool" where
  "hkdf_ok C \<longleftrightarrow> (\<forall>s salt info. \<exists>k. hkdf_key C s salt info 32 = Some k \<and> length k = 32)"

definition x25519_ok :: "cryptolib \<Rightarrow> bool" where
  "x25519_ok C \<longleftrightarrow>
     (\<forall>a. length (x25519_public C a) = 32) \<and>
     (\<forall>a b. x25519_ecdh C a (x25519_public C b) = x25519_ecdh C b (x25519_public C a))"

lemma open_seal [simp]: "aead_ok C \<Longrightarrow> gcm_open C k n (gcm_seal C k n p) = Some p"
  by (simp add: aead_ok_def)

lemma length_seal [simp]: "aead_ok C \<Longrightarrow> length (gcm_seal C k n p) = length p + 16"
  by (simp add: aead_ok_def)

section \<open>Public keys, ciphers\<close>

text \<open>\<^verbatim>\<open>ecdh.X25519().NewPublicKey\<close> accepts 32 bytes, \<^verbatim>\<open>aes.NewCipher\<close> keys of 16, 24 or 32 bytes.\<close>

definition NewPublicKey :: "bytes \<Rightarrow> bytes option" where
  "NewPublicKey k = (if length k = 32 then Some k else None)"

definition NewCipher :: "bytes \<Rightarrow> bytes option" where
  "NewCipher k = (if length k \<in> {16, 24, 32} then Some k else None)"

section \<open>Concrete instances\<close>

definition fit :: "nat \<Rightarrow> bytes \<Rightarrow> bytes" where
  "fit n bs = take n (bs @ replicate n 0)"

lemma length_fit [simp]: "length (fit n bs) = n"
  by (simp add: fit_def)

definition demo_crypto :: cryptolib where
  "demo_crypto = \<lparr>
     gcm_seal = (\<lambda>k n p. replicate 16 0 @ p),
     gcm_open = (\<lambda>k n c. if length c \<ge> 16 \<and> take 16 c = replicate 16 0 then Some (drop 16 c) else None),
     hkdf_key = (\<lambda>s salt info n. Some (fit n (s @ salt @ bytes_of info))),
     x25519_public = fit 32,
     x25519_ecdh = (\<lambda>a b. Some (map2 (XOR) (fit 32 a) b))\<rparr>"

lemma demo_crypto_ok: "aead_ok demo_crypto" "aead_exact demo_crypto" "hkdf_ok demo_crypto" "x25519_ok demo_crypto"
proof -
  have "map2 (XOR) xs ys = map2 (XOR) ys xs" for xs ys :: bytes
    by (induction xs ys rule: list_induct2') (simp_all add: xor.commute)
  then show "x25519_ok demo_crypto" by (simp add: x25519_ok_def demo_crypto_def)
qed (auto simp: aead_ok_def aead_exact_def hkdf_ok_def demo_crypto_def,
     metis append_take_drop_id)

definition demo_lib :: golib where
  "demo_lib = \<lparr>
     unicode_upper = (\<lambda>s. s), unicode_lower = (\<lambda>s. s), unicode_trim = (\<lambda>s. s),
     sha256 = fit 32,
     ed25519_public = fit 32,
     ed25519_sign = (\<lambda>priv msg. fit 64 (fit 32 priv @ msg)),
     ed25519_verify = (\<lambda>pub msg sig. sig = fit 64 (pub @ msg)),
     rfc3339_parse = (\<lambda>s. case DecodeString s of None \<Rightarrow> None
        | Some bs \<Rightarrow> Some (int (unat (Uint64 bs)) * second)),
     rfc3339_format = (\<lambda>t. EncodeToString (PutUint64 (word_of_int (t div second)))),
     parse_ip = (\<lambda>s. case DecodeString s of None \<Rightarrow> None | Some bs \<Rightarrow> if length bs = 16 then Some bs else None),
     ip_string = EncodeToString\<rparr>"

lemma demo_lib_ok: "sha256_ok demo_lib" "ed25519_ok demo_lib" "rfc3339_ok demo_lib"
proof -
  show "rfc3339_ok demo_lib"
    unfolding rfc3339_ok_def
  proof (intro allI impI)
    fix t :: time
    assume t: "0 \<le> t" "t < rfc3339_end"
    have d: "0 \<le> t div second" "t div second < 2 ^ 64"
      using t by (simp_all add: second_def rfc3339_end_def)
    then have "int (unat (word_of_int (t div second) :: u64)) = t div second"
      by (simp add: unsigned_of_int take_bit_int_eq_self)
    then show "rfc3339_parse demo_lib (rfc3339_format demo_lib t) = Some (t - t mod second) \<and>
        rfc3339_format demo_lib t \<noteq> []"
      by (simp add: demo_lib_def codec_simps minus_mod_eq_div_mult flip: length_0_conv)
  qed
qed (simp_all add: sha256_ok_def ed25519_ok_def demo_lib_def)

end
