(* ===== verification/Cell.thy ===== *)
theory Cell
  imports Crypto
begin

text \<open>
  \<^verbatim>\<open>internal/onion/cell.go\<close>: the fixed-size cells of a circuit, the create/created handshake, the
  keys and counters of a hop, and the relay envelope. A \<^verbatim>\<open>[16]byte\<close> array is a list of bytes; the
  predicate \<open>cell_ok\<close> states its length.
\<close>

section \<open>Cells\<close>

abbreviation (input) cellVersion :: byte where "cellVersion \<equiv> 1"
abbreviation (input) cellSize :: nat where "cellSize \<equiv> 1024"
abbreviation (input) cellHeaderSize :: nat where "cellHeaderSize \<equiv> 20"
abbreviation (input) cellPayloadSize :: nat where "cellPayloadSize \<equiv> cellSize - cellHeaderSize"
abbreviation (input) maxRelayLayers :: nat where "maxRelayLayers \<equiv> 5"
abbreviation (input) relayTagSize :: nat where "relayTagSize \<equiv> 16"
abbreviation (input) relayEnvelopeSize :: nat where "relayEnvelopeSize \<equiv> 7"
abbreviation (input) maxRelayPlainPayload :: nat where
  "maxRelayPlainPayload \<equiv> cellPayloadSize - (maxRelayLayers * relayTagSize)"
abbreviation (input) maxRelayDataPayload :: nat where
  "maxRelayDataPayload \<equiv> maxRelayPlainPayload - relayEnvelopeSize"

abbreviation (input) cellTypeCreate :: byte where "cellTypeCreate \<equiv> 1"
abbreviation (input) cellTypeCreated :: byte where "cellTypeCreated \<equiv> 2"
abbreviation (input) cellTypeRelay :: byte where "cellTypeRelay \<equiv> 3"
abbreviation (input) cellTypeDestroy :: byte where "cellTypeDestroy \<equiv> 4"

abbreviation (input) relayCmdExtend :: byte where "relayCmdExtend \<equiv> 1"
abbreviation (input) relayCmdExtended :: byte where "relayCmdExtended \<equiv> 2"
abbreviation (input) relayCmdBegin :: byte where "relayCmdBegin \<equiv> 3"
abbreviation (input) relayCmdConnected :: byte where "relayCmdConnected \<equiv> 4"
abbreviation (input) relayCmdData :: byte where "relayCmdData \<equiv> 5"
abbreviation (input) relayCmdEnd :: byte where "relayCmdEnd \<equiv> 6"
abbreviation (input) relayCmdError :: byte where "relayCmdError \<equiv> 7"

definition relayMagic :: bytes where
  "relayMagic = bytes_of ''VXRL''"

record cell =
  cl_Type :: byte
  cl_CircuitID :: bytes
  cl_Payload :: bytes

record createdPayload =
  ServerPub :: bytes
  Signature :: bytes

record circuitKeyState =
  forward :: bytes
  backward :: bytes
  forwardCounter :: u64
  backwardCounter :: u64

datatype onion_error =
    CellPayloadTooLarge nat
  | CellRead io_error
  | CellVersion byte
  | CellLength nat
  | CreateSize nat
  | ParseKey
  | SharedKey
  | CreatedSize nat
  | RelayKeyDecode
  | RelayKeySize
  | CreatedSignature
  | DeriveKey
  | NewAEAD
  | DecryptForward
  | DecryptBackward
  | RelayBodyTooLarge nat
  | EnvelopeLength nat
  | OpaqueBeforeOutbound
  | UnexpectedCircuitID
  | UnexpectedCellType byte
  | OpaqueAfterUnwrap
  | CircuitEOF
  | TargetWrite
  | RelayFailed bytes
  | UnexpectedResponse byte
  | NotEnoughPeers nat nat
  | HopCountNotPositive
  | NoReachableAddress

definition cell_ok :: "cell \<Rightarrow> bool" where
  "cell_ok c \<longleftrightarrow> length (cl_CircuitID c) = 16"

definition writeCell :: "cell \<Rightarrow> onion_error + bytes" where
  "writeCell c =
     (if length (cl_Payload c) > cellPayloadSize then Inl (CellPayloadTooLarge (length (cl_Payload c)))
      else Inr ([cellVersion, cl_Type c] @ cl_CircuitID c @ PutUint16 (word_of_nat (length (cl_Payload c))) @
             cl_Payload c @ replicate (cellPayloadSize - length (cl_Payload c)) 0))"

definition readCell :: "bytes \<Rightarrow> onion_error + (cell \<times> bytes)" where
  "readCell r = (case ReadFull cellSize r of
     Inl e \<Rightarrow> Inl (CellRead e)
   | Inr (raw, r') \<Rightarrow>
       if raw ! 0 \<noteq> cellVersion then Inl (CellVersion (raw ! 0))
       else let n = unat (Uint16 (take 2 (drop 18 raw))) in
         if n > cellPayloadSize then Inl (CellLength n)
         else Inr (\<lparr>cl_Type = raw ! 1, cl_CircuitID = take 16 (drop 2 raw),
                    cl_Payload = take n (drop cellHeaderSize raw)\<rparr>, r'))"

text \<open>The random bytes of \<^verbatim>\<open>randomCircuitID\<close> are its argument.\<close>

definition randomCircuitID :: "bytes \<Rightarrow> bytes \<times> string" where
  "randomCircuitID rnd = (take 16 rnd, EncodeToString (take 16 rnd))"

definition circuitIDFromString :: "golib \<Rightarrow> string \<Rightarrow> bytes" where
  "circuitIDFromString G label = (case DecodeString label of
     Some raw \<Rightarrow> if length raw = 16 then raw else take 16 (sha256 G (bytes_of label))
   | None \<Rightarrow> take 16 (sha256 G (bytes_of label)))"

section \<open>Create and created\<close>

definition parseCreatePayload :: "bytes \<Rightarrow> onion_error + bytes" where
  "parseCreatePayload payload =
     (if length payload \<noteq> 32 then Inl (CreateSize (length payload)) else Inr payload)"

definition createdSigningPayload :: "bytes \<Rightarrow> bytes \<Rightarrow> bytes \<Rightarrow> bytes" where
  "createdSigningPayload circuitID clientPub serverPub =
     bytes_of (''vx6-onion-create'' @ [CHR 0x0A]) @ circuitID @ clientPub @ serverPub"

definition buildCreatedPayload ::
  "golib \<Rightarrow> cryptolib \<Rightarrow> bytes \<Rightarrow> bytes \<Rightarrow> bytes \<Rightarrow> bytes \<Rightarrow> onion_error + (createdPayload \<times> bytes)" where
  "buildCreatedPayload G C circuitID clientPub relayPriv signer =
     (let pub = x25519_public C relayPriv;
          out = \<lparr>ServerPub = pub,
                 Signature = ed25519_sign G signer (createdSigningPayload circuitID clientPub pub)\<rparr>
      in case NewPublicKey clientPub of
           None \<Rightarrow> Inl ParseKey
         | Some clientKey \<Rightarrow>
             (case x25519_ecdh C relayPriv clientKey of
                None \<Rightarrow> Inl SharedKey
              | Some shared \<Rightarrow> Inr (out, shared)))"

definition verifyCreatedPayload ::
  "golib \<Rightarrow> bytes \<Rightarrow> string \<Rightarrow> bytes \<Rightarrow> bytes \<Rightarrow> onion_error + bytes" where
  "verifyCreatedPayload G payload expectedPubKey circuitID clientPub =
     (if length payload \<noteq> 32 + 64 then Inl (CreatedSize (length payload))
      else let serverPub = take 32 payload; signature = drop 32 payload in
        (case b64_decode StdEncoding expectedPubKey of
           None \<Rightarrow> Inl RelayKeyDecode
         | Some pubKey \<Rightarrow>
             if length pubKey \<noteq> 32 then Inl RelayKeySize
             else if \<not> ed25519_verify G pubKey (createdSigningPayload circuitID clientPub serverPub) signature
             then Inl CreatedSignature
             else Inr serverPub))"

definition marshalCreatedPayload :: "createdPayload \<Rightarrow> bytes" where
  "marshalCreatedPayload c = ServerPub c @ Signature c"

section \<open>Hop keys\<close>

definition deriveKey :: "cryptolib \<Rightarrow> bytes \<Rightarrow> bytes \<Rightarrow> string \<Rightarrow> onion_error + bytes" where
  "deriveKey C shared circuitID label = (case hkdf_key C shared circuitID (''vx6-onion-'' @ label) 32 of
     None \<Rightarrow> Inl DeriveKey
   | Some k \<Rightarrow> Inr k)"

definition newAEAD :: "bytes \<Rightarrow> onion_error + bytes" where
  "newAEAD key = (case NewCipher key of None \<Rightarrow> Inl NewAEAD | Some k \<Rightarrow> Inr k)"

definition deriveCircuitKeys :: "cryptolib \<Rightarrow> bytes \<Rightarrow> bytes \<Rightarrow> onion_error + circuitKeyState" where
  "deriveCircuitKeys C shared circuitID =
     (case deriveKey C shared circuitID ''forward'' of Inl e \<Rightarrow> Inl e | Inr forwardKey \<Rightarrow>
      (case deriveKey C shared circuitID ''backward'' of Inl e \<Rightarrow> Inl e | Inr backwardKey \<Rightarrow>
       (case newAEAD forwardKey of Inl e \<Rightarrow> Inl e | Inr f \<Rightarrow>
        (case newAEAD backwardKey of Inl e \<Rightarrow> Inl e | Inr b \<Rightarrow>
          Inr \<lparr>forward = f, backward = b, forwardCounter = 0, backwardCounter = 0\<rparr>))))"

definition counterNonce :: "u64 \<Rightarrow> bytes" where
  "counterNonce counter = replicate 4 0 @ PutUint64 counter"

definition sealForward :: "cryptolib \<Rightarrow> circuitKeyState \<Rightarrow> bytes \<Rightarrow> bytes \<times> circuitKeyState" where
  "sealForward C s payload =
     (gcm_seal C (forward s) (counterNonce (forwardCounter s)) payload,
      s\<lparr>forwardCounter := forwardCounter s + 1\<rparr>)"

definition openForward :: "cryptolib \<Rightarrow> circuitKeyState \<Rightarrow> bytes \<Rightarrow> onion_error + (bytes \<times> circuitKeyState)" where
  "openForward C s payload = (case gcm_open C (forward s) (counterNonce (forwardCounter s)) payload of
     None \<Rightarrow> Inl DecryptForward
   | Some plain \<Rightarrow> Inr (plain, s\<lparr>forwardCounter := forwardCounter s + 1\<rparr>))"

definition sealBackward :: "cryptolib \<Rightarrow> circuitKeyState \<Rightarrow> bytes \<Rightarrow> bytes \<times> circuitKeyState" where
  "sealBackward C s payload =
     (gcm_seal C (backward s) (counterNonce (backwardCounter s)) payload,
      s\<lparr>backwardCounter := backwardCounter s + 1\<rparr>)"

definition openBackward :: "cryptolib \<Rightarrow> circuitKeyState \<Rightarrow> bytes \<Rightarrow> onion_error + (bytes \<times> circuitKeyState)" where
  "openBackward C s payload = (case gcm_open C (backward s) (counterNonce (backwardCounter s)) payload of
     None \<Rightarrow> Inl DecryptBackward
   | Some plain \<Rightarrow> Inr (plain, s\<lparr>backwardCounter := backwardCounter s + 1\<rparr>))"

section \<open>Relay envelopes\<close>

definition encodeRelayEnvelope :: "byte \<Rightarrow> bytes \<Rightarrow> onion_error + bytes" where
  "encodeRelayEnvelope command body =
     (if length body > maxRelayDataPayload then Inl (RelayBodyTooLarge (length body))
      else Inr (relayMagic @ [command] @ PutUint16 (word_of_nat (length body)) @ body))"

text \<open>\<open>None\<close> stands for \<^verbatim>\<open>recognized = false\<close>.\<close>

definition decodeRelayEnvelope :: "bytes \<Rightarrow> onion_error + (byte \<times> bytes) option" where
  "decodeRelayEnvelope payload =
     (if length payload < relayEnvelopeSize then Inr None
      else if payload ! 0 \<noteq> relayMagic ! 0 \<or> payload ! 1 \<noteq> relayMagic ! 1 \<or>
              payload ! 2 \<noteq> relayMagic ! 2 \<or> payload ! 3 \<noteq> relayMagic ! 3 then Inr None
      else let n = unat (Uint16 (take 2 (drop 5 payload))) in
        if relayEnvelopeSize + n > length payload then Inl (EnvelopeLength n)
        else Inr (Some (payload ! 4, take n (drop 7 payload))))"

section \<open>Properties of the codecs\<close>

lemma take2_PutUint16: "take 2 (PutUint16 w @ r) = PutUint16 w"
  by simp

lemma payload_len16: "n \<le> cellPayloadSize \<Longrightarrow> unat (word_of_nat n :: u16) = n"
  by (simp add: unat_of_nat)

lemma writeCell_ok:
  assumes "cell_ok c" "length (cl_Payload c) \<le> cellPayloadSize"
  obtains raw where "writeCell c = Inr raw" "length raw = cellSize" "\<And>r. readCell (raw @ r) = Inr (c, r)"
proof -
  define pad :: bytes where "pad = replicate (cellPayloadSize - length (cl_Payload c)) 0"
  define n :: u16 where "n = word_of_nat (length (cl_Payload c))"
  define raw where "raw = [cellVersion, cl_Type c] @ cl_CircuitID c @ PutUint16 n @ cl_Payload c @ pad"
  have w: "writeCell c = Inr raw" using assms by (simp add: writeCell_def raw_def pad_def n_def)
  have len: "length raw = cellSize" using assms by (simp add: raw_def pad_def cell_ok_def)
  have n: "unat n = length (cl_Payload c)" unfolding n_def by (rule payload_len16) (rule assms(2))
  have drops: "drop 2 raw = cl_CircuitID c @ PutUint16 n @ cl_Payload c @ pad"
    "drop 18 raw = PutUint16 n @ cl_Payload c @ pad" "drop 20 raw = cl_Payload c @ pad"
    using assms(1) by (simp_all add: raw_def cell_ok_def)
  have "readCell (raw @ r) = Inr (c, r)" for r
    using assms unfolding readCell_def ReadFull_append [OF len] sum.case prod.case drops take2_PutUint16
    by (simp add: codec_simps n Let_def cell_ok_def) (simp add: raw_def)
  with w len show thesis by (rule that)
qed

lemma writeCell_Inr_iff: "is_ok (writeCell c) \<longleftrightarrow> length (cl_Payload c) \<le> cellPayloadSize"
  by (simp add: writeCell_def)

text \<open>
  Cells round-trip and have one size on the wire. Every cell whose payload fits is written as
  exactly 1024 bytes, whatever its type and payload, and reading those bytes off a stream gives
  the cell back and leaves the rest of the stream; a larger payload is refused.
\<close>

theorem readCell_writeCell:
  assumes "cell_ok c"
  shows "case writeCell c of
      Inr raw \<Rightarrow> length (cl_Payload c) \<le> cellPayloadSize \<and> length raw = cellSize \<and> readCell (raw @ r) = Inr (c, r)
    | Inl e \<Rightarrow> e = CellPayloadTooLarge (length (cl_Payload c)) \<and> cellPayloadSize < length (cl_Payload c)"
proof (cases "length (cl_Payload c) \<le> cellPayloadSize")
  case True
  then show ?thesis by (rule writeCell_ok [OF assms]) (simp add: True [simplified])
next
  case False
  then show ?thesis by (simp add: writeCell_def)
qed

lemma length_relayMagic [simp]: "length relayMagic = 4"
  by (simp add: relayMagic_def)

definition envelope :: "byte \<Rightarrow> bytes \<Rightarrow> bytes" where
  "envelope command body = relayMagic @ [command] @ PutUint16 (word_of_nat (length body)) @ body"

lemma encodeRelayEnvelope_ok:
  "length body \<le> maxRelayDataPayload \<Longrightarrow> encodeRelayEnvelope command body = Inr (envelope command body)"
  by (simp add: encodeRelayEnvelope_def envelope_def)

lemma length_envelope [simp]: "length (envelope command body) = relayEnvelopeSize + length body"
  by (simp add: envelope_def)

lemma decode_envelope:
  assumes "length body \<le> maxRelayDataPayload"
  shows "decodeRelayEnvelope (envelope command body @ pad) = Inr (Some (command, body))"
proof -
  let ?n = "word_of_nat (length body) :: u16"
  have n: "unat ?n = length body" using assms by (intro payload_len16) simp
  have d: "drop 5 (envelope command body @ pad) = PutUint16 ?n @ body @ pad"
    "drop 7 (envelope command body @ pad) = body @ pad" by (simp_all add: envelope_def)
  have m: "(envelope command body @ pad) ! i = relayMagic ! i" if "i < 4" for i
    using that by (simp add: envelope_def nth_append)
  have c: "(envelope command body @ pad) ! 4 = command"
    by (simp add: envelope_def nth_append)
  show ?thesis
    unfolding decodeRelayEnvelope_def d take2_PutUint16 c by (simp add: m n codec_simps Let_def)
qed

text \<open>A payload is passed on, not obeyed, exactly when it does not start with the magic.\<close>

lemma decode_None_iff:
  "decodeRelayEnvelope payload = Inr None \<longleftrightarrow> length payload < relayEnvelopeSize \<or> take 4 payload \<noteq> relayMagic"
proof -
  have "take 4 payload = relayMagic \<longleftrightarrow> payload ! 0 = relayMagic ! 0 \<and> payload ! 1 = relayMagic ! 1 \<and>
      payload ! 2 = relayMagic ! 2 \<and> payload ! 3 = relayMagic ! 3" if "length payload \<ge> 7"
    using that by (auto simp: list_eq_iff_nth_eq less_Suc_eq eval_nat_numeral)
  then show ?thesis
    by (auto simp: decodeRelayEnvelope_def Let_def not_less split: if_splits)
qed

end
