(* ===== verification/GoNet.thy ===== *)
theory GoNet
  imports GoBytes
begin

text \<open>
  More of Go's standard library: decimal formatting (\<^verbatim>\<open>strconv.Itoa\<close>, \<^verbatim>\<open>%d\<close>) and the host/port
  functions of \<^verbatim>\<open>net\<close>. The syntax of IP addresses (\<^verbatim>\<open>net.ParseIP\<close>) is the parameter \<open>parse_ip\<close>.
\<close>

section \<open>Decimal numbers\<close>

definition dec_char :: "nat \<Rightarrow> char" where
  "dec_char d = char_of (48 + d)"

fun Itoa :: "nat \<Rightarrow> string" where
  "Itoa n = (if n < 10 then [dec_char n] else Itoa (n div 10) @ [dec_char (n mod 10)])"

declare Itoa.simps [simp del]

definition dec_value :: "string \<Rightarrow> nat" where
  "dec_value s = foldl (\<lambda>v c. v * 10 + (of_char c - 48)) 0 s"

lemma of_dec_char: "d < 10 \<Longrightarrow> (of_char (dec_char d) :: nat) = 48 + d"
  by (simp add: dec_char_def of_char_of)

lemma dec_value_Itoa [simp]: "dec_value (Itoa n) = n"
proof (induction n rule: Itoa.induct)
  case (1 n)
  then show ?case
    by (subst Itoa.simps) (auto simp: dec_value_def of_dec_char)
qed

lemma Itoa_inj: "Itoa m = Itoa n \<longleftrightarrow> m = n"
  by (metis dec_value_Itoa)

lemma Itoa_digits: "c \<in> set (Itoa n) \<Longrightarrow> 48 \<le> (of_char c :: nat) \<and> (of_char c :: nat) < 58"
proof (induction n rule: Itoa.induct)
  case (1 n)
  have "48 \<le> (of_char (dec_char d) :: nat) \<and> (of_char (dec_char d) :: nat) < 58" if "d < 10" for d
    using that by (simp add: of_dec_char)
  then show ?case using 1 by (subst (asm) Itoa.simps) (auto split: if_splits)
qed

lemma Itoa_nonempty [simp]: "Itoa n \<noteq> []"
  by (subst Itoa.simps) simp

lemma Itoa_no_newline [simp]: "CHR 0x0A \<notin> set (Itoa n)"
  using Itoa_digits [of "CHR 0x0A" n] by auto

section \<open>Hosts and ports\<close>

fun last_index :: "string \<Rightarrow> char \<Rightarrow> nat option" where
  "last_index [] c = None"
| "last_index (x # s) c = (case last_index s c of
     Some i \<Rightarrow> Some (Suc i)
   | None \<Rightarrow> if x = c then Some 0 else None)"

fun first_index :: "string \<Rightarrow> char \<Rightarrow> nat option" where
  "first_index [] c = None"
| "first_index (x # s) c = (if x = c then Some 0 else map_option Suc (first_index s c))"

datatype addr_error = MissingPort | TooManyColons | MissingBracket | UnexpectedOpenBracket | UnexpectedCloseBracket

definition SplitHostPort :: "string \<Rightarrow> addr_error + (string \<times> string)" where
  "SplitHostPort hostport = (case last_index hostport (CHR '':'') of
     None \<Rightarrow> Inl MissingPort
   | Some i \<Rightarrow>
       let finish = (\<lambda>host j k.
             if ContainsChar (drop j hostport) (CHR ''['') then Inl UnexpectedOpenBracket
             else if ContainsChar (drop k hostport) (CHR '']'') then Inl UnexpectedCloseBracket
             else Inr (host, drop (i + 1) hostport))
       in if hd hostport = CHR ''['' then
            (case first_index hostport (CHR '']'') of
               None \<Rightarrow> Inl MissingBracket
             | Some e \<Rightarrow>
                 if e + 1 = length hostport then Inl MissingPort
                 else if e + 1 = i then finish (take (e - 1) (drop 1 hostport)) 1 (e + 1)
                 else if hostport ! (e + 1) = CHR '':'' then Inl TooManyColons
                 else Inl MissingPort)
          else let host = take i hostport in
            if ContainsChar host (CHR '':'') then Inl TooManyColons else finish host 0 0)"

definition JoinHostPort :: "string \<Rightarrow> string \<Rightarrow> string" where
  "JoinHostPort host port =
     (if ContainsAny host [CHR '':'', CHR ''%''] then [CHR ''[''] @ host @ [CHR '']'', CHR '':''] @ port
      else host @ [CHR '':''] @ port)"

lemma last_index_append: "c \<notin> set t \<Longrightarrow> last_index (s @ c # t) c = Some (length s)"
proof (induction s)
  case Nil
  have "c \<notin> set t \<Longrightarrow> last_index t c = None" by (induction t) auto
  with Nil show ?case by simp
qed simp

lemma first_index_append: "c \<notin> set s \<Longrightarrow> first_index (s @ c # t) c = Some (length s)"
  by (induction s) auto

text \<open>What \<^verbatim>\<open>JoinHostPort\<close> builds, \<^verbatim>\<open>SplitHostPort\<close> takes apart.\<close>

lemma SplitHostPort_Join:
  assumes "set host \<inter> {CHR ''['', CHR '']''} = {}" "set port \<inter> {CHR '':'', CHR ''['', CHR '']''} = {}"
    and "host \<noteq> []"
  shows "SplitHostPort (JoinHostPort host port) = Inr (host, port)"
proof (cases "ContainsAny host [CHR '':'', CHR ''%'']")
  case True
  let ?s = "[CHR ''[''] @ host @ [CHR '']'', CHR '':''] @ port"
  have l: "last_index ?s (CHR '':'') = Some (length host + 2)"
    using last_index_append [of "CHR '':''" port "CHR ''['' # host @ [CHR '']'']"] assms(2) by simp
  have f: "first_index ?s (CHR '']'') = Some (length host + 1)"
    using first_index_append [of "CHR '']''" "CHR ''['' # host" "CHR '':'' # port"] assms(1) by simp
  have j: "JoinHostPort host port = ?s" using True by (simp add: JoinHostPort_def)
  show ?thesis
    unfolding j SplitHostPort_def l option.case f Let_def using assms by (auto simp: ContainsChar_def)
next
  case False
  let ?s = "host @ [CHR '':''] @ port"
  have l: "last_index ?s (CHR '':'') = Some (length host)"
    using last_index_append [of "CHR '':''" port host] assms(2) by simp
  have j: "JoinHostPort host port = ?s" using False by (simp add: JoinHostPort_def)
  have h: "hd ?s \<noteq> CHR ''[''" using assms(1,3) by (cases host) auto
  have "CHR '':'' \<notin> set host" using False by (auto simp: ContainsAny_def list_ex_iff)
  with h show ?thesis
    unfolding j SplitHostPort_def l option.case Let_def using assms by (auto simp: ContainsChar_def)
qed

text \<open>\<^verbatim>\<open>ip.To4() != nil\<close> for the 16-byte form \<^verbatim>\<open>ParseIP\<close> returns.\<close>

definition is_v4 :: "bytes \<Rightarrow> bool" where
  "is_v4 ip \<longleftrightarrow> length ip = 4 \<or>
     (length ip = 16 \<and> take 10 ip = replicate 10 0 \<and> ip ! 10 = 0xFF \<and> ip ! 11 = 0xFF)"

end
