(* ===== verification/Records.thy ===== *)
theory Records
  imports GoNet Crypto
begin

text \<open>
  \<^verbatim>\<open>internal/identity/store.go\<close> (identities and node IDs), \<^verbatim>\<open>internal/record\<close> (node names, signed
  endpoint and service records) and the address check of \<^verbatim>\<open>internal/transfer/transfer.go\<close> they
  use. \<^verbatim>\<open>fmt.Sprintf\<close> with newlines and string concatenation are the function \<open>lines\<close>.
\<close>

section \<open>Identities\<close>

record Identity =
  id_NodeID :: string
  id_PublicKey :: bytes
  id_PrivateKey :: bytes

datatype record_error =
    IdMissingNodeID | IdInvalidPublicKey | IdInvalidPrivateKey | IdMismatch | IdKeysMismatch
  | NameTooShort | NameTooLong string | NameHyphen string | NameChars string | NameNotUpper string
  | BadAddress string addr_error | NotIPv6 string
  | TtlNotPositive | SequenceZero
  | MissingFields | DecodePublicKey | DecodeSignature | InvalidPublicKey | InvalidSignature
  | ParseExpiresAt | ParseIssuedAt | UnsupportedVersion byte | V2NoSequence | LegacySequence
  | ExpiryNotAfterIssue | Expired | NodeIDMismatch | SignatureFailed
  | ServiceNameEmpty | ServiceNameDots string | AliasEmpty | AliasChars string
  | AddressRequired | HiddenAndPrivate | AliasRequired | InvalidProfile string

definition NodeIDFromPublicKey :: "golib \<Rightarrow> bytes \<Rightarrow> string" where
  "NodeIDFromPublicKey G publicKey = ''vx6_'' @ EncodeToString (sha256 G publicKey)"

definition LegacyNodeIDFromPublicKey :: "golib \<Rightarrow> bytes \<Rightarrow> string" where
  "LegacyNodeIDFromPublicKey G publicKey = ''vx6_'' @ EncodeToString (take 8 (sha256 G publicKey))"

definition Identity_Validate :: "golib \<Rightarrow> Identity \<Rightarrow> record_error + unit" where
  "Identity_Validate G i =
     (if id_NodeID i = [] then Inl IdMissingNodeID
      else if length (id_PublicKey i) \<noteq> 32 then Inl IdInvalidPublicKey
      else if length (id_PrivateKey i) \<noteq> 64 then Inl IdInvalidPrivateKey
      else if NodeIDFromPublicKey G (id_PublicKey i) \<noteq> id_NodeID i then Inl IdMismatch
      else if id_PublicKey i \<noteq> ed25519_public G (id_PrivateKey i) then Inl IdKeysMismatch
      else Inr ())"

text \<open>\<^verbatim>\<open>Generate\<close>, from the private key \<^verbatim>\<open>ed25519.GenerateKey\<close> draws.\<close>

definition Generate :: "golib \<Rightarrow> bytes \<Rightarrow> Identity" where
  "Generate G priv = \<lparr>id_NodeID = NodeIDFromPublicKey G (ed25519_public G priv),
     id_PublicKey = ed25519_public G priv, id_PrivateKey = priv\<rparr>"

section \<open>Names and addresses\<close>

abbreviation (input) MinNodeNameLength :: nat where "MinNodeNameLength \<equiv> 3"
abbreviation (input) MaxNodeNameLength :: nat where "MaxNodeNameLength \<equiv> 16"

definition name_char :: "char \<Rightarrow> bool" where
  "name_char c \<longleftrightarrow> (let n = (of_char c :: nat) in 65 \<le> n \<and> n \<le> 90 \<or> 48 \<le> n \<and> n \<le> 57 \<or> c = CHR ''-'')"

definition validateCanonicalNodeName :: "string \<Rightarrow> record_error + unit" where
  "validateCanonicalNodeName name =
     (if length name < MinNodeNameLength then Inl NameTooShort
      else if length name > MaxNodeNameLength then Inl (NameTooLong name)
      else if hd name = CHR ''-'' \<or> last name = CHR ''-'' then Inl (NameHyphen name)
      else if \<not> list_all name_char name then Inl (NameChars name)
      else Inr ())"

definition NormalizeNodeName :: "golib \<Rightarrow> string \<Rightarrow> record_error + string" where
  "NormalizeNodeName G name =
     (let canonical = ToUpper G name in
      case validateCanonicalNodeName canonical of Inl e \<Rightarrow> Inl e | Inr _ \<Rightarrow> Inr canonical)"

definition ValidateNodeName :: "golib \<Rightarrow> string \<Rightarrow> record_error + unit" where
  "ValidateNodeName G name = (case NormalizeNodeName G name of Inl e \<Rightarrow> Inl e | Inr _ \<Rightarrow> Inr ())"

definition ValidateCanonicalNodeName :: "golib \<Rightarrow> string \<Rightarrow> record_error + unit" where
  "ValidateCanonicalNodeName G name =
     (if name \<noteq> ToUpper G name then Inl (NameNotUpper name) else validateCanonicalNodeName name)"

definition ValidateIPv6Address :: "golib \<Rightarrow> string \<Rightarrow> record_error + unit" where
  "ValidateIPv6Address G address = (case SplitHostPort address of
     Inl e \<Rightarrow> Inl (BadAddress address e)
   | Inr (host, _) \<Rightarrow>
       (case parse_ip G host of
          None \<Rightarrow> Inl (NotIPv6 address)
        | Some ip \<Rightarrow> if is_v4 ip then Inl (NotIPv6 address) else Inr ()))"

section \<open>Endpoint records\<close>

record EndpointRecord =
  er_Version :: byte
  er_Sequence :: u64
  er_NodeID :: string
  er_NodeName :: string
  er_Address :: string
  er_PublicKey :: string
  er_IssuedAt :: string
  er_ExpiresAt :: string
  er_Signature :: string

record VerifiedEndpointRecord =
  vr_record :: EndpointRecord
  vr_publicKey :: bytes

definition lines :: "string list \<Rightarrow> string" where
  "lines ls = concat (map (\<lambda>l. l @ [CHR 0x0A]) ls)"

definition signingPayload :: "EndpointRecord \<Rightarrow> bytes" where
  "signingPayload r = bytes_of
     (if er_Version r \<ge> 2 then
        lines [''vx6/endpoint-record/v2'', Itoa (unat (er_Version r)), Itoa (unat (er_Sequence r)),
          er_NodeID r, er_NodeName r, er_Address r, er_PublicKey r, er_IssuedAt r, er_ExpiresAt r]
      else
        lines [er_NodeID r, er_NodeName r, er_Address r, er_PublicKey r, er_IssuedAt r, er_ExpiresAt r])"

definition newEndpointRecord ::
  "golib \<Rightarrow> Identity \<Rightarrow> string \<Rightarrow> string \<Rightarrow> duration \<Rightarrow> time \<Rightarrow> u64 \<Rightarrow> record_error + EndpointRecord" where
  "newEndpointRecord G i nodeName address ttl now sq =
     (case NormalizeNodeName G nodeName of Inl e \<Rightarrow> Inl e | Inr canonicalName \<Rightarrow>
      (case ValidateIPv6Address G address of Inl e \<Rightarrow> Inl e | Inr _ \<Rightarrow>
       if ttl \<le> 0 then Inl TtlNotPositive
       else (case Identity_Validate G i of Inl e \<Rightarrow> Inl e | Inr _ \<Rightarrow>
         let r0 = \<lparr>er_Version = 1, er_Sequence = 0, er_NodeID = id_NodeID i, er_NodeName = canonicalName,
               er_Address = address, er_PublicKey = b64_encode StdEncoding (id_PublicKey i),
               er_IssuedAt = rfc3339_format G now, er_ExpiresAt = rfc3339_format G (now + ttl),
               er_Signature = []\<rparr>;
             r1 = (if sq > 0 then r0\<lparr>er_Version := 2, er_Sequence := sq\<rparr> else r0)
         in Inr (r1\<lparr>er_Signature := b64_encode StdEncoding
                  (ed25519_sign G (id_PrivateKey i) (signingPayload r1))\<rparr>))))"

definition NewEndpointRecord ::
  "golib \<Rightarrow> Identity \<Rightarrow> string \<Rightarrow> string \<Rightarrow> duration \<Rightarrow> time \<Rightarrow> record_error + EndpointRecord" where
  "NewEndpointRecord G i nodeName address ttl now = newEndpointRecord G i nodeName address ttl now 0"

definition NewEndpointRecordV2 ::
  "golib \<Rightarrow> Identity \<Rightarrow> string \<Rightarrow> string \<Rightarrow> u64 \<Rightarrow> duration \<Rightarrow> time \<Rightarrow> record_error + EndpointRecord" where
  "NewEndpointRecordV2 G i nodeName address sq ttl now =
     (if sq = 0 then Inl SequenceZero else newEndpointRecord G i nodeName address ttl now sq)"

definition VerifyEndpoint :: "golib \<Rightarrow> EndpointRecord \<Rightarrow> time \<Rightarrow> record_error + VerifiedEndpointRecord" where
  "VerifyEndpoint G r now =
     (if er_NodeID r = [] \<or> er_NodeName r = [] \<or> er_Address r = [] then Inl MissingFields
      else case ValidateCanonicalNodeName G (er_NodeName r) of Inl e \<Rightarrow> Inl e | Inr _ \<Rightarrow>
      (case ValidateIPv6Address G (er_Address r) of Inl e \<Rightarrow> Inl e | Inr _ \<Rightarrow>
      (case b64_decode StdEncoding (er_PublicKey r) of None \<Rightarrow> Inl DecodePublicKey | Some publicKey \<Rightarrow>
      (case b64_decode StdEncoding (er_Signature r) of None \<Rightarrow> Inl DecodeSignature | Some signature \<Rightarrow>
       if length publicKey \<noteq> 32 then Inl InvalidPublicKey
       else if length signature \<noteq> 64 then Inl InvalidSignature
       else case rfc3339_parse G (er_ExpiresAt r) of None \<Rightarrow> Inl ParseExpiresAt | Some expiresAt \<Rightarrow>
         if er_Version r > 2 then Inl (UnsupportedVersion (er_Version r))
         else if er_Version r = 2 \<and> er_Sequence r = 0 then Inl V2NoSequence
         else if er_Version r < 2 \<and> er_Sequence r \<noteq> 0 then Inl LegacySequence
         else case (if er_Version r < 2 then
               (case rfc3339_parse G (er_IssuedAt r) of
                  None \<Rightarrow> Inl ParseIssuedAt
                | Some issuedAt \<Rightarrow> if \<not> expiresAt > issuedAt then Inl ExpiryNotAfterIssue else Inr ())
               else Inr ()) of Inl e \<Rightarrow> Inl e | Inr _ \<Rightarrow>
         if now > expiresAt then Inl Expired
         else if NodeIDFromPublicKey G publicKey \<noteq> er_NodeID r then Inl NodeIDMismatch
         else if \<not> ed25519_verify G publicKey (signingPayload r) signature then Inl SignatureFailed
         else Inr \<lparr>vr_record = r, vr_publicKey = publicKey\<rparr>))))"

definition VerifyEndpointRecord :: "golib \<Rightarrow> EndpointRecord \<Rightarrow> time \<Rightarrow> record_error + unit" where
  "VerifyEndpointRecord G r now = (case VerifyEndpoint G r now of Inl e \<Rightarrow> Inl e | Inr _ \<Rightarrow> Inr ())"

definition Fingerprint :: "golib \<Rightarrow> EndpointRecord \<Rightarrow> string" where
  "Fingerprint G r = b64_encode RawURLEncoding (take 12 (sha256 G (signingPayload r)))"

definition EndpointRecordNewer :: "golib \<Rightarrow> EndpointRecord \<Rightarrow> EndpointRecord \<Rightarrow> bool" where
  "EndpointRecordNewer G candidate current =
     (if er_Version candidate \<noteq> er_Version current then er_Version candidate > er_Version current
      else if er_Version candidate \<ge> 2 then er_Sequence candidate > er_Sequence current
      else (case (rfc3339_parse G (er_IssuedAt candidate), rfc3339_parse G (er_IssuedAt current)) of
          (Some a, Some b) \<Rightarrow> a > b
        | _ \<Rightarrow> False))"

definition EndpointRecordSequenceVersion :: "golib \<Rightarrow> EndpointRecord \<Rightarrow> u64" where
  "EndpointRecordSequenceVersion G r =
     (if er_Version r \<ge> 2 then er_Sequence r
      else (case rfc3339_parse G (er_IssuedAt r) of None \<Rightarrow> 0 | Some issuedAt \<Rightarrow> word_of_int (Unix issuedAt)))"

section \<open>Properties of names\<close>

lemma name_char_ascii: "name_char c \<Longrightarrow> (of_char c :: nat) < 128 \<and> upper_char c = c \<and> c \<noteq> CHR 0x0A"
  by (auto simp: name_char_def Let_def upper_char_def)

lemma ToUpper_canonical: "list_all name_char n \<Longrightarrow> ToUpper G n = n"
  by (simp add: ToUpper_def is_ascii_def list_all_iff name_char_ascii map_idI)

lemma validateCanonical_chars: "validateCanonicalNodeName n = Inr u \<Longrightarrow> list_all name_char n \<and> n \<noteq> []"
  by (auto simp: validateCanonicalNodeName_def split: if_splits)

lemma NormalizeNodeName_canonical:
  assumes "NormalizeNodeName G n = Inr m"
  shows "ValidateCanonicalNodeName G m = Inr ()" "NormalizeNodeName G m = Inr m" "m = ToUpper G n" "m \<noteq> []"
proof -
  from assms have v: "validateCanonicalNodeName m = Inr ()" and m: "m = ToUpper G n"
    by (auto simp: NormalizeNodeName_def Let_def split: sum.splits)
  then have u: "ToUpper G m = m" "m \<noteq> []" using validateCanonical_chars ToUpper_canonical by blast+
  then show "ValidateCanonicalNodeName G m = Inr ()" "NormalizeNodeName G m = Inr m" "m = ToUpper G n" "m \<noteq> []"
    using v m by (simp_all add: ValidateCanonicalNodeName_def NormalizeNodeName_def)
qed

lemma Generate_Validate:
  "length (ed25519_public G priv) = 32 \<Longrightarrow> length priv = 64 \<Longrightarrow> Identity_Validate G (Generate G priv) = Inr ()"
  by (simp add: Identity_Validate_def Generate_def NodeIDFromPublicKey_def)

lemma Identity_Validate_iff:
  "Identity_Validate G i = Inr () \<longleftrightarrow>
     length (id_PublicKey i) = 32 \<and> length (id_PrivateKey i) = 64 \<and>
     id_NodeID i = NodeIDFromPublicKey G (id_PublicKey i) \<and> id_PublicKey i = ed25519_public G (id_PrivateKey i)"
  by (auto simp: Identity_Validate_def NodeIDFromPublicKey_def)

section \<open>Signed lines\<close>

abbreviation no_newline :: "string \<Rightarrow> bool" where
  "no_newline s \<equiv> CHR 0x0A \<notin> set s"

lemma count_lines: "count_list (lines ls) (CHR 0x0A) = length ls + sum_list (map (\<lambda>l. count_list l (CHR 0x0A)) ls)"
  by (induction ls) (simp_all add: lines_def)

lemma count_lines_plain: "\<forall>l \<in> set ls. no_newline l \<Longrightarrow> count_list (lines ls) (CHR 0x0A) = length ls"
  by (induction ls) (auto simp: lines_def count_list_0_iff)

lemma lines_inj:
  assumes "\<forall>l \<in> set ls. no_newline l" "length ls = length ms" "lines ls = lines ms"
  shows "ls = ms"
proof -
  have z: "\<forall>m \<in> set ms. no_newline m"
    using count_lines_plain [OF assms(1)] count_lines [of ms] assms(2,3) by (simp add: count_list_0_iff)
  from assms(2) assms(1,3) z show ?thesis
  proof (induction ls ms rule: list_induct2)
    case Nil
    then show ?case by simp
  next
    case (Cons l ls m ms)
    then have e: "l @ CHR 0x0A # lines ls = m @ CHR 0x0A # lines ms" by (simp add: lines_def)
    moreover have "no_newline l" "no_newline m" using Cons.prems by simp_all
    ultimately have "l = m \<and> lines ls = lines ms"
      by (metis Cut_append Pair_inject option.inject)
    then show ?case using Cons by simp
  qed
qed

lemma lines_length:
  "\<forall>l \<in> set ls. no_newline l \<Longrightarrow> lines ls = lines ms \<Longrightarrow> length ms \<le> length ls"
  using count_lines_plain [of ls] count_lines [of ms] by simp

lemma lines_hd:
  assumes "no_newline l" "no_newline m" "lines (l # ls) = lines (m # ms)"
  shows "l = m"
  using assms Cut_append [of "CHR 0x0A"] by (auto simp: lines_def) (metis Pair_inject option.inject)

lemma lines_Nil [simp]: "lines [] = []"
  by (simp add: lines_def)

section \<open>Properties of endpoint records\<close>

text \<open>The fields an endpoint signature covers.\<close>

definition er_fields :: "EndpointRecord \<Rightarrow> string list" where
  "er_fields r = [er_NodeID r, er_NodeName r, er_Address r, er_PublicKey r, er_IssuedAt r, er_ExpiresAt r]"

lemma signingPayload_alt:
  "signingPayload r = bytes_of (lines ((if er_Version r \<ge> 2
     then [''vx6/endpoint-record/v2'', Itoa (unat (er_Version r)), Itoa (unat (er_Sequence r))] else []) @ er_fields r))"
  by (simp add: signingPayload_def er_fields_def)

lemma NodeID_no_newline [simp]: "no_newline (NodeIDFromPublicKey G k)"
  using Encode_hex_digits [of "CHR 0x0A" "sha256 G k"] by (auto simp: NodeIDFromPublicKey_def hex_val_def)

lemma VerifyEndpoint_iff:
  "VerifyEndpoint G r now = Inr v \<longleftrightarrow>
     vr_record v = r \<and>
     er_NodeID r \<noteq> [] \<and> er_NodeName r \<noteq> [] \<and> er_Address r \<noteq> [] \<and>
     ValidateCanonicalNodeName G (er_NodeName r) = Inr () \<and> ValidateIPv6Address G (er_Address r) = Inr () \<and>
     b64_decode StdEncoding (er_PublicKey r) = Some (vr_publicKey v) \<and> length (vr_publicKey v) = 32 \<and>
     er_NodeID r = NodeIDFromPublicKey G (vr_publicKey v) \<and>
     (\<exists>sig. b64_decode StdEncoding (er_Signature r) = Some sig \<and> length sig = 64 \<and>
        ed25519_verify G (vr_publicKey v) (signingPayload r) sig) \<and>
     (er_Version r = 2 \<and> er_Sequence r \<noteq> 0 \<or> er_Version r < 2 \<and> er_Sequence r = 0) \<and>
     (\<exists>expiresAt. rfc3339_parse G (er_ExpiresAt r) = Some expiresAt \<and> now \<le> expiresAt \<and>
        (er_Version r < 2 \<longrightarrow>
           (\<exists>issuedAt. rfc3339_parse G (er_IssuedAt r) = Some issuedAt \<and> issuedAt < expiresAt)))"
proof (cases v)
  case v: (fields rec publicKey)
  show ?thesis
    unfolding v VerifyEndpoint_def
    by (cases "b64_decode StdEncoding (er_PublicKey r)"; cases "b64_decode StdEncoding (er_Signature r)";
        cases "rfc3339_parse G (er_ExpiresAt r)"; cases "rfc3339_parse G (er_IssuedAt r)";
        cases "er_Version r < 2")
      (auto split: sum.splits if_splits)
qed

lemma newEndpointRecord_fields:
  assumes "newEndpointRecord G i nodeName address ttl now sq = Inr r"
  shows "ValidateIPv6Address G address = Inr ()" "0 < ttl" "Identity_Validate G i = Inr ()"
    "NormalizeNodeName G nodeName = Inr (er_NodeName r)"
    "er_Address r = address" "er_NodeID r = id_NodeID i" "er_PublicKey r = b64_encode StdEncoding (id_PublicKey i)"
    "er_IssuedAt r = rfc3339_format G now" "er_ExpiresAt r = rfc3339_format G (now + ttl)"
    "er_Version r = (if sq > 0 then 2 else 1)" "er_Sequence r = sq"
    "er_Signature r = b64_encode StdEncoding (ed25519_sign G (id_PrivateKey i) (signingPayload r))"
proof -
  have sp: "signingPayload (r\<lparr>er_Signature := x\<rparr>) = signingPayload r" for x r
    by (simp add: signingPayload_def)
  from assms obtain n r1 where r1: "NormalizeNodeName G nodeName = Inr n" "ValidateIPv6Address G address = Inr ()"
      "0 < ttl" "Identity_Validate G i = Inr ()"
      "r1 = \<lparr>er_Version = if sq > 0 then 2 else 1, er_Sequence = sq, er_NodeID = id_NodeID i, er_NodeName = n,
         er_Address = address, er_PublicKey = b64_encode StdEncoding (id_PublicKey i),
         er_IssuedAt = rfc3339_format G now, er_ExpiresAt = rfc3339_format G (now + ttl), er_Signature = []\<rparr>"
      "r = r1\<lparr>er_Signature := b64_encode StdEncoding (ed25519_sign G (id_PrivateKey i) (signingPayload r1))\<rparr>"
    unfolding newEndpointRecord_def Let_def
    by (cases "NormalizeNodeName G nodeName"; cases "ValidateIPv6Address G address";
        cases "Identity_Validate G i"; cases "ttl \<le> 0"; cases "sq > 0") (auto simp: word_gt_0)
  then show "ValidateIPv6Address G address = Inr ()" "0 < ttl" "Identity_Validate G i = Inr ()"
    "NormalizeNodeName G nodeName = Inr (er_NodeName r)"
    "er_Address r = address" "er_NodeID r = id_NodeID i" "er_PublicKey r = b64_encode StdEncoding (id_PublicKey i)"
    "er_IssuedAt r = rfc3339_format G now" "er_ExpiresAt r = rfc3339_format G (now + ttl)"
    "er_Version r = (if sq > 0 then 2 else 1)" "er_Sequence r = sq" by simp_all
  have "signingPayload r = signingPayload r1" unfolding r1(6) by (rule sp)
  then show "er_Signature r = b64_encode StdEncoding (ed25519_sign G (id_PrivateKey i) (signingPayload r))"
    unfolding r1(6) by (simp add: sp)
qed

lemma trunc_less:
  assumes "0 < d" "d \<le> ttl"
  shows "now - now mod d < (now + ttl) - (now + ttl) mod (d :: int)"
proof -
  have "now div d + 1 = (now + d) div d" using assms by (simp add: div_add_self2)
  also have "\<dots> \<le> (now + ttl) div d" using assms by (intro zdiv_mono1) simp_all
  finally have "d * (now div d) < d * ((now + ttl) div d)" using assms by simp
  then show ?thesis by (simp add: minus_mod_eq_mult_div)
qed

lemma newEndpointRecord_verifies_at:
  assumes "ed25519_ok G" "rfc3339_ok G"
    and "0 \<le> now" "now + ttl < rfc3339_end" "second \<le> ttl"
    and "newEndpointRecord G i nodeName address ttl now sq = Inr r"
  shows "VerifyEndpoint G r t =
    (if t \<le> now + ttl - (now + ttl) mod second then Inr \<lparr>vr_record = r, vr_publicKey = id_PublicKey i\<rparr>
     else Inl Expired)"
proof -
  note c = newEndpointRecord_fields [OF assms(6)]
  let ?e = "now + ttl - (now + ttl) mod second" and ?s = "now - now mod second"
  have i: "length (id_PublicKey i) = 32" "length (id_PrivateKey i) = 64"
    "id_NodeID i = NodeIDFromPublicKey G (id_PublicKey i)" "id_PublicKey i = ed25519_public G (id_PrivateKey i)"
    using c(3) unfolding Identity_Validate_iff by blast+
  have p: "rfc3339_parse G (er_ExpiresAt r) = Some ?e" "rfc3339_parse G (er_IssuedAt r) = Some ?s"
    using assms(2-5) c by (simp_all add: rfc3339_ok_def)
  have lt: "?s < ?e" using assms(5) by (intro trunc_less) (simp_all add: second_def)
  have "er_Address r \<noteq> []" using c(1,5) by (auto simp: ValidateIPv6Address_def SplitHostPort_def)
  moreover have "er_NodeID r \<noteq> []" using c(6) i(3) by (simp add: NodeIDFromPublicKey_def)
  moreover note NormalizeNodeName_canonical [OF c(4)]
  moreover have "ed25519_verify G (id_PublicKey i) (signingPayload r)
      (ed25519_sign G (id_PrivateKey i) (signingPayload r))"
    "length (ed25519_sign G (id_PrivateKey i) (signingPayload r)) = 64"
    using assms(1) i(2,4) by (simp_all add: ed25519_ok_def)
  ultimately show ?thesis
    using c p i(1,3) lt by (auto simp: VerifyEndpoint_def word_neq_0_conv)
qed

text \<open>
  C11: what a node signs, every node accepts until it expires. A record made by
  \<^verbatim>\<open>newEndpointRecord\<close> (which \<^verbatim>\<open>NewEndpointRecord\<close> and \<^verbatim>\<open>NewEndpointRecordV2\<close> call) with a lifetime
  of at least one second verifies at every instant up to its expiry, which is the end of the
  lifetime rounded down to the second, and is rejected as expired after it.
\<close>

theorem newEndpointRecord_verifies:
  assumes "ed25519_ok G" "rfc3339_ok G"
    and "0 \<le> now" "now + ttl < rfc3339_end" "second \<le> ttl"
    and "newEndpointRecord G i nodeName address ttl now sq = Inr r"
  shows "VerifyEndpoint G r t =
    (if t \<le> now + ttl - (now + ttl) mod second then Inr \<lparr>vr_record = r, vr_publicKey = id_PublicKey i\<rparr>
     else Inl Expired)"
  using assms by (rule newEndpointRecord_verifies_at)

text \<open>A concrete identity and address for the instances below.\<close>

definition demo_identity :: Identity where
  "demo_identity = Generate demo_lib (replicate 64 1)"

definition demo_addr :: string where
  "demo_addr = ''20010db8000000000000000000000001:4242''"

lemma demo_identity_ok: "Identity_Validate demo_lib demo_identity = Inr ()"
  unfolding demo_identity_def by (rule Generate_Validate) (simp_all add: demo_lib_def)

lemma demo_addr_ok: "ValidateIPv6Address demo_lib demo_addr = Inr ()"
  by code_simp

lemma demo_record:
  "0 < ttl \<Longrightarrow> \<exists>r. newEndpointRecord demo_lib demo_identity ''node-1'' demo_addr ttl now sq = Inr r"
proof -
  have "NormalizeNodeName demo_lib ''node-1'' = Inr ''NODE-1''" by code_simp
  then show "0 < ttl \<Longrightarrow> ?thesis"
    by (simp add: newEndpointRecord_def demo_identity_ok demo_addr_ok Let_def)
qed

theorem newEndpointRecord_verifies_witness:
  "\<exists>r. newEndpointRecord demo_lib demo_identity ''node-1'' demo_addr (60 * second) 0 7 = Inr r \<and>
     is_ok (VerifyEndpoint demo_lib r (60 * second)) \<and> VerifyEndpoint demo_lib r (61 * second) = Inl Expired"
proof -
  obtain r where r: "newEndpointRecord demo_lib demo_identity ''node-1'' demo_addr (60 * second) 0 7 = Inr r"
    using demo_record [of "60 * second"] by (auto simp: second_def)
  have "0 + 60 * second < rfc3339_end" "second \<le> 60 * second" by (simp_all add: second_def rfc3339_end_def)
  from newEndpointRecord_verifies [OF demo_lib_ok(2,3) order_refl this r] r show ?thesis
    by (simp add: second_def)
qed

lemma signingPayload_fields:
  assumes e: "signingPayload r = signingPayload r'"
    and plain: "\<forall>f \<in> set (er_fields r). no_newline f"
    and node: "er_NodeID r' = NodeIDFromPublicKey G k"
  shows "er_fields r = er_fields r' \<and> (er_Version r \<ge> 2 \<longleftrightarrow> er_Version r' \<ge> 2) \<and>
     (er_Version r \<ge> 2 \<longrightarrow> er_Version r = er_Version r' \<and> er_Sequence r = er_Sequence r')"
proof -
  define h where "h r = (if er_Version r \<ge> 2
     then [''vx6/endpoint-record/v2'', Itoa (unat (er_Version r)), Itoa (unat (er_Sequence r))] else [])" for r :: EndpointRecord
  have p: "signingPayload r = bytes_of (lines (h r @ er_fields r))" for r
    unfolding h_def by (rule signingPayload_alt)
  from e have l: "lines (h r @ er_fields r) = lines (h r' @ er_fields r')"
    by (simp add: p bytes_of_inj)
  have pl: "\<forall>f \<in> set (h r @ er_fields r). no_newline f" using plain by (auto simp: h_def)
  have len: "length (er_fields r) = 6" for r :: EndpointRecord by (simp add: er_fields_def)
  have "er_Version r \<ge> 2 \<longleftrightarrow> er_Version r' \<ge> 2"
  proof -
    have "\<not> (er_Version r' \<ge> 2 \<and> \<not> er_Version r \<ge> 2)"
      using lines_length [OF pl l] by (auto simp: h_def len split: if_splits)
    moreover have "\<not> (er_Version r \<ge> 2 \<and> \<not> er_Version r' \<ge> 2)"
    proof
      assume "er_Version r \<ge> 2 \<and> \<not> er_Version r' \<ge> 2"
      then obtain x where "h r = ''vx6/endpoint-record/v2'' # x" "h r' = []" by (simp add: h_def)
      then have "lines (''vx6/endpoint-record/v2'' # (x @ er_fields r)) = lines (er_NodeID r' # tl (er_fields r'))"
        using l by (simp add: er_fields_def)
      moreover have "no_newline ''vx6/endpoint-record/v2''" by simp
      moreover have "no_newline (er_NodeID r')" by (simp add: node)
      ultimately have "''vx6/endpoint-record/v2'' = er_NodeID r'" by (blast intro: lines_hd)
      then show False by (simp add: node NodeIDFromPublicKey_def)
    qed
    ultimately show ?thesis by blast
  qed
  moreover from this have "h r @ er_fields r = h r' @ er_fields r'"
    by (intro lines_inj [OF pl _ l]) (simp add: h_def len)
  ultimately show ?thesis
    by (auto simp: h_def Itoa_inj len split: if_splits dest: word_unat_eq_iff [THEN iffD2])
qed

lemma b64_encode_no_newline [simp]: "no_newline (b64_encode e bs)"
  using b64_encode_plain [of e bs] by (auto simp: filter_id_conv)

text \<open>What a node signs for an address without a newline has no newline in any field.\<close>

lemma newEndpointRecord_plain:
  assumes "newEndpointRecord G i nodeName address ttl now sq = Inr r" "no_newline address"
    and "\<forall>t. no_newline (rfc3339_format G t)"
  shows "\<forall>f \<in> set (er_fields r). no_newline f"
proof -
  note c = newEndpointRecord_fields [OF assms(1)]
  have "list_all name_char (er_NodeName r)"
    using NormalizeNodeName_canonical(1) [OF c(4)] validateCanonical_chars
    by (auto simp: ValidateCanonicalNodeName_def split: if_splits)
  then have "no_newline (er_NodeName r)" using name_char_ascii by (auto simp: list_all_iff)
  moreover have "no_newline (id_NodeID i)" using c(3) by (auto simp: Identity_Validate_iff)
  ultimately show ?thesis using c assms(2,3) by (simp add: er_fields_def)
qed

lemma word_less_2: "x < 2 \<Longrightarrow> x \<in> {0, 1}" for x :: byte
proof -
  assume "x < 2"
  then have "unat x < 2" by (simp add: word_less_nat_alt)
  then have "unat x = 0 \<or> unat x = 1" by linarith
  then have "unat x = unat (0 :: byte) \<or> unat x = unat (1 :: byte)" by simp
  then show ?thesis by (simp only: word_unat_eq_iff [symmetric]) simp
qed

text \<open>
  C12: a signature a node made stands for one record. Take a record made by \<^verbatim>\<open>newEndpointRecord\<close> for an address
  without a newline (RFC 3339 times have none), and any record, from anybody, that \<^verbatim>\<open>VerifyEndpoint\<close> accepts and that has
  the same signed bytes. Then the two agree in node ID, name, address, key, sequence, issue and expiry times, and for version 2
  in the version: they differ at most in the signature and, for a legacy record, in the version number (0 or 1), which is not signed.
\<close>

theorem signingPayload_binds:
  assumes "newEndpointRecord G i nodeName address ttl now sq = Inr r" "no_newline address"
    and "\<forall>t. no_newline (rfc3339_format G t)"
    and "VerifyEndpoint G r' t = Inr v" "signingPayload r' = signingPayload r"
  shows "r' = r\<lparr>er_Version := er_Version r', er_Signature := er_Signature r'\<rparr> \<and>
    (if sq > 0 then er_Version r' = er_Version r else er_Version r' \<in> {0, 1})"
proof -
  note c = newEndpointRecord_fields [OF assms(1)]
  have f: "er_fields r = er_fields r' \<and> (er_Version r \<ge> 2 \<longleftrightarrow> er_Version r' \<ge> 2) \<and>
     (er_Version r \<ge> 2 \<longrightarrow> er_Version r = er_Version r' \<and> er_Sequence r = er_Sequence r')"
    using assms(4,5) newEndpointRecord_plain [OF assms(1-3)]
    by (intro signingPayload_fields [of r r' G "vr_publicKey v"]) (simp_all add: VerifyEndpoint_iff)
  have v: "er_Version r' = 2 \<and> er_Sequence r' \<noteq> 0 \<or> er_Version r' < 2 \<and> er_Sequence r' = 0"
    using assms(4) by (simp add: VerifyEndpoint_iff)
  have seq: "er_Sequence r' = er_Sequence r"
  proof (cases "er_Version r \<ge> 2")
    case True
    then show ?thesis using f by simp
  next
    case False
    then have "sq = 0" "\<not> er_Version r' \<ge> 2" using c(10) f by (auto split: if_splits simp: word_neq_0_conv [symmetric])
    then show ?thesis using v c(11) by auto
  qed
  then have eq: "r' = r\<lparr>er_Version := er_Version r', er_Signature := er_Signature r'\<rparr>"
    using f by (intro EndpointRecord.equality) (simp_all add: er_fields_def)
  show ?thesis
  proof (cases "sq > 0")
    case True
    then show ?thesis using eq f c(10) by simp
  next
    case False
    then have "\<not> er_Version r \<ge> 2" using c(10) by (simp add: word_le_nat_alt)
    then have "er_Version r' < 2" using f by (meson not_le)
    then have "er_Version r' \<in> {0, 1}" by (rule word_less_2)
    then show ?thesis using eq False by simp
  qed
qed

theorem signingPayload_binds_witness:
  "\<exists>r v. newEndpointRecord demo_lib demo_identity ''node-1'' demo_addr (60 * second) 0 7 = Inr r \<and>
     VerifyEndpoint demo_lib r 0 = Inr v \<and> r = r\<lparr>er_Version := er_Version r, er_Signature := er_Signature r\<rparr> \<and> er_Version r = 2"
proof -
  obtain r where r: "newEndpointRecord demo_lib demo_identity ''node-1'' demo_addr (60 * second) 0 7 = Inr r"
    using demo_record [of "60 * second"] by (auto simp: second_def)
  have t: "0 + 60 * second < rfc3339_end" "second \<le> 60 * second" by (simp_all add: second_def rfc3339_end_def)
  have v: "VerifyEndpoint demo_lib r 0 = Inr \<lparr>vr_record = r, vr_publicKey = id_PublicKey demo_identity\<rparr>"
    using newEndpointRecord_verifies_at [OF demo_lib_ok(2,3) order_refl t r] by (simp add: second_def)
  have "no_newline (rfc3339_format demo_lib t)" for t
    using Encode_hex_digits [of "CHR 0x0A"] by (auto simp: demo_lib_def hex_val_def)
  moreover have "no_newline demo_addr" by (simp add: demo_addr_def)
  ultimately show ?thesis
    using signingPayload_binds [OF r _ _ v refl] newEndpointRecord_fields(10) [OF r] r v by simp
qed

text \<open>
  The condition on the address matters. \<^verbatim>\<open>VerifyEndpoint\<close> does not refuse a newline in the port of the address, and
  base64 decoding skips newlines, so a newline can move from the key to the address with the signed bytes unchanged.
\<close>

lemma newline_moves:
  fixes r :: EndpointRecord and a k :: string
  defines "r1 \<equiv> r\<lparr>er_Address := a, er_PublicKey := CHR 0x0A # k\<rparr>"
    and "r2 \<equiv> r\<lparr>er_Address := a @ [CHR 0x0A], er_PublicKey := k\<rparr>"
  assumes "VerifyEndpoint G r1 t = Inr v" "ValidateIPv6Address G (a @ [CHR 0x0A]) = Inr ()"
  shows "signingPayload r1 = signingPayload r2 \<and> VerifyEndpoint G r2 t = Inr (v\<lparr>vr_record := r2\<rparr>)"
proof -
  have p: "signingPayload r1 = signingPayload r2"
    by (simp add: r1_def r2_def signingPayload_def lines_def)
  have "b64_decode StdEncoding (CHR 0x0A # k) = b64_decode StdEncoding k" by (simp add: b64_decode_def)
  then show ?thesis using assms(3,4) p [symmetric] by (auto simp: VerifyEndpoint_iff r1_def r2_def)
qed

lemma newline_in_port: "ValidateIPv6Address demo_lib (demo_addr @ [CHR 0x0A]) = Inr ()"
  by code_simp

text \<open>
  \<^verbatim>\<open>EndpointRecordNewer\<close> is a strict order (irreflexive and transitive, so two records never
  override each other in turn), and of two version-2 records with different sequences one is newer.
\<close>

theorem EndpointRecordNewer_order:
  "\<not> EndpointRecordNewer G a a \<and>
   (EndpointRecordNewer G a b \<longrightarrow> EndpointRecordNewer G b c \<longrightarrow> EndpointRecordNewer G a c) \<and>
   (er_Version a = 2 \<longrightarrow> er_Version b = 2 \<longrightarrow> er_Sequence a \<noteq> er_Sequence b \<longrightarrow>
      EndpointRecordNewer G a b \<or> EndpointRecordNewer G b a)"
proof (intro conjI impI)
  assume "EndpointRecordNewer G a b" "EndpointRecordNewer G b c"
  then show "EndpointRecordNewer G a c"
    unfolding EndpointRecordNewer_def
    by (cases "er_Version a = er_Version b"; cases "er_Version b = er_Version c")
      (auto split: if_splits option.splits)
qed (auto simp: EndpointRecordNewer_def split: option.splits)

text \<open>
  The version of a legacy record is not among the signed fields: versions 0 and 1 verify with the
  same signature, but a record of version 1 counts as newer than one of version 0 whatever their
  issue times, so rewriting the version byte of the current record makes an older one override it.
\<close>

lemma legacy_version_unsigned:
  assumes "VerifyEndpoint G r t = Inr v" "er_Version r = 1"
  shows "is_ok (VerifyEndpoint G (r\<lparr>er_Version := 0\<rparr>) t)"
    "er_Version old = 1 \<Longrightarrow> EndpointRecordNewer G old (r\<lparr>er_Version := 0\<rparr>)"
proof -
  have "signingPayload (r\<lparr>er_Version := 0\<rparr>) = signingPayload r"
    using assms(2) by (simp add: signingPayload_def word_le_nat_alt)
  then have "VerifyEndpoint G (r\<lparr>er_Version := 0\<rparr>) t = Inr (v\<lparr>vr_record := r\<lparr>er_Version := 0\<rparr>\<rparr>)"
    using assms by (auto simp: VerifyEndpoint_iff)
  then show "is_ok (VerifyEndpoint G (r\<lparr>er_Version := 0\<rparr>) t)" by simp
  show "er_Version old = 1 \<Longrightarrow> EndpointRecordNewer G old (r\<lparr>er_Version := 0\<rparr>)"
    by (simp add: EndpointRecordNewer_def)
qed

end
