(* ===== verification/Service.thy ===== *)
theory Service
  imports Records
begin

text \<open>
  \<^verbatim>\<open>internal/record/service.go\<close>: signed service records, their lookup keys and the names they use.
\<close>

section \<open>Service records\<close>

record ServiceRecord =
  sv_NodeID :: string
  sv_NodeName :: string
  sv_ServiceName :: string
  sv_Alias :: string
  sv_Address :: string
  sv_IsHidden :: bool
  sv_IsPrivate :: bool
  sv_HiddenProfile :: string
  sv_IntroPoints :: "string list"
  sv_StandbyIntroPoints :: "string list"
  sv_PublicKey :: string
  sv_IssuedAt :: string
  sv_ExpiresAt :: string
  sv_Signature :: string

definition ValidateServiceName :: "string \<Rightarrow> record_error + unit" where
  "ValidateServiceName name =
     (if name = [] then Inl ServiceNameEmpty
      else if ContainsChar name (CHR ''.'') then Inl (ServiceNameDots name)
      else Inr ())"

definition ValidateHiddenAlias :: "string \<Rightarrow> record_error + unit" where
  "ValidateHiddenAlias alias =
     (if alias = [] then Inl AliasEmpty
      else if ContainsAny alias [CHR '' '', CHR 0x09, CHR 0x0D, CHR 0x0A, CHR ''/'', CHR ''#''] then Inl (AliasChars alias)
      else Inr ())"

definition NormalizeHiddenProfile :: "golib \<Rightarrow> string \<Rightarrow> string" where
  "NormalizeHiddenProfile G profile =
     (let p = ToLower G (TrimSpace G profile) in
      if p = [] \<or> p = ''fast'' then ''fast''
      else if p = ''balanced'' then ''balanced''
      else [])"

definition sv_fields :: "ServiceRecord \<Rightarrow> string list" where
  "sv_fields rec =
     [sv_NodeID rec, sv_NodeName rec, sv_ServiceName rec, sv_Alias rec, sv_Address rec,
      if sv_IsHidden rec then ''true'' else ''false'',
      if sv_IsPrivate rec then ''true'' else ''false'',
      sv_HiddenProfile rec, Join (sv_IntroPoints rec) '','', Join (sv_StandbyIntroPoints rec) '','',
      sv_PublicKey rec, sv_IssuedAt rec, sv_ExpiresAt rec]"

definition serviceSigningPayload :: "ServiceRecord \<Rightarrow> bytes" where
  "serviceSigningPayload rec = bytes_of (lines (sv_fields rec))"

definition SignServiceRecord :: "golib \<Rightarrow> Identity \<Rightarrow> ServiceRecord \<Rightarrow> ServiceRecord" where
  "SignServiceRecord G i rec =
     rec\<lparr>sv_Signature := b64_encode StdEncoding (ed25519_sign G (id_PrivateKey i) (serviceSigningPayload rec))\<rparr>"

definition NewServiceRecord ::
  "golib \<Rightarrow> Identity \<Rightarrow> string \<Rightarrow> string \<Rightarrow> string \<Rightarrow> duration \<Rightarrow> time \<Rightarrow> record_error + ServiceRecord" where
  "NewServiceRecord G i nodeName serviceName address ttl now =
     (case NormalizeNodeName G nodeName of Inl e \<Rightarrow> Inl e | Inr canonicalName \<Rightarrow>
      (case ValidateServiceName serviceName of Inl e \<Rightarrow> Inl e | Inr _ \<Rightarrow>
       (case (if address \<noteq> [] then ValidateIPv6Address G address else Inr ()) of Inl e \<Rightarrow> Inl e | Inr _ \<Rightarrow>
        if ttl \<le> 0 then Inl TtlNotPositive
        else (case Identity_Validate G i of Inl e \<Rightarrow> Inl e | Inr _ \<Rightarrow>
          let rec = \<lparr>sv_NodeID = id_NodeID i, sv_NodeName = canonicalName, sv_ServiceName = serviceName,
                sv_Alias = [], sv_Address = address, sv_IsHidden = False, sv_IsPrivate = False,
                sv_HiddenProfile = [], sv_IntroPoints = [], sv_StandbyIntroPoints = [],
                sv_PublicKey = b64_encode StdEncoding (id_PublicKey i),
                sv_IssuedAt = rfc3339_format G now, sv_ExpiresAt = rfc3339_format G (now + ttl),
                sv_Signature = []\<rparr>
          in Inr (rec\<lparr>sv_Signature := b64_encode StdEncoding
                    (ed25519_sign G (id_PrivateKey i) (serviceSigningPayload rec))\<rparr>)))))"

text \<open>The checks of \<^verbatim>\<open>VerifyServiceRecord\<close> before the key material, in the order of the source.\<close>

definition verify_service_shape :: "golib \<Rightarrow> ServiceRecord \<Rightarrow> record_error + unit" where
  "verify_service_shape G rec =
     (if sv_NodeID rec = [] \<or> sv_NodeName rec = [] \<or> sv_ServiceName rec = [] then Inl MissingFields
      else case ValidateCanonicalNodeName G (sv_NodeName rec) of Inl e \<Rightarrow> Inl e | Inr _ \<Rightarrow>
      (case (if sv_Alias rec \<noteq> [] then ValidateHiddenAlias (sv_Alias rec) else Inr ()) of Inl e \<Rightarrow> Inl e | Inr _ \<Rightarrow>
       if \<not> sv_IsHidden rec \<and> sv_Address rec = [] then Inl AddressRequired
       else (case (if \<not> sv_IsHidden rec then ValidateIPv6Address G (sv_Address rec) else Inr ()) of Inl e \<Rightarrow> Inl e | Inr _ \<Rightarrow>
        if sv_IsHidden rec \<and> sv_IsPrivate rec then Inl HiddenAndPrivate
        else if sv_IsHidden rec \<and> sv_Alias rec = [] then Inl AliasRequired
        else if sv_IsHidden rec \<and> NormalizeHiddenProfile G (sv_HiddenProfile rec) = [] then
          Inl (InvalidProfile (sv_HiddenProfile rec))
        else Inr ())))"

definition VerifyServiceRecord :: "golib \<Rightarrow> ServiceRecord \<Rightarrow> time \<Rightarrow> record_error + unit" where
  "VerifyServiceRecord G rec now =
     (case verify_service_shape G rec of Inl e \<Rightarrow> Inl e | Inr _ \<Rightarrow>
      (case b64_decode StdEncoding (sv_PublicKey rec) of None \<Rightarrow> Inl DecodePublicKey | Some publicKey \<Rightarrow>
      (case b64_decode StdEncoding (sv_Signature rec) of None \<Rightarrow> Inl DecodeSignature | Some signature \<Rightarrow>
       if length publicKey \<noteq> 32 then Inl InvalidPublicKey
       else if length signature \<noteq> 64 then Inl InvalidSignature
       else (case rfc3339_parse G (sv_IssuedAt rec) of None \<Rightarrow> Inl ParseIssuedAt | Some issuedAt \<Rightarrow>
        (case rfc3339_parse G (sv_ExpiresAt rec) of None \<Rightarrow> Inl ParseExpiresAt | Some expiresAt \<Rightarrow>
         if \<not> expiresAt > issuedAt then Inl ExpiryNotAfterIssue
         else if now > expiresAt then Inl Expired
         else if NodeIDFromPublicKey G publicKey \<noteq> sv_NodeID rec then Inl NodeIDMismatch
         else if \<not> ed25519_verify G publicKey (serviceSigningPayload rec) signature then Inl SignatureFailed
         else Inr ())))))"

definition FullServiceName :: "golib \<Rightarrow> string \<Rightarrow> string \<Rightarrow> string" where
  "FullServiceName G nodeName serviceName =
     (case NormalizeNodeName G nodeName of Inr canonical \<Rightarrow> canonical | Inl _ \<Rightarrow> nodeName) @ ''.'' @ serviceName"

definition CanonicalServiceLookupKey :: "golib \<Rightarrow> string \<Rightarrow> string" where
  "CanonicalServiceLookupKey G key = (case Cut key (CHR ''.'') of
     None \<Rightarrow> key
   | Some (nodeName, serviceName) \<Rightarrow>
       (case NormalizeNodeName G nodeName of Inr canonical \<Rightarrow> canonical @ ''.'' @ serviceName | Inl _ \<Rightarrow> key))"

definition ServiceLookupKey :: "golib \<Rightarrow> ServiceRecord \<Rightarrow> string" where
  "ServiceLookupKey G rec =
     (if sv_IsHidden rec \<and> sv_Alias rec \<noteq> [] then sv_Alias rec
      else FullServiceName G (sv_NodeName rec) (sv_ServiceName rec))"

section \<open>Properties of service records\<close>

lemma serviceSigningPayload_signature [simp]:
  "serviceSigningPayload (rec\<lparr>sv_Signature := x\<rparr>) = serviceSigningPayload rec"
  by (simp add: serviceSigningPayload_def sv_fields_def)

lemma verify_service_shape_signature [simp]:
  "verify_service_shape G (rec\<lparr>sv_Signature := x\<rparr>) = verify_service_shape G rec"
  by (cases rec) (hypsubst, unfold verify_service_shape_def ServiceRecord.simps, rule refl)

lemma VerifyServiceRecord_iff:
  "VerifyServiceRecord G rec now = Inr () \<longleftrightarrow>
     verify_service_shape G rec = Inr () \<and>
     (\<exists>publicKey signature issuedAt expiresAt.
        b64_decode StdEncoding (sv_PublicKey rec) = Some publicKey \<and> length publicKey = 32 \<and>
        b64_decode StdEncoding (sv_Signature rec) = Some signature \<and> length signature = 64 \<and>
        rfc3339_parse G (sv_IssuedAt rec) = Some issuedAt \<and> rfc3339_parse G (sv_ExpiresAt rec) = Some expiresAt \<and>
        issuedAt < expiresAt \<and> now \<le> expiresAt \<and> NodeIDFromPublicKey G publicKey = sv_NodeID rec \<and>
        ed25519_verify G publicKey (serviceSigningPayload rec) signature)"
  unfolding VerifyServiceRecord_def
  by (cases "verify_service_shape G rec"; cases "b64_decode StdEncoding (sv_PublicKey rec)";
      cases "b64_decode StdEncoding (sv_Signature rec)"; cases "rfc3339_parse G (sv_IssuedAt rec)";
      cases "rfc3339_parse G (sv_ExpiresAt rec)") auto

lemma signed_service_verifies:
  assumes "ed25519_ok G" "Identity_Validate G i = Inr ()"
    and "verify_service_shape G rec = Inr ()"
    and "sv_NodeID rec = id_NodeID i" "sv_PublicKey rec = b64_encode StdEncoding (id_PublicKey i)"
    and "rfc3339_parse G (sv_IssuedAt rec) = Some issuedAt" "rfc3339_parse G (sv_ExpiresAt rec) = Some expiresAt"
    and "issuedAt < expiresAt" "now \<le> expiresAt"
  shows "VerifyServiceRecord G (SignServiceRecord G i rec) now = Inr ()"
proof -
  let ?sig = "ed25519_sign G (id_PrivateKey i) (serviceSigningPayload rec)"
  have "length (id_PublicKey i) = 32" "length ?sig = 64" "ed25519_verify G (id_PublicKey i) (serviceSigningPayload rec) ?sig"
    "NodeIDFromPublicKey G (id_PublicKey i) = sv_NodeID rec"
    using assms(1,2,4) by (auto simp: Identity_Validate_iff ed25519_ok_def)
  then show ?thesis
    using assms by (simp add: VerifyServiceRecord_iff SignServiceRecord_def)
qed

text \<open>
  Signing makes a record valid. A service record that passes the shape checks, carries the
  identity's node ID and key and current times, verifies after \<^verbatim>\<open>SignServiceRecord\<close>, whatever
  signature it had before; this covers records changed after \<^verbatim>\<open>NewServiceRecord\<close> (alias, hidden
  and private flags, introduction points) and signed again.
\<close>

theorem SignServiceRecord_verifies:
  assumes "ed25519_ok G" "Identity_Validate G i = Inr ()"
    and "verify_service_shape G rec = Inr ()"
    and "sv_NodeID rec = id_NodeID i" "sv_PublicKey rec = b64_encode StdEncoding (id_PublicKey i)"
    and "rfc3339_parse G (sv_IssuedAt rec) = Some issuedAt" "rfc3339_parse G (sv_ExpiresAt rec) = Some expiresAt"
    and "issuedAt < expiresAt" "now \<le> expiresAt"
  shows "VerifyServiceRecord G (SignServiceRecord G i rec) now = Inr ()"
  by (rule signed_service_verifies [OF assms])

definition demo_service :: ServiceRecord where
  "demo_service = \<lparr>sv_NodeID = id_NodeID demo_identity, sv_NodeName = ''NODE-1'', sv_ServiceName = ''web'',
     sv_Alias = ''shop'', sv_Address = [], sv_IsHidden = True, sv_IsPrivate = False,
     sv_HiddenProfile = ''Fast'', sv_IntroPoints = [''a'', ''b''], sv_StandbyIntroPoints = [],
     sv_PublicKey = b64_encode StdEncoding (id_PublicKey demo_identity),
     sv_IssuedAt = rfc3339_format demo_lib 0, sv_ExpiresAt = rfc3339_format demo_lib (60 * second), sv_Signature = []\<rparr>"

lemma demo_service_shape: "verify_service_shape demo_lib demo_service = Inr ()"
proof -
  have "ValidateCanonicalNodeName demo_lib ''NODE-1'' = Inr ()" "ValidateHiddenAlias ''shop'' = Inr ()"
    "NormalizeHiddenProfile demo_lib ''Fast'' = ''fast''"
    by code_simp+
  then show ?thesis
    by (simp add: verify_service_shape_def demo_service_def demo_identity_def Generate_def NodeIDFromPublicKey_def)
qed

lemma demo_service_times:
  "rfc3339_parse demo_lib (sv_IssuedAt demo_service) = Some 0"
  "rfc3339_parse demo_lib (sv_ExpiresAt demo_service) = Some (60 * second)"
  using demo_lib_ok(3) by (simp_all add: rfc3339_ok_def demo_service_def second_def rfc3339_end_def)

lemma Split_Join:
  "xs \<noteq> [] \<Longrightarrow> \<forall>x \<in> set xs. c \<notin> set x \<Longrightarrow> Split (Join xs [c]) c = xs"
proof (induction xs "[c]" rule: Join.induct)
  case (3 s t ss)
  then show ?case by (simp add: Split_append)
qed (simp_all add: Split_no_sep)

lemma Join_inj:
  assumes "Join xs [c] = Join ys [c]" "\<forall>x \<in> set xs \<union> set ys. x \<noteq> [] \<and> c \<notin> set x"
  shows "xs = ys"
proof -
  have z: "Join zs [c] = [] \<longleftrightarrow> zs = []" if "\<forall>x \<in> set zs. x \<noteq> []" for zs
    using that by (cases "(zs, [c])" rule: Join.cases) auto
  show ?thesis
  proof (cases "xs = [] \<or> ys = []")
    case True
    then show ?thesis using assms z [of xs] z [of ys] by auto
  next
    case False
    then have "Split (Join xs [c]) c = xs" "Split (Join ys [c]) c = ys"
      using assms(2) by (auto intro!: Split_Join)
    then show ?thesis using assms(1) by metis
  qed
qed

text \<open>
  What a service signature covers. Two records with the same signed bytes, one of them free of
  newlines in its fields, agree in every signed field; if moreover no introduction point of either
  is empty or contains a comma, they agree in the introduction points too, so the records differ at
  most in the signature.
\<close>

theorem serviceSigningPayload_binds:
  assumes "serviceSigningPayload rec = serviceSigningPayload rec'" "\<forall>f \<in> set (sv_fields rec). no_newline f"
    and "\<forall>x \<in> set (sv_IntroPoints rec @ sv_IntroPoints rec' @ sv_StandbyIntroPoints rec @ sv_StandbyIntroPoints rec').
           x \<noteq> [] \<and> CHR '','' \<notin> set x"
  shows "rec' = rec\<lparr>sv_Signature := sv_Signature rec'\<rparr>"
proof -
  have "lines (sv_fields rec) = lines (sv_fields rec')"
    using assms(1) by (simp add: serviceSigningPayload_def bytes_of_inj)
  then have f: "sv_fields rec = sv_fields rec'"
    using assms(2) by (intro lines_inj) (auto simp: sv_fields_def)
  then have "Join (sv_IntroPoints rec) [CHR '',''] = Join (sv_IntroPoints rec') [CHR '','']"
    "Join (sv_StandbyIntroPoints rec) [CHR '',''] = Join (sv_StandbyIntroPoints rec') [CHR '','']"
    by (simp_all add: sv_fields_def)
  then have "sv_IntroPoints rec = sv_IntroPoints rec'" "sv_StandbyIntroPoints rec = sv_StandbyIntroPoints rec'"
    using assms(3) by (auto intro!: Join_inj)
  with f show ?thesis
    by (cases rec; cases rec') (auto simp: sv_fields_def split: if_splits)
qed

text \<open>
  Without the condition on commas the introduction points are not fixed: joining two of them into
  one string leaves the signed bytes, and so the verdict of \<^verbatim>\<open>VerifyServiceRecord\<close>, unchanged.
\<close>

lemma intro_points_merge:
  assumes "sv_IntroPoints rec = [a, b]"
  shows "VerifyServiceRecord G (rec\<lparr>sv_IntroPoints := [a @ '','' @ b]\<rparr>) now = Inr () \<longleftrightarrow> VerifyServiceRecord G rec now = Inr ()"
proof -
  have "serviceSigningPayload (rec\<lparr>sv_IntroPoints := [a @ '','' @ b]\<rparr>) = serviceSigningPayload rec"
    using assms by (simp add: serviceSigningPayload_def sv_fields_def)
  moreover have "verify_service_shape G (rec\<lparr>sv_IntroPoints := x\<rparr>) = verify_service_shape G rec" for x
    by (cases rec) (hypsubst, unfold verify_service_shape_def ServiceRecord.simps, rule refl)
  ultimately show ?thesis by (simp add: VerifyServiceRecord_iff)
qed

text \<open>
  Lookup keys are canonical. The key of a plain service does not depend on how its node name
  is written, canonicalising a key is idempotent, and the key a record is stored under is the key a
  lookup of \<^verbatim>\<open>node.service\<close> arrives at.
\<close>

theorem CanonicalServiceLookupKey_canonical:
  "CanonicalServiceLookupKey G (CanonicalServiceLookupKey G key) = CanonicalServiceLookupKey G key \<and>
   (NormalizeNodeName G node = Inr n \<longrightarrow> CHR ''.'' \<notin> set node \<longrightarrow>
      CanonicalServiceLookupKey G (node @ ''.'' @ svc) = FullServiceName G node svc \<and>
      FullServiceName G n svc = FullServiceName G node svc)"
proof -
  have dot: "CHR ''.'' \<notin> set m" if "NormalizeNodeName G k = Inr m" for k m
    using that validateCanonical_chars [of m]
    by (auto simp: NormalizeNodeName_def Let_def list_all_iff name_char_def split: sum.splits)
  have can: "CanonicalServiceLookupKey G (k @ CHR ''.'' # s) =
      (case NormalizeNodeName G k of Inr m \<Rightarrow> m @ ''.'' @ s | Inl _ \<Rightarrow> k @ CHR ''.'' # s)" if "CHR ''.'' \<notin> set k" for k s
    using that by (simp add: CanonicalServiceLookupKey_def Cut_append)
  have "CanonicalServiceLookupKey G (CanonicalServiceLookupKey G key) = CanonicalServiceLookupKey G key"
  proof (cases "Cut key (CHR ''.'')")
    case None
    then show ?thesis by (simp add: CanonicalServiceLookupKey_def)
  next
    case (Some p)
    then obtain k s where k: "key = k @ CHR ''.'' # s" "CHR ''.'' \<notin> set k" by (cases p) (auto dest: Cut_Some)
    then show ?thesis
      by (cases "NormalizeNodeName G k") (auto simp: can dot NormalizeNodeName_canonical(2))
  qed
  then show ?thesis
    using can NormalizeNodeName_canonical(2) by (auto simp: FullServiceName_def)
qed

end
