(* ===== verification/Circuit.thy ===== *)
theory Circuit
  imports Cell Service
begin

text \<open>
  \<^verbatim>\<open>internal/onion/onion.go\<close> and \<^verbatim>\<open>internal/onion/circuit.go\<close>: planning a circuit, the client end
  (layered sealing, reading responses, writing a stream) and the relay end (serving cells,
  extending, connecting to the target, passing data back).

  A connection is a number. What a relay does is a list of \<open>relay_io\<close> actions, its new state and
  the error its handler returns. The results of dialling, the bytes a freshly dialled relay
  answers with, and the JSON text of the commands are the fields of \<open>relay_env\<close>. Writes to
  connections succeed. One call of a handler is one step; the goroutines of a circuit interleave
  at this granularity.
\<close>

section \<open>Commands and plans\<close>

record extendCommand =
  NextHop :: string
  ExpectedNodeID :: string
  ClientPublicKey :: string

record beginCommand =
  bc_TargetAddr :: string

record clientHop =
  hop_relay :: EndpointRecord
  hop_keys :: circuitKeyState

record clientCircuitConn =
  cc_circuitID :: bytes
  cc_hops :: "clientHop list"
  cc_readBuf :: bytes

record CircuitPlan =
  cp_CircuitID :: string
  cp_Relays :: "EndpointRecord list"
  cp_TargetAddr :: string
  cp_Purpose :: string

record InspectEvent =
  ie_NodeID :: string
  ie_CircuitID :: string
  ie_Command :: string
  ie_NextHop :: string
  ie_TargetAddr :: string
  ie_Bytes :: nat

definition commandName :: "byte \<Rightarrow> string" where
  "commandName cmd =
     (if cmd = relayCmdExtend then ''extend''
      else if cmd = relayCmdExtended then ''extended''
      else if cmd = relayCmdBegin then ''begin''
      else if cmd = relayCmdConnected then ''connected''
      else if cmd = relayCmdData then ''data''
      else if cmd = relayCmdEnd then ''end''
      else if cmd = relayCmdError then ''error''
      else ''unknown-'' @ Itoa (unat cmd))"

definition RelayAddrs :: "CircuitPlan \<Rightarrow> string list" where
  "RelayAddrs p = map er_Address (cp_Relays p)"

text \<open>The loop of \<^verbatim>\<open>PlanAutomatedCircuit\<close> over the peers, with the set of addresses seen.\<close>

fun usable_peers :: "string set \<Rightarrow> EndpointRecord list \<Rightarrow> EndpointRecord list" where
  "usable_peers seen [] = []"
| "usable_peers seen (peer # ps) =
     (if er_Address peer = [] then usable_peers seen ps
      else if er_Address peer \<in> seen then usable_peers seen ps
      else peer # usable_peers (insert (er_Address peer) seen) ps)"

text \<open>
  \<^verbatim>\<open>pick\<close> is the result of \<^verbatim>\<open>rng.Intn\<close>, \<^verbatim>\<open>shuffle\<close> the effect of \<^verbatim>\<open>rng.Shuffle\<close>, \<^verbatim>\<open>rnd\<close> the random
  bytes of the circuit ID.
\<close>

definition plan_target :: "nat \<Rightarrow> ServiceRecord \<Rightarrow> string" where
  "plan_target pick svc =
     (if sv_IsHidden svc \<and> length (sv_IntroPoints svc) > 0 then sv_IntroPoints svc ! pick else sv_Address svc)"

definition PlanAutomatedCircuit ::
  "nat \<Rightarrow> (EndpointRecord list \<Rightarrow> EndpointRecord list) \<Rightarrow> bytes \<Rightarrow>
   ServiceRecord \<Rightarrow> EndpointRecord list \<Rightarrow> int \<Rightarrow> string list \<Rightarrow> onion_error + CircuitPlan" where
  "PlanAutomatedCircuit pick shuffle rnd finalTarget allPeers hopCount excludeAddrs =
     (if hopCount \<le> 0 then Inl HopCountNotPositive
      else
        let targetAddr = plan_target pick finalTarget
        in if targetAddr = [] then Inl NoReachableAddress
           else
             let seen = insert targetAddr (set (filter (\<lambda>a. a \<noteq> []) excludeAddrs));
                 filtered = usable_peers seen allPeers
             in if int (length filtered) < hopCount then Inl (NotEnoughPeers (nat hopCount) (length filtered))
                else Inr \<lparr>cp_CircuitID = snd (randomCircuitID rnd),
                          cp_Relays = take (nat hopCount) (shuffle filtered),
                          cp_TargetAddr = targetAddr, cp_Purpose = ''relay''\<rparr>)"

section \<open>The client end\<close>

text \<open>The loop of \<^verbatim>\<open>sendRelayCommand\<close>: the last hop's layer is sealed first.\<close>

fun seal_layers :: "cryptolib \<Rightarrow> clientHop list \<Rightarrow> bytes \<Rightarrow> bytes \<times> clientHop list" where
  "seal_layers C [] payload = (payload, [])"
| "seal_layers C (h # hs) payload =
     (let (p1, hs1) = seal_layers C hs payload;
          (p2, k) = sealForward C (hop_keys h) p1
      in (p2, h\<lparr>hop_keys := k\<rparr> # hs1))"

definition sendRelayCommand ::
  "cryptolib \<Rightarrow> bytes \<Rightarrow> clientHop list \<Rightarrow> byte \<Rightarrow> bytes \<Rightarrow> (onion_error + bytes) \<times> clientHop list" where
  "sendRelayCommand C circuitID hops command body = (case encodeRelayEnvelope command body of
     Inl e \<Rightarrow> (Inl e, hops)
   | Inr payload \<Rightarrow>
       let (sealed, hops') = seal_layers C hops payload
       in (writeCell \<lparr>cl_Type = cellTypeRelay, cl_CircuitID = circuitID, cl_Payload = sealed\<rparr>, hops'))"

text \<open>Unwrapping a response: the layers are opened from the first hop on; a failure stops the loop.\<close>

fun open_layers :: "cryptolib \<Rightarrow> clientHop list \<Rightarrow> bytes \<Rightarrow> (onion_error + bytes) \<times> clientHop list" where
  "open_layers C [] payload = (Inr payload, [])"
| "open_layers C (h # hs) payload = (case openBackward C (hop_keys h) payload of
     Inl e \<Rightarrow> (Inl e, h # hs)
   | Inr (plain, k) \<Rightarrow>
       let (r, hs') = open_layers C hs plain in (r, h\<lparr>hop_keys := k\<rparr> # hs'))"

definition unwrap :: "cryptolib \<Rightarrow> clientHop list \<Rightarrow> bytes \<Rightarrow> (onion_error + byte \<times> bytes) \<times> clientHop list" where
  "unwrap C hops payload = (case open_layers C hops payload of
     (Inl e, hops') \<Rightarrow> (Inl e, hops')
   | (Inr plain, hops') \<Rightarrow>
       ((case decodeRelayEnvelope plain of
           Inl e \<Rightarrow> Inl e
         | Inr None \<Rightarrow> Inl OpaqueAfterUnwrap
         | Inr (Some (cmd, body)) \<Rightarrow> Inr (cmd, body)), hops'))"

definition readRelayResponse ::
  "cryptolib \<Rightarrow> bytes \<Rightarrow> clientHop list \<Rightarrow> bytes \<Rightarrow> (onion_error + byte \<times> bytes \<times> bytes) \<times> clientHop list" where
  "readRelayResponse C circuitID hops r = (case readCell r of
     Inl e \<Rightarrow> (Inl e, hops)
   | Inr (resp, r') \<Rightarrow>
       if cl_CircuitID resp \<noteq> circuitID then (Inl UnexpectedCircuitID, hops)
       else if cl_Type resp = cellTypeRelay then
         (case unwrap C hops (cl_Payload resp) of
            (Inl e, hops') \<Rightarrow> (Inl e, hops')
          | (Inr (cmd, body), hops') \<Rightarrow> (Inr (cmd, body, r'), hops'))
       else if cl_Type resp = cellTypeDestroy then (Inl CircuitEOF, hops)
       else (Inl (UnexpectedCellType (cl_Type resp)), hops))"

definition deriveClientHopKeys ::
  "golib \<Rightarrow> cryptolib \<Rightarrow> bytes \<Rightarrow> bytes \<Rightarrow> EndpointRecord \<Rightarrow> bytes \<Rightarrow> bytes \<Rightarrow> onion_error + circuitKeyState" where
  "deriveClientHopKeys G C priv payload relay circuitID clientPub =
     (case verifyCreatedPayload G payload (er_PublicKey relay) circuitID clientPub of Inl e \<Rightarrow> Inl e | Inr serverPub \<Rightarrow>
      (case NewPublicKey serverPub of None \<Rightarrow> Inl ParseKey | Some serverKey \<Rightarrow>
       (case x25519_ecdh C priv serverKey of None \<Rightarrow> Inl SharedKey | Some shared \<Rightarrow>
         deriveCircuitKeys C shared circuitID)))"

text \<open>\<^verbatim>\<open>clientCircuitConn.Write\<close>: the cells written, the bytes counted and the error that stopped it.\<close>

function client_Write ::
  "cryptolib \<Rightarrow> clientCircuitConn \<Rightarrow> bytes \<Rightarrow> bytes list \<times> nat \<times> onion_error option \<times> clientCircuitConn" where
  "client_Write C c p =
     (if p = [] then ([], 0, None, c)
      else
        let n = min (length p) maxRelayDataPayload in
        (case sendRelayCommand C (cc_circuitID c) (cc_hops c) relayCmdData (take n p) of
           (Inl e, hops') \<Rightarrow> ([], 0, Some e, c\<lparr>cc_hops := hops'\<rparr>)
         | (Inr raw, hops') \<Rightarrow>
             let (raws, total, err, c') = client_Write C (c\<lparr>cc_hops := hops'\<rparr>) (drop n p)
             in (raw # raws, n + total, err, c')))"
  by pat_completeness auto
termination
  by (relation "measure (\<lambda>(C, c, p). length p)") auto

declare client_Write.simps [simp del]

text \<open>\<^verbatim>\<open>Close\<close>: the bytes written before the connection is closed.\<close>

definition client_Close :: "cryptolib \<Rightarrow> clientCircuitConn \<Rightarrow> bytes \<times> clientCircuitConn" where
  "client_Close C c =
     (let (r, hops') = sendRelayCommand C (cc_circuitID c) (cc_hops c) relayCmdEnd [];
          d = writeCell \<lparr>cl_Type = cellTypeDestroy, cl_CircuitID = cc_circuitID c, cl_Payload = []\<rparr>
      in (case_sum (\<lambda>_. []) id r @ case_sum (\<lambda>_. []) id d, c\<lparr>cc_hops := hops'\<rparr>))"

text \<open>One iteration of \<^verbatim>\<open>readPump\<close>: a chunk for \<^verbatim>\<open>readCh\<close>, the error for \<^verbatim>\<open>errCh\<close>, or nothing.\<close>

datatype pump_result = Chunk bytes | PumpError onion_error | Ignored

definition readPump_step ::
  "(bytes \<Rightarrow> onion_error) \<Rightarrow> cryptolib \<Rightarrow> clientCircuitConn \<Rightarrow> onion_error + cell \<Rightarrow> pump_result \<times> clientCircuitConn" where
  "readPump_step relay_error C c input = (case input of
     Inl e \<Rightarrow> (PumpError e, c)
   | Inr cl \<Rightarrow>
       if cl_Type cl = cellTypeRelay then
         (case unwrap C (cc_hops c) (cl_Payload cl) of
            (Inl e, hops') \<Rightarrow> (PumpError e, c\<lparr>cc_hops := hops'\<rparr>)
          | (Inr (cmd, body), hops') \<Rightarrow>
              (if cmd = relayCmdData then Chunk body
               else if cmd = relayCmdEnd then PumpError CircuitEOF
               else if cmd = relayCmdError then PumpError (relay_error body)
               else Ignored, c\<lparr>cc_hops := hops'\<rparr>))
       else if cl_Type cl = cellTypeDestroy then (PumpError CircuitEOF, c)
       else (PumpError (UnexpectedCellType (cl_Type cl)), c))"

section \<open>Properties of circuit plans\<close>

lemma usable_peers_props:
  "set (usable_peers seen ps) \<subseteq> set ps"
  "peer \<in> set (usable_peers seen ps) \<Longrightarrow> er_Address peer \<noteq> [] \<and> er_Address peer \<notin> seen"
  "distinct (map er_Address (usable_peers seen ps))"
proof -
  show "set (usable_peers seen ps) \<subseteq> set ps" by (induction ps arbitrary: seen) auto
  show *: "peer \<in> set (usable_peers seen ps) \<Longrightarrow> er_Address peer \<noteq> [] \<and> er_Address peer \<notin> seen" for peer seen ps
    by (induction ps arbitrary: seen) (auto split: if_splits)
  show "distinct (map er_Address (usable_peers seen ps))"
    by (induction ps arbitrary: seen) (auto dest: *)
qed

text \<open>No usable address is lost: every peer whose address is not excluded is represented.\<close>

lemma usable_peers_complete:
  "er_Address ` set (usable_peers seen ps) = er_Address ` set ps - seen - {[]}"
  by (induction ps arbitrary: seen) auto

lemma planned_path:
  assumes "\<And>xs. mset (shuffle xs) = mset xs"
  shows "(case PlanAutomatedCircuit pick shuffle rnd svc peers hopCount excluded of
     Inr plan \<Rightarrow> int (length (cp_Relays plan)) = hopCount \<and> set (cp_Relays plan) \<subseteq> set peers \<and>
       distinct (RelayAddrs plan) \<and> [] \<notin> set (RelayAddrs plan) \<and> cp_TargetAddr plan \<noteq> [] \<and>
       set (RelayAddrs plan) \<inter> insert (cp_TargetAddr plan) (set excluded) = {}
   | Inl e \<Rightarrow> hopCount \<le> 0 \<or> plan_target pick svc = [] \<or>
       int (card (er_Address ` set peers - insert (plan_target pick svc) (set excluded) - {[]})) < hopCount)"
proof -
  define target where "target = plan_target pick svc"
  define seen where "seen = insert target (set (filter (\<lambda>a. a \<noteq> []) excluded))"
  define filtered where "filtered = usable_peers seen peers"
  note u = usable_peers_props [where seen = seen and ps = peers, folded filtered_def]
  have P: "PlanAutomatedCircuit pick shuffle rnd svc peers hopCount excluded =
     (if hopCount \<le> 0 then Inl HopCountNotPositive
      else if target = [] then Inl NoReachableAddress
      else if int (length filtered) < hopCount then Inl (NotEnoughPeers (nat hopCount) (length filtered))
      else Inr \<lparr>cp_CircuitID = snd (randomCircuitID rnd), cp_Relays = take (nat hopCount) (shuffle filtered),
             cp_TargetAddr = target, cp_Purpose = ''relay''\<rparr>)"
    by (simp add: PlanAutomatedCircuit_def Let_def target_def seen_def filtered_def)
  have len: "length (shuffle filtered) = length filtered" by (metis assms size_mset)
  have st: "set (shuffle filtered) = set filtered" by (metis assms set_mset_mset)
  have "mset (map er_Address (shuffle filtered)) = mset (map er_Address filtered)" by (simp add: assms)
  then have di: "distinct (map er_Address (shuffle filtered))" using u(3) mset_eq_imp_distinct_iff by blast
  have sub: "set (take n (shuffle filtered)) \<subseteq> set filtered" for n using set_take_subset st by metis
  have "card (er_Address ` set filtered) = length filtered"
    using u(3) distinct_card [of "map er_Address filtered"] by simp
  moreover have "er_Address ` set filtered = er_Address ` set peers - insert target (set excluded) - {[]}"
    unfolding filtered_def usable_peers_complete by (auto simp: seen_def)
  ultimately have card: "card (er_Address ` set peers - insert target (set excluded) - {[]}) = length filtered" by simp
  show ?thesis
  proof (cases "hopCount \<le> 0 \<or> target = [] \<or> int (length filtered) < hopCount")
    case True
    then show ?thesis using card by (auto simp: P target_def)
  next
    case False
    let ?rs = "take (nat hopCount) (shuffle filtered)"
    have "distinct (map er_Address ?rs)" using di by (simp add: take_map [symmetric] distinct_take)
    moreover have "er_Address r \<noteq> [] \<and> er_Address r \<notin> insert target (set excluded)" if "r \<in> set ?rs" for r
      using u(2) [of r] sub that by (auto simp: seen_def)
    then have "[] \<notin> er_Address ` set ?rs" "er_Address ` set ?rs \<inter> insert target (set excluded) = {}" by fastforce+
    moreover have "set ?rs \<subseteq> set peers" using sub u(1) by blast
    moreover have "int (length ?rs) = hopCount" using False len by simp linarith
    ultimately show ?thesis using False by (simp add: P RelayAddrs_def)
  qed
qed

text \<open>
  C39: a planned circuit is a simple path that avoids its endpoints. A plan has exactly the requested
  number of relays, all of them known peers with pairwise different, non-empty addresses, none of
  which is the target's or an excluded one; and a plan is found whenever enough such addresses exist
  and the service is reachable.
\<close>

theorem PlanAutomatedCircuit_path:
  assumes "\<And>xs. mset (shuffle xs) = mset xs"
  shows "(case PlanAutomatedCircuit pick shuffle rnd svc peers hopCount excluded of
     Inr plan \<Rightarrow> int (length (cp_Relays plan)) = hopCount \<and> set (cp_Relays plan) \<subseteq> set peers \<and>
       distinct (RelayAddrs plan) \<and> [] \<notin> set (RelayAddrs plan) \<and> cp_TargetAddr plan \<noteq> [] \<and>
       set (RelayAddrs plan) \<inter> insert (cp_TargetAddr plan) (set excluded) = {}
   | Inl e \<Rightarrow> hopCount \<le> 0 \<or> plan_target pick svc = [] \<or>
       int (card (er_Address ` set peers - insert (plan_target pick svc) (set excluded) - {[]})) < hopCount)"
  by (rule planned_path [OF assms])

definition demo_endpoint :: "string \<Rightarrow> EndpointRecord" where
  "demo_endpoint addr = \<lparr>er_Version = 2, er_Sequence = 1, er_NodeID = id_NodeID demo_identity, er_NodeName = ''NODE-1'',
     er_Address = addr, er_PublicKey = b64_encode StdEncoding (id_PublicKey demo_identity),
     er_IssuedAt = [], er_ExpiresAt = [], er_Signature = []\<rparr>"

theorem PlanAutomatedCircuit_path_witness:
  "case PlanAutomatedCircuit 0 rev [1] demo_service [demo_endpoint ''a'', demo_endpoint ''x'', demo_endpoint ''y''] 2 [''z''] of
     Inr plan \<Rightarrow> int (length (cp_Relays plan)) = 2 \<and> distinct (RelayAddrs plan) \<and> cp_TargetAddr plan \<notin> set (RelayAddrs plan)
   | Inl e \<Rightarrow> False"
proof -
  let ?ps = "[demo_endpoint ''a'', demo_endpoint ''x'', demo_endpoint ''y'']"
  have "is_ok (PlanAutomatedCircuit 0 rev [1] demo_service ?ps 2 [''z''])"
    by (simp add: PlanAutomatedCircuit_def plan_target_def demo_service_def demo_endpoint_def Let_def)
  then show ?thesis
    using PlanAutomatedCircuit_path [where shuffle = rev and pick = 0 and rnd = "[1]" and svc = demo_service
        and peers = ?ps and hopCount = 2 and excluded = "[''z'']"] by (auto split: sum.splits)
qed

end
