(* ===== verification/Relay.thy ===== *)
theory Relay
  imports Circuit
begin

text \<open>
  \<^verbatim>\<open>internal/onion/circuit.go\<close>: the relay end of a circuit, and the client functions that build a
  circuit through it (\<^verbatim>\<open>establishFirstHop\<close>, \<^verbatim>\<open>extendCircuit\<close>, \<^verbatim>\<open>beginCircuit\<close> of \<^verbatim>\<open>onion.go\<close>).

  A definition is one uninterrupted run of a handler, or of one iteration of a loop. In the code the loop \<^verbatim>\<open>serve\<close>
  and the pumps are goroutines of one circuit, and \<^verbatim>\<open>sealBackward\<close> runs outside both mutexes: runs in which two of them
  seal at the same time, or write their cells in another order than they sealed them, are not covered.
\<close>

section \<open>The relay end\<close>

datatype relay_fault =
    FDecodeExtend | FDecodeBegin | FNoTarget | FUnsupported byte
  | FMissingNextHop | FClientKey | FClientKeySize | FAlreadyExtended | FDialRelay string
  | FForwardCreate | FReadCreated | FNotCreated byte
  | FMissingTarget | FHasTarget | FDialTarget string | FDownstream byte

record relay_env =
  json_extend :: "bytes \<Rightarrow> extendCommand option"   \<comment> \<open>\<^verbatim>\<open>json.Unmarshal\<close> of an \<^verbatim>\<open>extendCommand\<close>\<close>
  json_begin :: "bytes \<Rightarrow> beginCommand option"
  error_json :: "relay_fault \<Rightarrow> bytes"              \<comment> \<open>\<^verbatim>\<open>json.Marshal(errorCommand{...})\<close>\<close>
  dial_relay :: "string \<Rightarrow> string \<Rightarrow> (nat \<times> bytes) option"  \<comment> \<open>the connection and what it sends back\<close>
  dial_target :: "string \<Rightarrow> nat option"

datatype relay_io =
    WriteInbound bytes
  | WriteOutbound nat bytes
  | WriteTarget nat bytes
  | CloseConn nat
  | CloseInbound
  | Inspect InspectEvent

record relayCircuit =
  rc_nodeID :: string
  rc_circuitID :: bytes
  rc_label :: string
  rc_keys :: circuitKeyState
  rc_outbound :: "nat option"
  rc_targetConn :: "nat option"

type_synonym relay_result = "relay_io list \<times> relayCircuit \<times> onion_error option"

definition inspect :: "relayCircuit \<Rightarrow> byte \<Rightarrow> string \<Rightarrow> string \<Rightarrow> nat \<Rightarrow> relay_io" where
  "inspect c cmd nextHop targetAddr n = Inspect \<lparr>ie_NodeID = rc_nodeID c, ie_CircuitID = rc_label c,
     ie_Command = commandName cmd, ie_NextHop = nextHop, ie_TargetAddr = targetAddr, ie_Bytes = n\<rparr>"

definition writeInbound :: "cell \<Rightarrow> relay_io list \<times> onion_error option" where
  "writeInbound msg = (case writeCell msg of Inl e \<Rightarrow> ([], Some e) | Inr raw \<Rightarrow> ([WriteInbound raw], None))"

definition send_inbound :: "cryptolib \<Rightarrow> relayCircuit \<Rightarrow> bytes \<Rightarrow> relay_result" where
  "send_inbound C c payload =
     (let (sealed, k) = sealBackward C (rc_keys c) payload;
          (ios, e) = writeInbound \<lparr>cl_Type = cellTypeRelay, cl_CircuitID = rc_circuitID c, cl_Payload = sealed\<rparr>
      in (ios, c\<lparr>rc_keys := k\<rparr>, e))"

definition sendBackwardPlain :: "cryptolib \<Rightarrow> relayCircuit \<Rightarrow> byte \<Rightarrow> bytes \<Rightarrow> relay_result" where
  "sendBackwardPlain C c command body = (case encodeRelayEnvelope command body of
     Inl e \<Rightarrow> ([], c, Some e)
   | Inr payload \<Rightarrow> send_inbound C c payload)"

definition sendBackwardError :: "relay_env \<Rightarrow> cryptolib \<Rightarrow> relayCircuit \<Rightarrow> relay_fault \<Rightarrow> relay_result" where
  "sendBackwardError E C c fault = sendBackwardPlain C c relayCmdError (error_json E fault)"

definition closeTarget :: "relayCircuit \<Rightarrow> relay_io list \<times> relayCircuit" where
  "closeTarget c = (case rc_targetConn c of None \<Rightarrow> [] | Some t \<Rightarrow> [CloseConn t], c\<lparr>rc_targetConn := None\<rparr>)"

definition closeAll :: "relayCircuit \<Rightarrow> relay_io list \<times> relayCircuit" where
  "closeAll c =
     (let (ios, c1) = closeTarget c
      in (ios @ (case rc_outbound c1 of None \<Rightarrow> [] | Some o' \<Rightarrow> [CloseConn o']) @ [CloseInbound],
          c1\<lparr>rc_outbound := None\<rparr>))"

definition after :: "relay_io list \<Rightarrow> relay_result \<Rightarrow> relay_result" where
  "after ios r = (case r of (ios', c, e) \<Rightarrow> (ios @ ios', c, e))"

definition handleExtendCommand :: "relay_env \<Rightarrow> cryptolib \<Rightarrow> relayCircuit \<Rightarrow> extendCommand \<Rightarrow> relay_result" where
  "handleExtendCommand E C c req =
     (if NextHop req = [] then sendBackwardError E C c FMissingNextHop
      else (case b64_decode StdEncoding (ClientPublicKey req) of
        None \<Rightarrow> sendBackwardError E C c FClientKey
      | Some clientPubRaw \<Rightarrow>
          if length clientPubRaw \<noteq> 32 then sendBackwardError E C c FClientKeySize
          else if rc_outbound c \<noteq> None then sendBackwardError E C c FAlreadyExtended
          else (case dial_relay E (NextHop req) (ExpectedNodeID req) of
            None \<Rightarrow> sendBackwardError E C c (FDialRelay (NextHop req))
          | Some (conn, reply) \<Rightarrow>
              (case writeCell \<lparr>cl_Type = cellTypeCreate, cl_CircuitID = rc_circuitID c, cl_Payload = clientPubRaw\<rparr> of
                 Inl _ \<Rightarrow> after [CloseConn conn] (sendBackwardError E C c FForwardCreate)
               | Inr raw \<Rightarrow> after [WriteOutbound conn raw]
                   (case readCell reply of
                      Inl _ \<Rightarrow> after [CloseConn conn] (sendBackwardError E C c FReadCreated)
                    | Inr (created, _) \<Rightarrow>
                        if cl_Type created \<noteq> cellTypeCreated then
                          after [CloseConn conn] (sendBackwardError E C c (FNotCreated (cl_Type created)))
                        else sendBackwardPlain C (c\<lparr>rc_outbound := Some conn\<rparr>) relayCmdExtended (cl_Payload created))))))"

definition handleBeginCommand :: "relay_env \<Rightarrow> cryptolib \<Rightarrow> relayCircuit \<Rightarrow> beginCommand \<Rightarrow> relay_result" where
  "handleBeginCommand E C c req =
     (if bc_TargetAddr req = [] then sendBackwardError E C c FMissingTarget
      else if rc_targetConn c \<noteq> None then sendBackwardError E C c FHasTarget
      else (case dial_target E (bc_TargetAddr req) of
        None \<Rightarrow> sendBackwardError E C c (FDialTarget (bc_TargetAddr req))
      | Some conn \<Rightarrow> sendBackwardPlain C (c\<lparr>rc_targetConn := Some conn\<rparr>) relayCmdConnected []))"

definition handle_command :: "relay_env \<Rightarrow> cryptolib \<Rightarrow> relayCircuit \<Rightarrow> byte \<Rightarrow> bytes \<Rightarrow> relay_result" where
  "handle_command E C c cmd body =
     (if cmd = relayCmdExtend then
        (case json_extend E body of
           None \<Rightarrow> sendBackwardError E C c FDecodeExtend
         | Some req \<Rightarrow> after [inspect c cmd (NextHop req) [] 0] (handleExtendCommand E C c req))
      else if cmd = relayCmdBegin then
        (case json_begin E body of
           None \<Rightarrow> sendBackwardError E C c FDecodeBegin
         | Some req \<Rightarrow> after [inspect c cmd [] (bc_TargetAddr req) 0] (handleBeginCommand E C c req))
      else if cmd = relayCmdData then
        (case rc_targetConn c of
           None \<Rightarrow> sendBackwardError E C c FNoTarget
         | Some t \<Rightarrow> ([inspect c cmd [] [] (length body), WriteTarget t body], c, None))
      else if cmd = relayCmdEnd then
        (let (ios, c') = closeTarget c
         in after (inspect c cmd [] [] 0 # ios) (sendBackwardPlain C c' relayCmdEnd []))
      else sendBackwardError E C c (FUnsupported cmd))"

definition handleRelayCell :: "relay_env \<Rightarrow> cryptolib \<Rightarrow> relayCircuit \<Rightarrow> bytes \<Rightarrow> relay_result" where
  "handleRelayCell E C c payload = (case openForward C (rc_keys c) payload of
     Inl e \<Rightarrow> ([], c, Some e)
   | Inr (inner, k) \<Rightarrow>
       let c1 = c\<lparr>rc_keys := k\<rparr> in
       (case decodeRelayEnvelope inner of
          Inl e \<Rightarrow> ([], c1, Some e)
        | Inr None \<Rightarrow>
            (case rc_outbound c1 of
               None \<Rightarrow> ([], c1, Some OpaqueBeforeOutbound)
             | Some out \<Rightarrow>
                 (case writeCell \<lparr>cl_Type = cellTypeRelay, cl_CircuitID = rc_circuitID c1, cl_Payload = inner\<rparr> of
                    Inl e \<Rightarrow> ([], c1, Some e)
                  | Inr raw \<Rightarrow> ([WriteOutbound out raw], c1, None)))
        | Inr (Some (cmd, body)) \<Rightarrow> handle_command E C c1 cmd body))"

text \<open>
  One iteration of \<^verbatim>\<open>serve\<close>. The flag is True when the loop goes on; it ends on a destroy cell, an
  unexpected cell or an error, and then \<^verbatim>\<open>closeAll\<close> runs.
\<close>

definition serve_cell :: "relay_env \<Rightarrow> cryptolib \<Rightarrow> relayCircuit \<Rightarrow> cell \<Rightarrow> relay_io list \<times> relayCircuit \<times> bool" where
  "serve_cell E C c nextCell =
     (let stop = (\<lambda>ios c1. case closeAll c1 of (closing, c2) \<Rightarrow> (ios @ closing, c2, False)) in
      if cl_CircuitID nextCell \<noteq> rc_circuitID c then stop [] c
      else if cl_Type nextCell = cellTypeRelay then
        (case handleRelayCell E C c (cl_Payload nextCell) of
           (ios, c1, None) \<Rightarrow> (ios, c1, True)
         | (ios, c1, Some _) \<Rightarrow> stop ios c1)
      else if cl_Type nextCell = cellTypeDestroy then
        stop (case rc_outbound c of
                None \<Rightarrow> []
              | Some out \<Rightarrow>
                  (case writeCell \<lparr>cl_Type = cellTypeDestroy, cl_CircuitID = rc_circuitID c, cl_Payload = []\<rparr> of
                     Inl _ \<Rightarrow> [] | Inr raw \<Rightarrow> [WriteOutbound out raw])) c
      else stop [] c)"

text \<open>\<^verbatim>\<open>serve\<close>: every cell read takes bytes off the inbound stream.\<close>

lemma readCell_length: "readCell r = Inr (cl, r') \<Longrightarrow> length r' < length r"
  by (auto simp: readCell_def ReadFull_ok Let_def split: sum.splits if_splits)

function serve :: "relay_env \<Rightarrow> cryptolib \<Rightarrow> relayCircuit \<Rightarrow> bytes \<Rightarrow> relay_io list \<times> relayCircuit" where
  "serve E C c r = (case readCell r of
     Inl _ \<Rightarrow> closeAll c
   | Inr (nextCell, r') \<Rightarrow>
       (case serve_cell E C c nextCell of
          (ios, c1, False) \<Rightarrow> (ios, c1)
        | (ios, c1, True) \<Rightarrow> (case serve E C c1 r' of (ios', c2) \<Rightarrow> (ios @ ios', c2))))"
  by pat_completeness auto
termination
  by (relation "measure (\<lambda>(E, C, c, r). length r)") (auto dest: readCell_length)

declare serve.simps [simp del]

text \<open>One iteration of \<^verbatim>\<open>pumpOutbound\<close> and of \<^verbatim>\<open>pumpTarget\<close>; the flag as above.\<close>

definition drop_outbound :: "nat \<Rightarrow> relayCircuit \<Rightarrow> relayCircuit" where
  "drop_outbound conn c = (if rc_outbound c = Some conn then c\<lparr>rc_outbound := None\<rparr> else c)"

definition pumpOutbound_cell ::
  "relay_env \<Rightarrow> cryptolib \<Rightarrow> relayCircuit \<Rightarrow> nat \<Rightarrow> onion_error + cell \<Rightarrow> relay_io list \<times> relayCircuit \<times> bool" where
  "pumpOutbound_cell E C c conn input =
     (let stop = (\<lambda>ios c1. (ios @ [CloseConn conn], drop_outbound conn c1, False)) in
      case input of
        Inl _ \<Rightarrow> (case sendBackwardPlain C c relayCmdEnd [] of (ios, c1, _) \<Rightarrow> stop ios c1)
      | Inr nextCell \<Rightarrow>
          if cl_Type nextCell = cellTypeRelay then
            (case send_inbound C c (cl_Payload nextCell) of
               (ios, c1, None) \<Rightarrow> (ios, c1, True)
             | (ios, c1, Some _) \<Rightarrow> stop ios c1)
          else if cl_Type nextCell = cellTypeDestroy then
            stop (fst (writeInbound \<lparr>cl_Type = cellTypeDestroy, cl_CircuitID = rc_circuitID c, cl_Payload = []\<rparr>)) c
          else (case sendBackwardError E C c (FDownstream (cl_Type nextCell)) of (ios, c1, _) \<Rightarrow> stop ios c1))"

definition drop_target :: "nat \<Rightarrow> relayCircuit \<Rightarrow> relayCircuit" where
  "drop_target conn c = (if rc_targetConn c = Some conn then c\<lparr>rc_targetConn := None\<rparr> else c)"

definition pumpTarget_read ::
  "cryptolib \<Rightarrow> relayCircuit \<Rightarrow> nat \<Rightarrow> bytes \<Rightarrow> bool \<Rightarrow> relay_io list \<times> relayCircuit \<times> bool" where
  "pumpTarget_read C c conn chunk failed =
     (let stop = (\<lambda>ios c1. (ios @ [CloseConn conn], drop_target conn c1, False));
          (ios, c1, e) = (if length chunk > 0 then sendBackwardPlain C c relayCmdData chunk else ([], c, None))
      in if e \<noteq> None then stop ios c1
         else if failed then (case sendBackwardPlain C c1 relayCmdEnd [] of (ios', c2, _) \<Rightarrow> stop (ios @ ios') c2)
         else (ios, c1, True))"

section \<open>Building a circuit\<close>

text \<open>\<^verbatim>\<open>HandleExtend\<close> up to the call of \<^verbatim>\<open>serve\<close>; \<^verbatim>\<open>relayPriv\<close> is the key \<^verbatim>\<open>createClientKey\<close> draws.\<close>

definition HandleExtend ::
  "golib \<Rightarrow> cryptolib \<Rightarrow> Identity \<Rightarrow> bytes \<Rightarrow> bytes \<Rightarrow> onion_error + (relay_io list \<times> relayCircuit \<times> bytes)" where
  "HandleExtend G C i relayPriv r =
     (case readCell r of Inl e \<Rightarrow> Inl e | Inr (firstCell, r') \<Rightarrow>
      if cl_Type firstCell \<noteq> cellTypeCreate then Inl (UnexpectedCellType (cl_Type firstCell))
      else (case parseCreatePayload (cl_Payload firstCell) of Inl e \<Rightarrow> Inl e | Inr clientPub \<Rightarrow>
       (case buildCreatedPayload G C (cl_CircuitID firstCell) clientPub relayPriv (id_PrivateKey i) of
          Inl e \<Rightarrow> Inl e | Inr (created, shared) \<Rightarrow>
        (case deriveCircuitKeys C shared (cl_CircuitID firstCell) of Inl e \<Rightarrow> Inl e | Inr keys \<Rightarrow>
          let c = \<lparr>rc_nodeID = id_NodeID i, rc_circuitID = cl_CircuitID firstCell,
                rc_label = EncodeToString (cl_CircuitID firstCell), rc_keys = keys,
                rc_outbound = None, rc_targetConn = None\<rparr>
          in (case writeCell \<lparr>cl_Type = cellTypeCreated, cl_CircuitID = cl_CircuitID firstCell,
                     cl_Payload = marshalCreatedPayload created\<rparr> of
                Inl e \<Rightarrow> Inl e
              | Inr raw \<Rightarrow> Inr ([WriteInbound raw, Inspect \<lparr>ie_NodeID = id_NodeID i, ie_CircuitID = rc_label c,
                     ie_Command = ''create'', ie_NextHop = [], ie_TargetAddr = [], ie_Bytes = 0\<rparr>], c, r'))))))"

text \<open>The create cell \<^verbatim>\<open>establishFirstHop\<close> writes and what it makes of the answer.\<close>

definition create_cell :: "cryptolib \<Rightarrow> bytes \<Rightarrow> bytes \<Rightarrow> onion_error + bytes" where
  "create_cell C clientPriv circuitID =
     writeCell \<lparr>cl_Type = cellTypeCreate, cl_CircuitID = circuitID, cl_Payload = x25519_public C clientPriv\<rparr>"

definition establishFirstHop ::
  "golib \<Rightarrow> cryptolib \<Rightarrow> bytes \<Rightarrow> bytes \<Rightarrow> EndpointRecord \<Rightarrow> bytes \<Rightarrow> clientHop list \<Rightarrow>
   onion_error + (clientHop list \<times> bytes)" where
  "establishFirstHop G C clientPriv circuitID relay r hops =
     (case create_cell C clientPriv circuitID of Inl e \<Rightarrow> Inl e | Inr _ \<Rightarrow>
      (case readCell r of Inl e \<Rightarrow> Inl e | Inr (resp, r') \<Rightarrow>
       if cl_Type resp \<noteq> cellTypeCreated then Inl (UnexpectedCellType (cl_Type resp))
       else (case deriveClientHopKeys G C clientPriv (cl_Payload resp) relay circuitID (x25519_public C clientPriv) of
          Inl e \<Rightarrow> Inl e
        | Inr keys \<Rightarrow> Inr (hops @ [\<lparr>hop_relay = relay, hop_keys = keys\<rparr>], r'))))"

text \<open>\<^verbatim>\<open>extendCircuit\<close>: \<^verbatim>\<open>extend_json\<close> is the JSON text of the command, \<^verbatim>\<open>r\<close> the stream of answers.\<close>

definition extendCircuit ::
  "golib \<Rightarrow> cryptolib \<Rightarrow> (extendCommand \<Rightarrow> bytes) \<Rightarrow> bytes \<Rightarrow> bytes \<Rightarrow> EndpointRecord \<Rightarrow> clientHop list \<Rightarrow> bytes \<Rightarrow>
   bytes \<times> (onion_error + (clientHop \<times> bytes)) \<times> clientHop list" where
  "extendCircuit G C extend_json clientPriv circuitID relay hops r =
     (let clientPub = x25519_public C clientPriv;
          body = extend_json \<lparr>NextHop = er_Address relay, ExpectedNodeID = er_NodeID relay,
                   ClientPublicKey = b64_encode StdEncoding clientPub\<rparr>
      in case sendRelayCommand C circuitID hops relayCmdExtend body of
           (Inl e, hops1) \<Rightarrow> ([], Inl e, hops1)
         | (Inr raw, hops1) \<Rightarrow>
             (case readRelayResponse C circuitID hops1 r of
                (Inl e, hops2) \<Rightarrow> (raw, Inl e, hops2)
              | (Inr (cmd, payload, r'), hops2) \<Rightarrow>
                  (raw,
                   if cmd = relayCmdError then Inl (RelayFailed payload)
                   else if cmd \<noteq> relayCmdExtended then Inl (UnexpectedResponse cmd)
                   else (case deriveClientHopKeys G C clientPriv payload relay circuitID clientPub of
                      Inl e \<Rightarrow> Inl e
                    | Inr keys \<Rightarrow> Inr (\<lparr>hop_relay = relay, hop_keys = keys\<rparr>, r')),
                   hops2)))"

definition beginCircuit ::
  "cryptolib \<Rightarrow> (beginCommand \<Rightarrow> bytes) \<Rightarrow> bytes \<Rightarrow> string \<Rightarrow> clientHop list \<Rightarrow> bytes \<Rightarrow>
   bytes \<times> (onion_error + bytes) \<times> clientHop list" where
  "beginCircuit C begin_json circuitID targetAddr hops r =
     (case sendRelayCommand C circuitID hops relayCmdBegin (begin_json \<lparr>bc_TargetAddr = targetAddr\<rparr>) of
        (Inl e, hops1) \<Rightarrow> ([], Inl e, hops1)
      | (Inr raw, hops1) \<Rightarrow>
          (case readRelayResponse C circuitID hops1 r of
             (Inl e, hops2) \<Rightarrow> (raw, Inl e, hops2)
           | (Inr (cmd, payload, r'), hops2) \<Rightarrow>
               (raw,
                if cmd = relayCmdError then Inl (RelayFailed payload)
                else if cmd \<noteq> relayCmdConnected then Inl (UnexpectedResponse cmd)
                else Inr r',
                hops2)))"

section \<open>Key agreement\<close>

lemma verify_marshal_created:
  assumes "ed25519_ok G" "x25519_ok C" "Identity_Validate G i = Inr ()"
    and "buildCreatedPayload G C circuitID clientPub relayPriv (id_PrivateKey i) = Inr (created, shared)"
  shows "verifyCreatedPayload G (marshalCreatedPayload created) (b64_encode StdEncoding (id_PublicKey i)) circuitID clientPub
      = Inr (x25519_public C relayPriv)"
    "length (marshalCreatedPayload created) = 96" "x25519_ecdh C relayPriv clientPub = Some shared"
proof -
  let ?pub = "x25519_public C relayPriv"
  let ?sig = "ed25519_sign G (id_PrivateKey i) (createdSigningPayload circuitID clientPub ?pub)"
  have c: "created = \<lparr>ServerPub = ?pub, Signature = ?sig\<rparr>" "x25519_ecdh C relayPriv clientPub = Some shared"
    using assms(4) by (auto simp: buildCreatedPayload_def NewPublicKey_def Let_def split: option.splits if_splits)
  have l: "length ?pub = 32" "length ?sig = 64" "length (id_PublicKey i) = 32"
    "ed25519_verify G (id_PublicKey i) (createdSigningPayload circuitID clientPub ?pub) ?sig"
    using assms(1-3) by (auto simp: x25519_ok_def ed25519_ok_def Identity_Validate_iff)
  show "verifyCreatedPayload G (marshalCreatedPayload created) (b64_encode StdEncoding (id_PublicKey i)) circuitID clientPub
      = Inr ?pub" "length (marshalCreatedPayload created) = 96" "x25519_ecdh C relayPriv clientPub = Some shared"
    using l c by (simp_all add: verifyCreatedPayload_def marshalCreatedPayload_def Let_def)
qed

lemma deriveCircuitKeys_ok:
  assumes "hkdf_ok C"
  obtains keys where "deriveCircuitKeys C shared circuitID = Inr keys"
    "forwardCounter keys = 0" "backwardCounter keys = 0"
proof -
  obtain f b where "hkdf_key C shared circuitID (''vx6-onion-'' @ ''forward'') 32 = Some f" "length f = 32"
    "hkdf_key C shared circuitID (''vx6-onion-'' @ ''backward'') 32 = Some b" "length b = 32"
    using assms unfolding hkdf_ok_def by blast
  then have "deriveCircuitKeys C shared circuitID =
      Inr \<lparr>forward = f, backward = b, forwardCounter = 0, backwardCounter = 0\<rparr>"
    by (simp add: deriveCircuitKeys_def deriveKey_def newAEAD_def NewCipher_def)
  then show thesis by (rule that) simp_all
qed

text \<open>
  C38: client and relay agree on the keys of a hop. The relay named by the client's record answers
  the client's create cell, and \<^verbatim>\<open>establishFirstHop\<close> accepts the answer and ends up with exactly the
  key state of the relay's circuit, both counters at zero on both sides; the bytes after the
  handshake are untouched on both streams.
\<close>

theorem establishFirstHop_agrees:
  assumes "ed25519_ok G" "x25519_ok C" "hkdf_ok C" "Identity_Validate G i = Inr ()"
    and "length circuitID = 16" "er_PublicKey relay = b64_encode StdEncoding (id_PublicKey i)"
    and "x25519_ecdh C relayPriv (x25519_public C clientPriv) = Some shared"
  shows "\<exists>raw ios c answer. create_cell C clientPriv circuitID = Inr raw \<and>
    HandleExtend G C i relayPriv (raw @ r) = Inr (WriteInbound answer # ios, c, r) \<and>
    establishFirstHop G C clientPriv circuitID relay (answer @ rest) hops =
      Inr (hops @ [\<lparr>hop_relay = relay, hop_keys = rc_keys c\<rparr>], rest) \<and>
    rc_circuitID c = circuitID \<and> forwardCounter (rc_keys c) = 0 \<and> backwardCounter (rc_keys c) = 0"
proof -
  let ?pub = "x25519_public C clientPriv"
  let ?cell = "\<lparr>cl_Type = cellTypeCreate, cl_CircuitID = circuitID, cl_Payload = ?pub\<rparr> :: cell"
  have pub: "length ?pub = 32" "length (x25519_public C relayPriv) = 32" using assms(2) by (simp_all add: x25519_ok_def)
  have "cell_ok ?cell" "length (cl_Payload ?cell) \<le> cellPayloadSize" using assms(5) pub by (simp_all add: cell_ok_def)
  then obtain raw where raw: "writeCell ?cell = Inr raw" "\<And>r. readCell (raw @ r) = Inr (?cell, r)"
    by (rule writeCell_ok) blast
  obtain created where cr:
    "buildCreatedPayload G C circuitID ?pub relayPriv (id_PrivateKey i) = Inr (created, shared)"
    using assms(7) pub by (simp add: buildCreatedPayload_def NewPublicKey_def Let_def)
  obtain keys where keys: "deriveCircuitKeys C shared circuitID = Inr keys"
    "forwardCounter keys = 0" "backwardCounter keys = 0" by (rule deriveCircuitKeys_ok [OF assms(3)])
  note v = verify_marshal_created [OF assms(1,2,4) cr]
  let ?ans = "\<lparr>cl_Type = cellTypeCreated, cl_CircuitID = circuitID, cl_Payload = marshalCreatedPayload created\<rparr> :: cell"
  have "cell_ok ?ans" "length (cl_Payload ?ans) \<le> cellPayloadSize" using assms(5) v(2) by (simp_all add: cell_ok_def)
  then obtain answer where ans: "writeCell ?ans = Inr answer" "\<And>r. readCell (answer @ r) = Inr (?ans, r)"
    by (rule writeCell_ok) blast
  have "x25519_ecdh C clientPriv (x25519_public C relayPriv) = Some shared"
    using assms(2) v(3) by (simp add: x25519_ok_def)
  then have "deriveClientHopKeys G C clientPriv (marshalCreatedPayload created) relay circuitID ?pub = Inr keys"
    using v(1) keys(1) assms(6) pub by (simp add: deriveClientHopKeys_def NewPublicKey_def)
  then have "establishFirstHop G C clientPriv circuitID relay (answer @ rest) hops =
      Inr (hops @ [\<lparr>hop_relay = relay, hop_keys = keys\<rparr>], rest)"
    using raw(1) by (simp add: establishFirstHop_def create_cell_def ans)
  moreover obtain ios c where "HandleExtend G C i relayPriv (raw @ r) = Inr (WriteInbound answer # ios, c, r)"
    "rc_keys c = keys" "rc_circuitID c = circuitID"
    by (simp add: HandleExtend_def raw(2) parseCreatePayload_def pub cr keys(1) ans(1))
  ultimately show ?thesis using raw(1) keys unfolding create_cell_def by blast
qed

definition demo_relay :: EndpointRecord where
  "demo_relay = demo_endpoint demo_addr"

theorem establishFirstHop_agrees_witness:
  "\<exists>raw ios c answer. create_cell demo_crypto [1] (replicate 16 9) = Inr raw \<and>
    HandleExtend demo_lib demo_crypto demo_identity [2] raw = Inr (WriteInbound answer # ios, c, []) \<and>
    establishFirstHop demo_lib demo_crypto [1] (replicate 16 9) demo_relay answer [] =
      Inr ([\<lparr>hop_relay = demo_relay, hop_keys = rc_keys c\<rparr>], [])"
proof -
  have "x25519_ecdh demo_crypto [2] (x25519_public demo_crypto [1]) =
      Some (map2 (XOR) (fit 32 [2]) (x25519_public demo_crypto [1]))" by (simp add: demo_crypto_def)
  from establishFirstHop_agrees [OF demo_lib_ok(2) demo_crypto_ok(4,3) demo_identity_ok, of "replicate 16 9" demo_relay,
      OF _ _ this, of "[]" "[]" "[]"]
  show ?thesis by (auto simp: demo_relay_def demo_endpoint_def)
qed

end
