(* ===== verification/OnionPath.thy ===== *)
theory OnionPath
  imports Relay
begin

text \<open>
  The client end and the relay ends of \<^verbatim>\<open>internal/onion\<close> put together: a circuit of relays, the
  cells a client writes travelling forward through it, and the data of the target travelling back.
\<close>

section \<open>A circuit of relays\<close>

text \<open>
  The relays of a circuit, nearest to the client first. Client and relays are in step when every
  hop of the client has the key state of its relay; every relay but the last has an outbound
  connection and no target, the last one has the target.
\<close>

definition in_step :: "clientHop list \<Rightarrow> relayCircuit list \<Rightarrow> bool" where
  "in_step hops cs \<longleftrightarrow> map hop_keys hops = map rc_keys cs"

fun connected :: "bytes \<Rightarrow> nat \<Rightarrow> relayCircuit list \<Rightarrow> bool" where
  "connected circuitID t [] \<longleftrightarrow> False"
| "connected circuitID t [c] \<longleftrightarrow> rc_circuitID c = circuitID \<and> rc_targetConn c = Some t"
| "connected circuitID t (c # d # cs) \<longleftrightarrow>
     rc_circuitID c = circuitID \<and> rc_outbound c \<noteq> None \<and> rc_targetConn c = None \<and> connected circuitID t (d # cs)"

text \<open>A cell handed to the first relay, and passed on along the outbound connections.\<close>

fun run_forward :: "relay_env \<Rightarrow> cryptolib \<Rightarrow> relayCircuit list \<Rightarrow> bytes \<Rightarrow> relay_io list \<times> relayCircuit list" where
  "run_forward E C [] raw = ([], [])"
| "run_forward E C (c # cs) raw = (case readCell raw of
     Inl _ \<Rightarrow> ([], c # cs)
   | Inr (cl, _) \<Rightarrow>
       (case serve_cell E C c cl of (ios, c', go) \<Rightarrow>
          (case ios of
             [WriteOutbound conn raw'] \<Rightarrow>
               (case run_forward E C cs raw' of (ios', cs') \<Rightarrow> (ios', c' # cs'))
           | _ \<Rightarrow> (ios, c' # cs))))"

fun run_cells :: "relay_env \<Rightarrow> cryptolib \<Rightarrow> relayCircuit list \<Rightarrow> bytes list \<Rightarrow> relay_io list \<times> relayCircuit list" where
  "run_cells E C cs [] = ([], cs)"
| "run_cells E C cs (raw # raws) =
     (case run_forward E C cs raw of (ios, cs1) \<Rightarrow>
      (case run_cells E C cs1 raws of (ios', cs2) \<Rightarrow> (ios @ ios', cs2)))"

fun target_bytes :: "nat \<Rightarrow> relay_io list \<Rightarrow> bytes" where
  "target_bytes t [] = []"
| "target_bytes t (WriteTarget u bs # ios) = (if u = t then bs else []) @ target_bytes t ios"
| "target_bytes t (_ # ios) = target_bytes t ios"

lemma target_bytes_append [simp]: "target_bytes t (a @ b) = target_bytes t a @ target_bytes t b"
  by (induction t a rule: target_bytes.induct) auto

text \<open>
  A relay knows its own commands by the four magic bytes only. A cell is misread when a relay before
  the last one finds them at the start of the ciphertext it should pass on.
\<close>

fun misreads :: "cryptolib \<Rightarrow> relayCircuit list \<Rightarrow> bytes \<Rightarrow> bool" where
  "misreads C (c # d # cs) raw \<longleftrightarrow> (case readCell raw of
     Inl _ \<Rightarrow> False
   | Inr (cl, _) \<Rightarrow>
       cl_CircuitID cl = rc_circuitID c \<and> cl_Type cl = cellTypeRelay \<and>
       (case openForward C (rc_keys c) (cl_Payload cl) of
          Inl _ \<Rightarrow> False
        | Inr (inner, _) \<Rightarrow>
            decodeRelayEnvelope inner \<noteq> Inr None \<or>
            (case writeCell \<lparr>cl_Type = cellTypeRelay, cl_CircuitID = rc_circuitID c, cl_Payload = inner\<rparr> of
               Inl _ \<Rightarrow> False
             | Inr raw' \<Rightarrow> misreads C (d # cs) raw')))"
| "misreads C _ raw \<longleftrightarrow> False"

section \<open>Forward\<close>

lemma length_seal_layers [simp]:
  "aead_ok C \<Longrightarrow> length (fst (seal_layers C hops p)) = length p + relayTagSize * length hops"
  by (induction hops) (auto simp: sealForward_def case_prod_beta Let_def)

lemma length_seal_layers_hops [simp]: "length (snd (seal_layers C hops p)) = length hops"
  by (induction hops) (auto simp: case_prod_beta Let_def)

lemma seal_layers_keys:
  "map hop_keys (snd (seal_layers C hops p)) = map (\<lambda>h. (hop_keys h)\<lparr>forwardCounter := forwardCounter (hop_keys h) + 1\<rparr>) hops"
  by (induction hops) (auto simp: sealForward_def case_prod_beta Let_def)

lemma seal_layers_Cons:
  "seal_layers C (h # hs) p =
     (gcm_seal C (forward (hop_keys h)) (counterNonce (forwardCounter (hop_keys h))) (fst (seal_layers C hs p)),
      h\<lparr>hop_keys := (hop_keys h)\<lparr>forwardCounter := forwardCounter (hop_keys h) + 1\<rparr>\<rparr> # snd (seal_layers C hs p))"
  by (simp add: sealForward_def case_prod_beta Let_def)

declare seal_layers.simps(2) [simp del] seal_layers_Cons [simp]

abbreviation bump_forward :: "circuitKeyState \<Rightarrow> circuitKeyState" where
  "bump_forward k \<equiv> k\<lparr>forwardCounter := forwardCounter k + 1\<rparr>"

lemma relay_opaque:
  assumes "aead_ok C" "decodeRelayEnvelope inner = Inr None" "rc_outbound c = Some out"
    and "writeCell \<lparr>cl_Type = cellTypeRelay, cl_CircuitID = rc_circuitID c, cl_Payload = inner\<rparr> = Inr raw"
  shows "handleRelayCell E C c (gcm_seal C (forward (rc_keys c)) (counterNonce (forwardCounter (rc_keys c))) inner) =
    ([WriteOutbound out raw], c\<lparr>rc_keys := bump_forward (rc_keys c)\<rparr>, None)"
  using assms by (simp add: handleRelayCell_def openForward_def Let_def)

lemma relay_envelope:
  assumes "aead_ok C" "length body \<le> maxRelayDataPayload"
  shows "handleRelayCell E C c (gcm_seal C (forward (rc_keys c)) (counterNonce (forwardCounter (rc_keys c)))
      (envelope cmd body)) = handle_command E C (c\<lparr>rc_keys := bump_forward (rc_keys c)\<rparr>) cmd body"
  using assms decode_envelope [OF assms(2), of cmd "[]"] by (simp add: handleRelayCell_def openForward_def Let_def)

lemma writeCell_fits:
  assumes "length payload \<le> cellPayloadSize"
  obtains raw where "writeCell \<lparr>cl_Type = ty, cl_CircuitID = circuitID, cl_Payload = payload\<rparr> = Inr raw"
  using assms by (simp add: writeCell_def)

lemma readCell_written:
  assumes "length circuitID = 16" "writeCell \<lparr>cl_Type = ty, cl_CircuitID = circuitID, cl_Payload = payload\<rparr> = Inr raw"
  shows "readCell (raw @ r) = Inr (\<lparr>cl_Type = ty, cl_CircuitID = circuitID, cl_Payload = payload\<rparr>, r)"
proof -
  let ?c = "\<lparr>cl_Type = ty, cl_CircuitID = circuitID, cl_Payload = payload\<rparr> :: cell"
  have "cell_ok ?c" "length (cl_Payload ?c) \<le> cellPayloadSize"
    using assms writeCell_Inr_iff [of ?c] by (simp_all add: cell_ok_def)
  then show ?thesis by (rule writeCell_ok) (use assms(2) in simp)
qed

text \<open>One data cell: every relay strips its layer, the last one writes the body to the target.\<close>

lemma forward_cell:
  assumes "aead_ok C" "length circuitID = 16" "length body \<le> maxRelayDataPayload"
  shows "in_step hops cs \<Longrightarrow> connected circuitID t cs \<Longrightarrow>
    length body + relayEnvelopeSize + relayTagSize * length hops \<le> cellPayloadSize \<Longrightarrow>
    writeCell \<lparr>cl_Type = cellTypeRelay, cl_CircuitID = circuitID,
      cl_Payload = fst (seal_layers C hops (envelope relayCmdData body))\<rparr> = Inr raw \<Longrightarrow>
    \<not> misreads C cs raw \<Longrightarrow>
    \<exists>ios cs'. run_forward E C cs raw = (ios, cs') \<and> target_bytes t ios = body \<and>
      in_step (snd (seal_layers C hops (envelope relayCmdData body))) cs' \<and> connected circuitID t cs'"
proof (induction cs arbitrary: hops raw rule: induct_list012)
  case 1
  then show ?case by simp
next
  case (2 c)
  let ?e = "envelope relayCmdData body"
  obtain h where h: "hops = [h]" "hop_keys h = rc_keys c" using "2.prems"(1) by (auto simp: in_step_def)
  let ?c1 = "c\<lparr>rc_keys := (rc_keys c)\<lparr>forwardCounter := forwardCounter (rc_keys c) + 1\<rparr>\<rparr>"
  have "readCell raw = Inr (\<lparr>cl_Type = cellTypeRelay, cl_CircuitID = circuitID,
      cl_Payload = fst (seal_layers C hops ?e)\<rparr>, [])"
    using readCell_written [OF assms(2) "2.prems"(4), of "[]"] by simp
  moreover have "fst (seal_layers C hops ?e) =
      gcm_seal C (forward (rc_keys c)) (counterNonce (forwardCounter (rc_keys c))) ?e"
    by (simp add: h seal_layers_Cons)
  ultimately have "run_forward E C [c] raw =
      ([inspect ?c1 relayCmdData [] [] (length body), WriteTarget t body], [?c1])"
    using "2.prems"(2) relay_envelope [OF assms(1,3), of E c relayCmdData]
    by (simp add: serve_cell_def handle_command_def inspect_def)
  then show ?case using "2.prems"(2) h by (simp add: in_step_def seal_layers_Cons inspect_def)
next
  case (3 c d cs)
  let ?e = "envelope relayCmdData body"
  obtain h hs where h: "hops = h # hs" "hop_keys h = rc_keys c" "in_step hs (d # cs)" and hs: "hs \<noteq> []"
    using "3.prems"(1) by (auto simp: in_step_def)
  let ?inner = "fst (seal_layers C hs ?e)" and ?c1 = "c\<lparr>rc_keys := bump_forward (rc_keys c)\<rparr>"
  have seal: "fst (seal_layers C hops ?e) =
      gcm_seal C (forward (rc_keys c)) (counterNonce (forwardCounter (rc_keys c))) ?inner"
    by (simp add: h seal_layers_Cons)
  have len: "length ?inner \<le> cellPayloadSize" "length body + relayEnvelopeSize + relayTagSize * length hs \<le> cellPayloadSize"
    using "3.prems"(3) assms(1) by (simp_all add: h(1))
  obtain raw' where raw': "writeCell \<lparr>cl_Type = cellTypeRelay, cl_CircuitID = circuitID, cl_Payload = ?inner\<rparr> = Inr raw'"
    by (rule writeCell_fits [OF len(1)])
  obtain out where out: "rc_outbound c = Some out" "rc_circuitID c = circuitID" "rc_targetConn c = None"
    using "3.prems"(2) by auto
  have rd: "readCell raw = Inr (\<lparr>cl_Type = cellTypeRelay, cl_CircuitID = circuitID,
      cl_Payload = fst (seal_layers C hops ?e)\<rparr>, [])"
    using readCell_written [OF assms(2) "3.prems"(4), of "[]"] by simp
  have "openForward C (rc_keys c) (fst (seal_layers C hops ?e)) = Inr (?inner, bump_forward (rc_keys c))"
    using assms(1) by (simp add: seal openForward_def Let_def)
  then have op: "decodeRelayEnvelope ?inner = Inr None" "\<not> misreads C (d # cs) raw'"
    using "3.prems"(5) raw' out(2) by (simp_all add: rd)
  obtain ios cs' where IH: "run_forward E C (d # cs) raw' = (ios, cs')" "target_bytes t ios = body"
    "in_step (snd (seal_layers C hs ?e)) cs'" "connected circuitID t cs'"
    using "3.IH"(2) [OF h(3) _ len(2) raw' op(2)] "3.prems"(2) by auto
  from rd have "run_forward E C (c # d # cs) raw = (ios, ?c1 # cs')"
    using relay_opaque [OF assms(1) op(1) out(1), of raw' E] raw' out(2) IH(1)
    by (simp add: serve_cell_def seal del: run_forward.simps) (simp add: serve_cell_def seal)
  moreover have "cs' \<noteq> []" using IH(4) by auto
  ultimately show ?case
    using IH out h by (cases cs') (auto simp: in_step_def seal_layers_Cons)
qed

lemma sendRelayCommand_fits:
  assumes "aead_ok C" "length hops \<le> maxRelayLayers" "length body \<le> maxRelayDataPayload"
  obtains raw where "sendRelayCommand C circuitID hops cmd body =
      (Inr raw, snd (seal_layers C hops (envelope cmd body)))"
    "writeCell \<lparr>cl_Type = cellTypeRelay, cl_CircuitID = circuitID,
       cl_Payload = fst (seal_layers C hops (envelope cmd body))\<rparr> = Inr raw"
proof -
  have "length (fst (seal_layers C hops (envelope cmd body))) \<le> cellPayloadSize" using assms by simp
  then obtain raw where "writeCell \<lparr>cl_Type = cellTypeRelay, cl_CircuitID = circuitID,
       cl_Payload = fst (seal_layers C hops (envelope cmd body))\<rparr> = Inr raw" by (rule writeCell_fits)
  then show thesis
    by (intro that [of raw]) (simp_all add: sendRelayCommand_def encodeRelayEnvelope_ok [OF assms(3)] case_prod_beta Let_def)
qed

text \<open>What a relay does with a command when it has an outbound connection and no target: it only answers.\<close>

fun answer_only :: "relay_io \<Rightarrow> bool" where
  "answer_only (WriteTarget _ _) \<longleftrightarrow> False"
| "answer_only (WriteOutbound _ _) \<longleftrightarrow> False"
| "answer_only _ \<longleftrightarrow> True"

lemma answer_only_target: "list_all answer_only ios \<Longrightarrow> target_bytes t ios = []"
  by (induction t ios rule: target_bytes.induct) auto

lemma answers_send:
  "list_all answer_only (fst (send_inbound C c p))" "list_all answer_only (fst (sendBackwardPlain C c cmd body))"
  "list_all answer_only (fst (sendBackwardError E C c fault))" "list_all answer_only (fst (closeTarget c))"
  "list_all answer_only (fst (closeAll c))"
  by (auto simp: send_inbound_def writeInbound_def sendBackwardPlain_def sendBackwardError_def closeTarget_def closeAll_def
      Let_def case_prod_beta split: sum.split option.split)

lemma fst_after: "fst (after ios r) = ios @ fst r"
  by (simp add: after_def case_prod_beta)

lemma answers_command:
  assumes "rc_outbound c \<noteq> None" "rc_targetConn c = None"
  shows "list_all answer_only (fst (handle_command E C c cmd body))"
  using assms
  by (auto simp: handle_command_def handleExtendCommand_def handleBeginCommand_def fst_after inspect_def answers_send
      Let_def case_prod_beta split: option.split)

lemma misread_answers:
  assumes "rc_outbound c \<noteq> None" "rc_targetConn c = None" "openForward C (rc_keys c) (cl_Payload cl) = Inr (inner, k)"
    and "decodeRelayEnvelope inner \<noteq> Inr None" "cl_CircuitID cl = rc_circuitID c" "cl_Type cl = cellTypeRelay"
  shows "list_all answer_only (fst (serve_cell E C c cl))"
proof -
  have "list_all answer_only (fst (handleRelayCell E C c (cl_Payload cl)))"
    using assms answers_command [of "c\<lparr>rc_keys := k\<rparr>"]
    by (auto simp: handleRelayCell_def Let_def split: sum.split option.split)
  then show ?thesis
    using answers_send(5) assms(5,6)
    by (auto simp: serve_cell_def Let_def case_prod_beta split: option.split sum.split)
qed

text \<open>
  A misread cell is lost: the relay takes the ciphertext for a command of its own, or closes the circuit when the length
  field does not fit, and nothing of the cell reaches the target.
\<close>

lemma misread_cell_lost:
  assumes "connected circuitID t cs" "misreads C cs raw"
  shows "target_bytes t (fst (run_forward E C cs raw)) = []"
  using assms
proof (induction C cs raw rule: misreads.induct)
  case (1 C c d cs raw)
  from "1.prems"(2) obtain cl r inner k where cl: "readCell raw = Inr (cl, r)" "openForward C (rc_keys c) (cl_Payload cl) = Inr (inner, k)"
    and ty: "cl_CircuitID cl = rc_circuitID c" "cl_Type cl = cellTypeRelay"
    by (auto split: sum.splits)
  obtain out where out: "rc_outbound c = Some out" "rc_circuitID c = circuitID" "rc_targetConn c = None"
    using "1.prems"(1) by auto
  show ?case
  proof (cases "decodeRelayEnvelope inner = Inr None")
    case False
    then have q: "list_all answer_only (fst (serve_cell E C c cl))" using out cl ty by (intro misread_answers) auto
    then show ?thesis
      using answer_only_target [OF q]
      by (auto simp: cl case_prod_beta split: list.split relay_io.split)
  next
    case True
    then obtain raw' where raw': "misreads C (d # cs) raw'"
      "writeCell \<lparr>cl_Type = cellTypeRelay, cl_CircuitID = rc_circuitID c, cl_Payload = inner\<rparr> = Inr raw'"
      using "1.prems"(2) cl by (auto split: sum.splits)
    have IH: "target_bytes t (fst (run_forward E C (d # cs) raw')) = []"
      using "1.prems"(1) raw' by (intro "1.IH" [OF cl(1) refl cl(2) refl raw'(2)]) auto
    have "serve_cell E C c cl = ([WriteOutbound out raw'], c\<lparr>rc_keys := k\<rparr>, True)"
      using out True raw'(2) ty by (simp add: serve_cell_def handleRelayCell_def cl Let_def)
    then have "run_forward E C (c # d # cs) raw = (case run_forward E C (d # cs) raw' of (ios', cs') \<Rightarrow> (ios', c\<lparr>rc_keys := k\<rparr> # cs'))"
      by (simp only: run_forward.simps(2) [of E C c] cl) simp
    then show ?thesis using IH by (simp add: case_prod_beta)
  qed
qed auto

text \<open>The first cell of a write, and the rest of it.\<close>

lemma client_Write_step:
  assumes "aead_ok C" "length (cc_hops c) \<le> maxRelayLayers" "p \<noteq> []"
  defines "body \<equiv> take maxRelayDataPayload p"
  defines "c1 \<equiv> c\<lparr>cc_hops := snd (seal_layers C (cc_hops c) (envelope relayCmdData body))\<rparr>"
  obtains raw where
    "writeCell \<lparr>cl_Type = cellTypeRelay, cl_CircuitID = cc_circuitID c,
       cl_Payload = fst (seal_layers C (cc_hops c) (envelope relayCmdData body))\<rparr> = Inr raw"
    "client_Write C c p = (case client_Write C c1 (drop maxRelayDataPayload p) of
       (raws, m, err, c') \<Rightarrow> (raw # raws, length body + m, err, c'))"
proof -
  have "length body \<le> maxRelayDataPayload" by (simp add: body_def)
  then obtain raw where raw: "sendRelayCommand C (cc_circuitID c) (cc_hops c) relayCmdData body =
      (Inr raw, snd (seal_layers C (cc_hops c) (envelope relayCmdData body)))"
    "writeCell \<lparr>cl_Type = cellTypeRelay, cl_CircuitID = cc_circuitID c,
       cl_Payload = fst (seal_layers C (cc_hops c) (envelope relayCmdData body))\<rparr> = Inr raw"
    by (rule sendRelayCommand_fits [OF assms(1,2)])
  have m: "take (min (length p) k) p = take k p" "drop (min (length p) k) p = drop k p" for k by (simp_all add: min_def)
  have "client_Write C c p = (case client_Write C c1 (drop maxRelayDataPayload p) of
       (raws, m, err, c') \<Rightarrow> (raw # raws, length body + m, err, c'))"
    using assms(3) raw(1) unfolding c1_def
    by (subst client_Write.simps) (simp add: m body_def Let_def split: prod.splits)
  with raw(2) show thesis by (rule that)
qed

lemma client_Write_accepts:
  "aead_ok C \<Longrightarrow> length (cc_hops c) \<le> maxRelayLayers \<Longrightarrow> \<exists>raws c'. client_Write C c p = (raws, length p, None, c')"
proof (induction "length p" arbitrary: c p rule: less_induct)
  case less
  show ?case
  proof (cases "p = []")
    case False
    let ?c1 = "c\<lparr>cc_hops := snd (seal_layers C (cc_hops c) (envelope relayCmdData (take maxRelayDataPayload p)))\<rparr>"
    obtain raw where "client_Write C c p = (case client_Write C ?c1 (drop maxRelayDataPayload p) of
       (raws, m, err, c') \<Rightarrow> (raw # raws, length (take maxRelayDataPayload p) + m, err, c'))"
      by (rule client_Write_step [OF less.prems False])
    moreover have "\<exists>raws c'. client_Write C ?c1 (drop maxRelayDataPayload p) = (raws, length (drop maxRelayDataPayload p), None, c')"
      using less.prems False by (intro less.hyps) auto
    ultimately show ?thesis by auto
  qed (simp add: client_Write.simps)
qed

lemma client_Write_delivers_aux:
  "aead_ok C \<Longrightarrow> length (cc_circuitID c) = 16 \<Longrightarrow> length (cc_hops c) \<le> maxRelayLayers \<Longrightarrow>
   in_step (cc_hops c) cs \<Longrightarrow> connected (cc_circuitID c) t cs \<Longrightarrow>
   \<exists>raws c'. client_Write C c p = (raws, length p, None, c') \<and>
     ((\<exists>ios cs'. run_cells E C cs raws = (ios, cs') \<and> target_bytes t ios = p \<and>
        in_step (cc_hops c') cs' \<and> connected (cc_circuitID c') t cs') \<or>
      (\<exists>n ios cs'. n < length raws \<and> run_cells E C cs (take n raws) = (ios, cs') \<and>
        target_bytes t ios = take (n * maxRelayDataPayload) p \<and> misreads C cs' (raws ! n) \<and>
        target_bytes t (fst (run_forward E C cs' (raws ! n))) = []))"
proof (induction "length p" arbitrary: c p cs rule: less_induct)
  case less
  show ?case
  proof (cases "p = []")
    case True
    then show ?thesis using less.prems by (simp add: client_Write.simps)
  next
    case False
    let ?body = "take maxRelayDataPayload p" and ?rest = "drop maxRelayDataPayload p" and ?id = "cc_circuitID c"
    let ?e = "envelope relayCmdData ?body"
    let ?c1 = "c\<lparr>cc_hops := snd (seal_layers C (cc_hops c) ?e)\<rparr>"
    have n: "length ?body \<le> maxRelayDataPayload" by simp
    obtain raw where raw: "writeCell \<lparr>cl_Type = cellTypeRelay, cl_CircuitID = ?id,
        cl_Payload = fst (seal_layers C (cc_hops c) ?e)\<rparr> = Inr raw"
      and w: "client_Write C c p = (case client_Write C ?c1 ?rest of (raws, m, err, c') \<Rightarrow> (raw # raws, length ?body + m, err, c'))"
      by (rule client_Write_step [OF less.prems(1,3) False])
    have l: "length ?body + length ?rest = length p" by simp
    show ?thesis
    proof (cases "misreads C cs raw")
      case True
      obtain raws c' where "client_Write C ?c1 ?rest = (raws, length ?rest, None, c')"
        using client_Write_accepts [OF less.prems(1), of ?c1 ?rest] less.prems(3) by auto
      then have "client_Write C c p = (raw # raws, length p, None, c')" using w l by simp
      then show ?thesis using True misread_cell_lost [OF less.prems(5) True, of E] by (auto intro!: exI [of _ "0 :: nat"])
    next
      case False
      have "length ?body + relayEnvelopeSize + relayTagSize * length (cc_hops c) \<le> cellPayloadSize"
        using less.prems(3) n by simp
      from forward_cell [where E = E, OF less.prems(1,2) n less.prems(4,5) this raw False]
      obtain ios1 cs1 where f: "run_forward E C cs raw = (ios1, cs1)" "target_bytes t ios1 = ?body"
        "in_step (cc_hops ?c1) cs1" "connected ?id t cs1" by auto
      have "\<exists>raws c'. client_Write C ?c1 ?rest = (raws, length ?rest, None, c') \<and>
         ((\<exists>ios cs'. run_cells E C cs1 raws = (ios, cs') \<and> target_bytes t ios = ?rest \<and>
            in_step (cc_hops c') cs' \<and> connected (cc_circuitID c') t cs') \<or>
          (\<exists>n ios cs'. n < length raws \<and> run_cells E C cs1 (take n raws) = (ios, cs') \<and>
            target_bytes t ios = take (n * maxRelayDataPayload) ?rest \<and> misreads C cs' (raws ! n) \<and>
        target_bytes t (fst (run_forward E C cs' (raws ! n))) = []))"
        using less.prems f \<open>p \<noteq> []\<close> by (intro less.hyps) auto
      then obtain raws c' where r: "client_Write C ?c1 ?rest = (raws, length ?rest, None, c')"
        and d: "(\<exists>ios cs'. run_cells E C cs1 raws = (ios, cs') \<and> target_bytes t ios = ?rest \<and>
            in_step (cc_hops c') cs' \<and> connected (cc_circuitID c') t cs') \<or>
          (\<exists>n ios cs'. n < length raws \<and> run_cells E C cs1 (take n raws) = (ios, cs') \<and>
            target_bytes t ios = take (n * maxRelayDataPayload) ?rest \<and> misreads C cs' (raws ! n) \<and>
            target_bytes t (fst (run_forward E C cs' (raws ! n))) = [])" by blast
      have "client_Write C c p = (raw # raws, length p, None, c')" using w r l by simp
      moreover from d have "(\<exists>ios cs'. run_cells E C cs (raw # raws) = (ios, cs') \<and> target_bytes t ios = p \<and>
            in_step (cc_hops c') cs' \<and> connected (cc_circuitID c') t cs') \<or>
          (\<exists>n ios cs'. n < length (raw # raws) \<and> run_cells E C cs (take n (raw # raws)) = (ios, cs') \<and>
            target_bytes t ios = take (n * maxRelayDataPayload) p \<and> misreads C cs' ((raw # raws) ! n) \<and>
            target_bytes t (fst (run_forward E C cs' ((raw # raws) ! n))) = [])"
      proof (elim disjE exE conjE)
        fix ios cs'
        assume "run_cells E C cs1 raws = (ios, cs')" "target_bytes t ios = ?rest"
          "in_step (cc_hops c') cs'" "connected (cc_circuitID c') t cs'"
        then show ?thesis using f by (intro disjI1) simp
      next
        fix n ios cs'
        assume "n < length raws" "run_cells E C cs1 (take n raws) = (ios, cs')"
          "target_bytes t ios = take (n * maxRelayDataPayload) ?rest" "misreads C cs' (raws ! n)"
          "target_bytes t (fst (run_forward E C cs' (raws ! n))) = []"
        then show ?thesis
          using f by (intro disjI2 exI [of _ "Suc n"]) (simp add: take_add)
      qed
      ultimately show ?thesis by blast
    qed
  qed
qed

text \<open>
  C1: a circuit delivers the stream, or a relay misreads a cell. Whatever the client writes to a circuit of at most five
  relays that is in step with it is accepted whole. Either the relays, each removing its own layer,
  write exactly these bytes in this order to the target, and afterwards client and relays are in step
  again; or there is a first cell \<open>n\<close> that a relay before the last one misreads: the ciphertext it should pass on
  starts with the four magic bytes, by which a relay knows its own commands. Then exactly the bytes of the \<open>n\<close>
  cells before it have reached the target, and nothing of this cell does.
\<close>

theorem client_Write_delivers:
  assumes "aead_ok C" "length (cc_circuitID c) = 16" "length (cc_hops c) \<le> maxRelayLayers"
    and "in_step (cc_hops c) cs" "connected (cc_circuitID c) t cs"
  shows "\<exists>raws c'. client_Write C c p = (raws, length p, None, c') \<and>
     ((\<exists>ios cs'. run_cells E C cs raws = (ios, cs') \<and> target_bytes t ios = p \<and>
        in_step (cc_hops c') cs' \<and> connected (cc_circuitID c') t cs') \<or>
      (\<exists>n ios cs'. n < length raws \<and> run_cells E C cs (take n raws) = (ios, cs') \<and>
        target_bytes t ios = take (n * maxRelayDataPayload) p \<and> misreads C cs' (raws ! n) \<and>
        target_bytes t (fst (run_forward E C cs' (raws ! n))) = []))"
  using assms by (rule client_Write_delivers_aux)

definition demo_keys :: "byte \<Rightarrow> circuitKeyState" where
  "demo_keys b = \<lparr>forward = [b], backward = [b, b], forwardCounter = 0, backwardCounter = 0\<rparr>"

definition demo_conn :: clientCircuitConn where
  "demo_conn = \<lparr>cc_circuitID = replicate 16 9,
     cc_hops = [\<lparr>hop_relay = demo_relay, hop_keys = demo_keys 1\<rparr>, \<lparr>hop_relay = demo_relay, hop_keys = demo_keys 2\<rparr>],
     cc_readBuf = []\<rparr>"

definition demo_relays :: "relayCircuit list" where
  "demo_relays =
     [\<lparr>rc_nodeID = ''A'', rc_circuitID = replicate 16 9, rc_label = [], rc_keys = demo_keys 1,
        rc_outbound = Some 5, rc_targetConn = None\<rparr>,
      \<lparr>rc_nodeID = ''B'', rc_circuitID = replicate 16 9, rc_label = [], rc_keys = demo_keys 2,
        rc_outbound = None, rc_targetConn = Some 7\<rparr>]"

definition demo_env :: relay_env where
  "demo_env = \<lparr>json_extend = (\<lambda>_. None), json_begin = (\<lambda>_. None), error_json = (\<lambda>_. []),
     dial_relay = (\<lambda>_ _. None), dial_target = (\<lambda>_. None)\<rparr>"

lemma demo_connected:
  "length (cc_circuitID demo_conn) = 16" "length (cc_hops demo_conn) \<le> maxRelayLayers"
  "in_step (cc_hops demo_conn) demo_relays" "connected (cc_circuitID demo_conn) 7 demo_relays"
  by (simp_all add: demo_conn_def demo_relays_def in_step_def)

lemma length_run_forward: "length (snd (run_forward E C cs raw)) = length cs"
  by (induction cs arbitrary: raw) (simp_all add: case_prod_beta split: sum.split list.split relay_io.split)

lemma length_run_cells: "length (snd (run_cells E C cs raws)) = length cs"
proof (induction E C cs raws rule: run_cells.induct)
  case (2 E C cs raw raws)
  then show ?case using length_run_forward [of E C cs raw] by (auto split: prod.splits)
qed simp

lemma client_Write_raws:
  "aead_ok C \<Longrightarrow> length (cc_hops c) \<le> maxRelayLayers \<Longrightarrow> raw \<in> set (fst (client_Write C c p)) \<Longrightarrow>
   \<exists>hops e. length hops = length (cc_hops c) \<and>
     writeCell \<lparr>cl_Type = cellTypeRelay, cl_CircuitID = cc_circuitID c, cl_Payload = fst (seal_layers C hops e)\<rparr> = Inr raw"
proof (induction "length p" arbitrary: c p rule: less_induct)
  case less
  then have "p \<noteq> []" by (auto simp: client_Write.simps)
  let ?e = "envelope relayCmdData (take maxRelayDataPayload p)"
  let ?c1 = "c\<lparr>cc_hops := snd (seal_layers C (cc_hops c) ?e)\<rparr>" and ?rest = "drop maxRelayDataPayload p"
  obtain raw0 where r: "writeCell \<lparr>cl_Type = cellTypeRelay, cl_CircuitID = cc_circuitID c,
       cl_Payload = fst (seal_layers C (cc_hops c) ?e)\<rparr> = Inr raw0"
    and w: "client_Write C c p = (case client_Write C ?c1 ?rest of
       (raws, m, err, c') \<Rightarrow> (raw0 # raws, length (take maxRelayDataPayload p) + m, err, c'))"
    by (rule client_Write_step [OF less.prems(1,2) \<open>p \<noteq> []\<close>])
  from less.prems(3) w consider "raw = raw0" | "raw \<in> set (fst (client_Write C ?c1 ?rest))"
    by (auto split: prod.splits)
  then show ?case
  proof cases
    case 1
    then show ?thesis using r by blast
  next
    case 2
    have "\<exists>hops e. length hops = length (cc_hops ?c1) \<and>
      writeCell \<lparr>cl_Type = cellTypeRelay, cl_CircuitID = cc_circuitID ?c1, cl_Payload = fst (seal_layers C hops e)\<rparr> = Inr raw"
      using less.prems(1,2) 2 \<open>p \<noteq> []\<close> by (intro less.hyps) auto
    then show ?thesis by simp
  qed
qed

lemma relayMagic_0: "relayMagic ! 0 \<noteq> 0"
  by (simp add: relayMagic_def bytes_of_def)

lemma demo_not_misread:
  assumes "raw \<in> set (fst (client_Write demo_crypto demo_conn p))" "length cs = 2"
  shows "\<not> misreads demo_crypto cs raw"
proof -
  obtain hops e where "length hops = 2" and raw: "writeCell \<lparr>cl_Type = cellTypeRelay, cl_CircuitID = cc_circuitID demo_conn,
      cl_Payload = fst (seal_layers demo_crypto hops e)\<rparr> = Inr raw"
    using client_Write_raws [OF demo_crypto_ok(1) demo_connected(2) assms(1)] by (auto simp: demo_conn_def numeral_2_eq_2)
  then obtain h h' where "hops = [h, h']" by (auto simp: numeral_2_eq_2 length_Suc_conv)
  then have p: "fst (seal_layers demo_crypto hops e) = replicate 16 0 @ replicate 16 0 @ e" by (simp add: demo_crypto_def)
  have rd: "readCell raw = Inr (\<lparr>cl_Type = cellTypeRelay, cl_CircuitID = cc_circuitID demo_conn,
      cl_Payload = replicate 16 0 @ replicate 16 0 @ e\<rparr>, [])"
    using readCell_written [OF demo_connected(1) raw, of "[]"] by (simp add: p)
  have d: "decodeRelayEnvelope (replicate 16 0 @ e) = Inr None"
    using relayMagic_0 by (simp add: decodeRelayEnvelope_def nth_append)
  obtain c c' where "cs = [c, c']" using assms(2) by (auto simp: numeral_2_eq_2 length_Suc_conv)
  then show ?thesis by (simp add: rd openForward_def demo_crypto_def d Let_def split: sum.splits)
qed

theorem client_Write_delivers_witness:
  "\<exists>raws c' ios cs'. client_Write demo_crypto demo_conn (replicate 2000 3) = (raws, 2000, None, c') \<and>
    run_cells demo_env demo_crypto demo_relays raws = (ios, cs') \<and> target_bytes 7 ios = replicate 2000 3"
proof -
  from client_Write_delivers [OF demo_crypto_ok(1) demo_connected, where p = "replicate 2000 3" and E = demo_env]
  obtain raws c' where w: "client_Write demo_crypto demo_conn (replicate 2000 3) = (raws, 2000, None, c')"
    and d: "(\<exists>ios cs'. run_cells demo_env demo_crypto demo_relays raws = (ios, cs') \<and> target_bytes 7 ios = replicate 2000 3) \<or>
      (\<exists>n ios cs'. n < length raws \<and> run_cells demo_env demo_crypto demo_relays (take n raws) = (ios, cs') \<and>
        misreads demo_crypto cs' (raws ! n))" unfolding length_replicate by blast
  have "\<not> misreads demo_crypto cs' (raws ! n)"
    if "n < length raws" "run_cells demo_env demo_crypto demo_relays (take n raws) = (ios, cs')" for n ios cs'
    using that length_run_cells [of demo_env demo_crypto demo_relays "take n raws"] w
    by (intro demo_not_misread [of _ "replicate 2000 3"]) (simp_all add: demo_relays_def)
  with w d show ?thesis by blast
qed

text \<open>It does happen: an instance where every ciphertext starts with the magic.\<close>

definition demo_magic :: cryptolib where
  "demo_magic = demo_crypto\<lparr>gcm_seal := (\<lambda>k n p. relayMagic @ replicate 12 0 @ p),
     gcm_open := (\<lambda>k n c. if length c \<ge> 16 \<and> take 16 c = relayMagic @ replicate 12 0 then Some (drop 16 c) else None)\<rparr>"

lemma demo_magic_ok: "aead_ok demo_magic"
  by (simp add: aead_ok_def demo_magic_def)

lemma demo_cell_lost:
  "\<exists>raw c'. client_Write demo_magic demo_conn [1, 2, 3] = ([raw], 3, None, c') \<and>
     misreads demo_magic demo_relays raw \<and> target_bytes 7 (fst (run_forward demo_env demo_magic demo_relays raw)) = []"
proof -
  let ?e = "envelope relayCmdData [1, 2, 3]"
  have p: "fst (seal_layers demo_magic (cc_hops demo_conn) ?e) = relayMagic @ replicate 12 0 @ relayMagic @ replicate 12 0 @ ?e"
    by (simp add: demo_conn_def demo_magic_def)
  obtain raw where raw: "writeCell \<lparr>cl_Type = cellTypeRelay, cl_CircuitID = cc_circuitID demo_conn,
       cl_Payload = fst (seal_layers demo_magic (cc_hops demo_conn) ?e)\<rparr> = Inr raw"
    and w: "\<exists>c'. client_Write demo_magic demo_conn [1, 2, 3] = ([raw], 3, None, c')"
    by (rule client_Write_step [OF demo_magic_ok demo_connected(2), of "[1, 2, 3]"]) (auto simp: client_Write.simps [of _ _ "[]"])
  have rd: "readCell raw = Inr (\<lparr>cl_Type = cellTypeRelay, cl_CircuitID = cc_circuitID demo_conn,
      cl_Payload = relayMagic @ replicate 12 0 @ relayMagic @ replicate 12 0 @ ?e\<rparr>, [])"
    using readCell_written [OF demo_connected(1) raw, of "[]"] by (simp add: p)
  have "decodeRelayEnvelope (relayMagic @ replicate 12 0 @ ?e) \<noteq> Inr None"
    by (simp add: decodeRelayEnvelope_def nth_append Let_def)
  then have m: "misreads demo_magic demo_relays raw"
    by (simp add: demo_relays_def demo_conn_def rd openForward_def demo_magic_def Let_def)
  from misread_cell_lost [OF demo_connected(4) m] w m show ?thesis by blast
qed

section \<open>Backward\<close>

text \<open>The data of the target passed back by the relays before the last one, the last of them first.\<close>

fun pass_back :: "relay_env \<Rightarrow> cryptolib \<Rightarrow> relayCircuit list \<Rightarrow> bytes \<Rightarrow> (bytes \<times> relayCircuit list) option" where
  "pass_back E C [] raw = Some (raw, [])"
| "pass_back E C (c # cs) raw = (case pass_back E C cs raw of
     None \<Rightarrow> None
   | Some (raw1, cs1) \<Rightarrow>
       (case readCell raw1 of
          Inl _ \<Rightarrow> None
        | Inr (cl, _) \<Rightarrow>
            (case pumpOutbound_cell E C c (the (rc_outbound c)) (Inr cl) of
               ([WriteInbound raw2], c1, True) \<Rightarrow> Some (raw2, c1 # cs1)
             | _ \<Rightarrow> None)))"

abbreviation bump_backward :: "circuitKeyState \<Rightarrow> circuitKeyState" where
  "bump_backward k \<equiv> k\<lparr>backwardCounter := backwardCounter k + 1\<rparr>"

fun seal_back :: "cryptolib \<Rightarrow> circuitKeyState list \<Rightarrow> bytes \<Rightarrow> bytes" where
  "seal_back C [] p = p"
| "seal_back C (k # ks) p = gcm_seal C (backward k) (counterNonce (backwardCounter k)) (seal_back C ks p)"

lemma length_seal_back [simp]: "aead_ok C \<Longrightarrow> length (seal_back C ks p) = length p + relayTagSize * length ks"
  by (induction ks) simp_all

lemma seal_back_append: "seal_back C (ks @ ks') p = seal_back C ks (seal_back C ks' p)"
  by (induction ks) simp_all

lemma open_seal_back:
  "aead_ok C \<Longrightarrow> map hop_keys hops = ks \<Longrightarrow>
   \<exists>hops'. open_layers C hops (seal_back C ks p) = (Inr p, hops') \<and> map hop_keys hops' = map bump_backward ks"
proof (induction hops arbitrary: ks)
  case (Cons h hops)
  then show ?case by (fastforce simp: openBackward_def Let_def)
qed simp

lemma send_inbound_ok:
  assumes "writeCell \<lparr>cl_Type = cellTypeRelay, cl_CircuitID = rc_circuitID c,
      cl_Payload = gcm_seal C (backward (rc_keys c)) (counterNonce (backwardCounter (rc_keys c))) p\<rparr> = Inr raw"
  shows "send_inbound C c p = ([WriteInbound raw], c\<lparr>rc_keys := bump_backward (rc_keys c)\<rparr>, None)"
  using assms by (simp add: send_inbound_def sealBackward_def writeInbound_def)

lemma pass_back_ok:
  assumes "aead_ok C" "length circuitID = 16" "\<forall>c \<in> set cs. rc_circuitID c = circuitID"
    and "length p + relayTagSize * length cs \<le> cellPayloadSize"
    and "writeCell \<lparr>cl_Type = cellTypeRelay, cl_CircuitID = circuitID, cl_Payload = p\<rparr> = Inr raw"
  shows "\<exists>raw'. pass_back E C cs raw = Some (raw', map (\<lambda>c. c\<lparr>rc_keys := bump_backward (rc_keys c)\<rparr>) cs) \<and>
    writeCell \<lparr>cl_Type = cellTypeRelay, cl_CircuitID = circuitID, cl_Payload = seal_back C (map rc_keys cs) p\<rparr> = Inr raw'"
  using assms(3,4)
proof (induction cs)
  case Nil
  then show ?case using assms(5) by simp
next
  case (Cons c cs)
  let ?k = "rc_keys c" and ?p = "seal_back C (map rc_keys cs) p"
  obtain raw1 where r1: "pass_back E C cs raw = Some (raw1, map (\<lambda>c. c\<lparr>rc_keys := bump_backward (rc_keys c)\<rparr>) cs)"
    "writeCell \<lparr>cl_Type = cellTypeRelay, cl_CircuitID = circuitID, cl_Payload = ?p\<rparr> = Inr raw1"
    using Cons by auto
  have "length (gcm_seal C (backward ?k) (counterNonce (backwardCounter ?k)) ?p) \<le> cellPayloadSize"
    using Cons.prems(2) assms(1) by simp
  then obtain raw2 where r2: "writeCell \<lparr>cl_Type = cellTypeRelay, cl_CircuitID = circuitID,
      cl_Payload = gcm_seal C (backward ?k) (counterNonce (backwardCounter ?k)) ?p\<rparr> = Inr raw2" by (rule writeCell_fits)
  then have "send_inbound C c ?p = ([WriteInbound raw2], c\<lparr>rc_keys := bump_backward ?k\<rparr>, None)"
    using Cons.prems(1) by (intro send_inbound_ok) simp
  then show ?case
    using r1(1) r2 readCell_written [OF assms(2) r1(2), of "[]"] by (simp add: pumpOutbound_cell_def)
qed

text \<open>
  C2: a circuit returns the answers. A chunk the last relay reads from the target is sealed by it
  and by every relay on the way back and fits into a cell; the client opens all the layers and
  hands exactly this chunk to its reader, and client and relays are in step again.
\<close>

theorem target_data_returns:
  assumes "aead_ok C" "length circuitID = 16" "cc_circuitID c = circuitID"
    and "length (cc_hops c) \<le> maxRelayLayers" "in_step (cc_hops c) (cs @ [d])"
    and "\<forall>r \<in> set (cs @ [d]). rc_circuitID r = circuitID"
    and "0 < length chunk" "length chunk \<le> maxRelayDataPayload"
  shows "\<exists>raw d' raw' cs' cl c'.
    pumpTarget_read C d t chunk False = ([WriteInbound raw], d', True) \<and>
    pass_back E C cs raw = Some (raw', cs') \<and> readCell raw' = Inr (cl, []) \<and>
    readPump_step relay_error C c (Inr cl) = (Chunk chunk, c') \<and> in_step (cc_hops c') (cs' @ [d'])"
proof -
  let ?e = "envelope relayCmdData chunk" and ?k = "rc_keys d"
  let ?p = "gcm_seal C (backward ?k) (counterNonce (backwardCounter ?k)) ?e"
  have n: "length cs + 1 \<le> maxRelayLayers" using assms(4,5) by (auto simp: in_step_def dest!: arg_cong [where f = length])
  then have "length ?p \<le> cellPayloadSize" using assms(1,8) by simp
  then obtain raw where raw: "writeCell \<lparr>cl_Type = cellTypeRelay, cl_CircuitID = circuitID, cl_Payload = ?p\<rparr> = Inr raw"
    by (rule writeCell_fits)
  then have "sendBackwardPlain C d relayCmdData chunk = ([WriteInbound raw], d\<lparr>rc_keys := bump_backward ?k\<rparr>, None)"
    using assms(6) by (simp add: sendBackwardPlain_def encodeRelayEnvelope_ok [OF assms(8)] send_inbound_ok)
  then have t: "pumpTarget_read C d t chunk False = ([WriteInbound raw], d\<lparr>rc_keys := bump_backward ?k\<rparr>, True)"
    using assms(7) by (simp add: pumpTarget_read_def)
  let ?cs' = "map (\<lambda>c. c\<lparr>rc_keys := bump_backward (rc_keys c)\<rparr>) cs"
  have "length ?p + relayTagSize * length cs \<le> cellPayloadSize" using n assms(1,8) by simp
  from pass_back_ok [OF assms(1,2) _ this raw] assms(6) obtain raw' where b: "pass_back E C cs raw = Some (raw', ?cs')"
    "writeCell \<lparr>cl_Type = cellTypeRelay, cl_CircuitID = circuitID, cl_Payload = seal_back C (map rc_keys cs) ?p\<rparr> = Inr raw'"
    by auto
  let ?cl = "\<lparr>cl_Type = cellTypeRelay, cl_CircuitID = circuitID, cl_Payload = seal_back C (map rc_keys cs) ?p\<rparr> :: cell"
  have rd: "readCell raw' = Inr (?cl, [])" using readCell_written [OF assms(2) b(2), of "[]"] by simp
  have "seal_back C (map rc_keys cs) ?p = seal_back C (map rc_keys (cs @ [d])) ?e" by (simp add: seal_back_append)
  with open_seal_back [OF assms(1), of "cc_hops c" "map rc_keys (cs @ [d])" ?e] assms(5)
  obtain hops' where o: "open_layers C (cc_hops c) (cl_Payload ?cl) = (Inr ?e, hops')"
    "map hop_keys hops' = map bump_backward (map rc_keys (cs @ [d]))" by (auto simp: in_step_def)
  have "readPump_step relay_error C c (Inr ?cl) = (Chunk chunk, c\<lparr>cc_hops := hops'\<rparr>)"
    using o(1) decode_envelope [OF assms(8), of relayCmdData "[]"] by (simp add: readPump_step_def unwrap_def)
  moreover have "in_step hops' (?cs' @ [d\<lparr>rc_keys := bump_backward ?k\<rparr>])" using o(2) by (simp add: in_step_def)
  ultimately show ?thesis using t b rd by (auto intro!: exI)
qed

theorem target_data_returns_witness:
  "\<exists>raw d' raw' cs' cl c'.
    pumpTarget_read demo_crypto (demo_relays ! 1) 7 [1, 2, 3] False = ([WriteInbound raw], d', True) \<and>
    pass_back demo_env demo_crypto [demo_relays ! 0] raw = Some (raw', cs') \<and> readCell raw' = Inr (cl, []) \<and>
    readPump_step (\<lambda>_. CircuitEOF) demo_crypto demo_conn (Inr cl) = (Chunk [1, 2, 3], c')"
proof -
  have "in_step (cc_hops demo_conn) ([demo_relays ! 0] @ [demo_relays ! 1])"
    "\<forall>r \<in> set ([demo_relays ! 0] @ [demo_relays ! 1]). rc_circuitID r = cc_circuitID demo_conn"
    by (simp_all add: demo_conn_def demo_relays_def in_step_def)
  from target_data_returns [OF demo_crypto_ok(1) demo_connected(1) refl demo_connected(2) this, of "[1, 2, 3]"]
  show ?thesis by fastforce
qed

end
