(* ===== verification/Session.thy ===== *)
theory Session
  imports Records
begin

text \<open>
  \<^verbatim>\<open>internal/secure/session.go\<close>: the authenticated key exchange and the encrypted stream over a
  connection. The ephemeral private key is an argument of \<open>handshake\<close>; the JSON text of the hello
  message (\<^verbatim>\<open>encoding/json\<close>) is the parameter \<open>J\<close>. A handshake returns the bytes it wrote to the
  connection and its result; the result carries what is left to read.
\<close>

section \<open>Messages and keys\<close>

abbreviation (input) maxHandshakeSize :: u32 where "maxHandshakeSize \<equiv> 8 * 1024"
abbreviation (input) maxChunkSize :: nat where "maxChunkSize \<equiv> 32 * 1024"
abbreviation (input) sessionVersion :: byte where "sessionVersion \<equiv> 2"

record hello =
  h_Version :: byte
  h_NodeID :: string
  h_PublicKey :: string
  h_Ephemeral :: string
  h_Signature :: string

record hello_json =
  hello_Marshal :: "hello \<Rightarrow> bytes"
  hello_Unmarshal :: "bytes \<Rightarrow> hello option"

record Conn =
  aead :: bytes
  readCounter :: u64
  writeCtr :: u64
  readBuf :: bytes
  writeDir :: byte
  readDir :: byte
  localNodeID :: string
  peerNodeID :: string
  peerPublicKey :: bytes

datatype session_error =
    FrameError proto_error
  | HelloDecode
  | HelloPublicKey
  | HelloSignatureEncoding
  | HelloEphemeral
  | HelloNodeIDMismatch
  | HelloSignatureFailed
  | VerifyPanic
  | FrameWrite
  | PeerVersion byte
  | RemoteEphemeralKey
  | SharedKeyFailed
  | RemoteStaticKey
  | SessionKey
  | CreateCipher
  | DecryptChunk
  | ExpectedKeyInvalid
  | UnexpectedNodeID string string
  | UnexpectedPublicKey string

definition newline :: byte where
  "newline = 10"

definition session_signingPayload :: "byte \<Rightarrow> byte \<Rightarrow> string \<Rightarrow> bytes \<Rightarrow> bytes" where
  "session_signingPayload version kind nodeID eph =
     bytes_of ''vx6-secure'' @ [newline, version, newline, kind, newline] @ bytes_of nodeID @ [newline] @ eph"

definition nonce :: "byte \<Rightarrow> u64 \<Rightarrow> bytes" where
  "nonce dir counter = [dir, 0, 0, 0] @ PutUint64 counter"

definition buildTranscript :: "byte \<Rightarrow> bytes \<Rightarrow> bytes \<Rightarrow> bytes \<Rightarrow> bytes \<Rightarrow> bool \<Rightarrow> bytes" where
  "buildTranscript kind localEph remoteEph localStaticPub remoteStaticPub initiator =
     (let (clientEph, serverEph, clientPub, serverPub) =
        (if initiator then (localEph, remoteEph, localStaticPub, remoteStaticPub)
         else (remoteEph, localEph, remoteStaticPub, localStaticPub))
      in bytes_of ''vx6-transcript-v2'' @ [newline, kind, newline] @ clientPub @ [newline] @ serverPub @ [newline] @
         clientEph @ serverEph)"

definition session_deriveKey :: "golib \<Rightarrow> cryptolib \<Rightarrow> bytes \<Rightarrow> bytes \<Rightarrow> bytes option" where
  "session_deriveKey G C sharedSecret transcript = hkdf_key C sharedSecret (sha256 G transcript) ''vx6-session-v2'' 32"

definition buildHello :: "golib \<Rightarrow> Identity \<Rightarrow> byte \<Rightarrow> bytes \<Rightarrow> hello" where
  "buildHello G i kind eph =
     \<lparr>h_Version = sessionVersion, h_NodeID = id_NodeID i,
      h_PublicKey = b64_encode StdEncoding (id_PublicKey i),
      h_Ephemeral = b64_encode StdEncoding eph,
      h_Signature = b64_encode StdEncoding
        (ed25519_sign G (id_PrivateKey i) (session_signingPayload sessionVersion kind (id_NodeID i) eph))\<rparr>"

definition ephemeralBytes :: "hello \<Rightarrow> session_error + bytes" where
  "ephemeralBytes h = (case b64_decode StdEncoding (h_Ephemeral h) of None \<Rightarrow> Inl HelloEphemeral | Some eph \<Rightarrow> Inr eph)"

definition writeHello :: "hello_json \<Rightarrow> hello \<Rightarrow> bytes" where
  "writeHello J h = WriteLengthPrefixed (hello_Marshal J h)"

text \<open>
  \<^verbatim>\<open>ed25519.Verify\<close> panics when the public key does not have 32 bytes, and \<^verbatim>\<open>readHello\<close> does not look at the
  length before the call. The panic is the value \<open>VerifyPanic\<close>.
\<close>

definition readHello :: "golib \<Rightarrow> hello_json \<Rightarrow> byte \<Rightarrow> bytes \<Rightarrow> session_error + (hello \<times> bytes)" where
  "readHello G J kind r =
     (case ReadLengthPrefixed r maxHandshakeSize of Inl e \<Rightarrow> Inl (FrameError e) | Inr (payload, r') \<Rightarrow>
      (case hello_Unmarshal J payload of None \<Rightarrow> Inl HelloDecode | Some h \<Rightarrow>
       (case b64_decode StdEncoding (h_PublicKey h) of None \<Rightarrow> Inl HelloPublicKey | Some pub \<Rightarrow>
        (case b64_decode StdEncoding (h_Signature h) of None \<Rightarrow> Inl HelloSignatureEncoding | Some sig \<Rightarrow>
         (case ephemeralBytes h of Inl e \<Rightarrow> Inl e | Inr eph \<Rightarrow>
           if NodeIDFromPublicKey G pub \<noteq> h_NodeID h then Inl HelloNodeIDMismatch
           else if length pub \<noteq> 32 then Inl VerifyPanic
           else if \<not> ed25519_verify G pub (session_signingPayload (h_Version h) kind (h_NodeID h) eph) sig
           then Inl HelloSignatureFailed
           else Inr (h, r'))))))"

section \<open>The handshake\<close>

text \<open>The part of \<^verbatim>\<open>handshake\<close> after both hellos: derive the key and make the connection.\<close>

definition establish ::
  "golib \<Rightarrow> cryptolib \<Rightarrow> byte \<Rightarrow> Identity \<Rightarrow> bool \<Rightarrow> bytes \<Rightarrow> hello \<Rightarrow> session_error + Conn" where
  "establish G C kind i initiator priv remoteHello =
     (case ephemeralBytes remoteHello of Inl e \<Rightarrow> Inl e | Inr remoteEph \<Rightarrow>
      (case NewPublicKey remoteEph of None \<Rightarrow> Inl RemoteEphemeralKey | Some remotePub \<Rightarrow>
       (case x25519_ecdh C priv remotePub of None \<Rightarrow> Inl SharedKeyFailed | Some shared \<Rightarrow>
        (case b64_decode StdEncoding (h_PublicKey remoteHello) of None \<Rightarrow> Inl RemoteStaticKey | Some remoteStaticPub \<Rightarrow>
         (let transcript = buildTranscript kind (x25519_public C priv) remoteEph (id_PublicKey i) remoteStaticPub initiator
          in case session_deriveKey G C shared transcript of None \<Rightarrow> Inl SessionKey | Some key \<Rightarrow>
            (case NewCipher key of None \<Rightarrow> Inl CreateCipher | Some k \<Rightarrow>
              Inr \<lparr>aead = k, readCounter = 0, writeCtr = 0, readBuf = [],
                   writeDir = (if initiator then 0 else 1), readDir = (if initiator then 1 else 0),
                   localNodeID = id_NodeID i, peerNodeID = h_NodeID remoteHello, peerPublicKey = remoteStaticPub\<rparr>))))))"

definition handshake ::
  "golib \<Rightarrow> cryptolib \<Rightarrow> hello_json \<Rightarrow> byte \<Rightarrow> Identity \<Rightarrow> bool \<Rightarrow> bytes \<Rightarrow> bytes \<Rightarrow>
   bytes \<times> (session_error + (Conn \<times> bytes))" where
  "handshake G C J kind i initiator priv r =
     (let localHello = writeHello J (buildHello G i kind (x25519_public C priv));
          first = (if initiator then localHello else [])
      in case readHello G J kind r of
           Inl e \<Rightarrow> (first, Inl e)
         | Inr (remoteHello, r') \<Rightarrow>
             if h_Version remoteHello \<noteq> sessionVersion then (first, Inl (PeerVersion (h_Version remoteHello)))
             else
               (localHello,
                case establish G C kind i initiator priv remoteHello of
                  Inl e \<Rightarrow> Inl e
                | Inr c \<Rightarrow> Inr (c, r')))"

abbreviation "Client G C J kind i priv r \<equiv> handshake G C J kind i True priv r"
abbreviation "Server G C J kind i priv r \<equiv> handshake G C J kind i False priv r"

definition ClientExpected ::
  "golib \<Rightarrow> cryptolib \<Rightarrow> hello_json \<Rightarrow> byte \<Rightarrow> Identity \<Rightarrow> string \<Rightarrow> string \<Rightarrow> bytes \<Rightarrow> bytes \<Rightarrow>
   bytes \<times> (session_error + (Conn \<times> bytes))" where
  "ClientExpected G C J kind i nodeID publicKey priv r =
     (case Client G C J kind i priv r of
        (w, Inl e) \<Rightarrow> (w, Inl e)
      | (w, Inr (c, r')) \<Rightarrow>
          (w, case b64_decode StdEncoding publicKey of
                None \<Rightarrow> Inl ExpectedKeyInvalid
              | Some want \<Rightarrow>
                  if peerNodeID c \<noteq> nodeID \<or> peerPublicKey c \<noteq> want then
                    (if peerNodeID c \<noteq> nodeID then Inl (UnexpectedNodeID (peerNodeID c) nodeID)
                     else Inl (UnexpectedPublicKey nodeID))
                  else Inr (c, r')))"

section \<open>The encrypted stream\<close>

text \<open>
  \<^verbatim>\<open>Write\<close>. The connection below is the argument \<open>net\<close>: \<open>net j\<close> is \<open>None\<close> when the \<open>j\<close>-th frame of this
  call is written, and \<open>Some k\<close> when writing it fails after \<open>k\<close> of its bytes went out. The results are the
  bytes that went out, the connection, and what \<^verbatim>\<open>Write\<close> returns: the count of plaintext bytes and the error.
\<close>

function write_loop ::
  "cryptolib \<Rightarrow> (nat \<Rightarrow> nat option) \<Rightarrow> nat \<Rightarrow> Conn \<Rightarrow> bytes \<Rightarrow> bytes \<times> Conn \<times> nat \<times> session_error option" where
  "write_loop C net sent c p =
     (if p = [] then ([], c, sent, None)
      else
        let n = min (length p) maxChunkSize;
            frame = WriteLengthPrefixed (gcm_seal C (aead c) (nonce (writeDir c) (writeCtr c)) (take n p))
        in case net 0 of
             Some k \<Rightarrow> (take k frame, c, sent, Some FrameWrite)
           | None \<Rightarrow>
               let (w, res) = write_loop C (\<lambda>j. net (Suc j)) (sent + n) (c\<lparr>writeCtr := writeCtr c + 1\<rparr>) (drop n p)
               in (frame @ w, res))"
  by pat_completeness auto
termination
  by (relation "measure (\<lambda>(C, net, sent, c, p). length p)") auto

declare write_loop.simps [simp del]

definition Conn_Write ::
  "cryptolib \<Rightarrow> (nat \<Rightarrow> nat option) \<Rightarrow> Conn \<Rightarrow> bytes \<Rightarrow> bytes \<times> Conn \<times> nat \<times> session_error option" where
  "Conn_Write C net c p = write_loop C net 0 c p"

text \<open>A connection that takes every byte.\<close>

abbreviation reliable :: "nat \<Rightarrow> nat option" where
  "reliable \<equiv> (\<lambda>_. None)"

text \<open>\<^verbatim>\<open>Read\<close> into a buffer of \<^verbatim>\<open>m\<close> bytes: the bytes copied, the connection and the rest of the stream.\<close>

definition Conn_Read :: "cryptolib \<Rightarrow> Conn \<Rightarrow> nat \<Rightarrow> bytes \<Rightarrow> session_error + (bytes \<times> Conn \<times> bytes)" where
  "Conn_Read C c m r =
     (case (if readBuf c = [] then
              (case ReadLengthPrefixed r (word_of_nat (maxChunkSize + 1024)) of
                 Inl e \<Rightarrow> Inl (FrameError e)
               | Inr (payload, r') \<Rightarrow>
                   (case gcm_open C (aead c) (nonce (readDir c) (readCounter c)) payload of
                      None \<Rightarrow> Inl DecryptChunk
                    | Some plain \<Rightarrow> Inr (c\<lparr>readCounter := readCounter c + 1, readBuf := plain\<rparr>, r')))
            else Inr (c, r)) of
        Inl e \<Rightarrow> Inl e
      | Inr (c1, r1) \<Rightarrow> Inr (take m (readBuf c1), c1\<lparr>readBuf := drop m (readBuf c1)\<rparr>, r1))"

section \<open>A connection as a queue of bytes\<close>

text \<open>
  What the code above a connection relies on: written bytes come out at the other end in order,
  and a read of a non-empty queue returns some of them. \<^verbatim>\<open>io.ReadFull\<close> loops over \<^verbatim>\<open>Read\<close>.
\<close>

fun read_loop :: "('s \<Rightarrow> nat \<Rightarrow> (bytes \<times> 's) option) \<Rightarrow> nat \<Rightarrow> nat \<Rightarrow> 's \<Rightarrow> (bytes \<times> 's) option" where
  "read_loop rd fuel 0 s = Some ([], s)"
| "read_loop rd 0 (Suc n) s = None"
| "read_loop rd (Suc fuel) (Suc n) s = (case rd s (Suc n) of
     None \<Rightarrow> None
   | Some (bs, s') \<Rightarrow>
       (case read_loop rd fuel (Suc n - length bs) s' of
          None \<Rightarrow> None
        | Some (bs', s'') \<Rightarrow> Some (bs @ bs', s'')))"

locale byte_channel =
  fixes holds :: "'s \<Rightarrow> bytes \<Rightarrow> bool"
    and wr :: "'s \<Rightarrow> bytes \<Rightarrow> 's"
    and rd :: "'s \<Rightarrow> nat \<Rightarrow> (bytes \<times> 's) option"
  assumes wr_holds: "holds s q \<Longrightarrow> holds (wr s p) (q @ p)"
    and rd_holds: "holds s q \<Longrightarrow> q \<noteq> [] \<Longrightarrow> 0 < m \<Longrightarrow>
      \<exists>n s'. 0 < n \<and> n \<le> m \<and> n \<le> length q \<and> rd s m = Some (take n q, s') \<and> holds s' (drop n q)"
begin

lemma writes_hold: "holds s q \<Longrightarrow> holds (foldl wr s ps) (q @ concat ps)"
proof (induction ps arbitrary: s q)
  case (Cons p ps)
  then show ?case using Cons.IH [OF wr_holds [OF Cons.prems]] by simp
qed simp

lemma read_loop_holds:
  "holds s q \<Longrightarrow> n \<le> length q \<Longrightarrow> n \<le> fuel \<Longrightarrow>
   \<exists>s'. read_loop rd fuel n s = Some (take n q, s') \<and> holds s' (drop n q)"
proof (induction fuel arbitrary: n s q)
  case 0
  then show ?case by simp
next
  case (Suc fuel)
  show ?case
  proof (cases n)
    case 0
    then show ?thesis using Suc.prems by simp
  next
    case (Suc n')
    then have "q \<noteq> []" using Suc.prems(2) by auto
    then obtain k s' where k: "0 < k" "k \<le> n" "k \<le> length q" "rd s n = Some (take k q, s')" "holds s' (drop k q)"
      using rd_holds [OF Suc.prems(1), of n] Suc by blast
    have "n - k \<le> length (drop k q)" "n - k \<le> fuel" using k Suc.prems(2,3) by auto
    from Suc.IH [OF k(5) this] obtain s'' where "read_loop rd fuel (n - k) s' = Some (take (n - k) (drop k q), s'')"
        "holds s'' (drop (n - k) (drop k q))" by blast
    then show ?thesis using k take_add [of k "n - k" q] by (simp add: Suc)
  qed
qed

end

text \<open>The frames of a list of chunks, and the two ends of a connection with the bytes in flight.\<close>

fun frames :: "cryptolib \<Rightarrow> bytes \<Rightarrow> byte \<Rightarrow> u64 \<Rightarrow> bytes list \<Rightarrow> bytes" where
  "frames C k dir n [] = []"
| "frames C k dir n (x # xs) = WriteLengthPrefixed (gcm_seal C k (nonce dir n) x) @ frames C k dir (n + 1) xs"

function chunks :: "bytes \<Rightarrow> bytes list" where
  "chunks p = (if p = [] then [] else take maxChunkSize p # chunks (drop maxChunkSize p))"
  by pat_completeness auto
termination
  by (relation "measure length") auto

declare chunks.simps [simp del]

definition good_chunk :: "bytes \<Rightarrow> bool" where
  "good_chunk x \<longleftrightarrow> x \<noteq> [] \<and> length x \<le> maxChunkSize"

definition carries :: "cryptolib \<Rightarrow> Conn \<times> Conn \<times> bytes \<Rightarrow> bytes \<Rightarrow> bool" where
  "carries C s q \<longleftrightarrow> aead_ok C \<and> (case s of (a, b, r) \<Rightarrow>
     \<exists>xs. r = frames C (aead b) (readDir b) (readCounter b) xs \<and> (\<forall>x \<in> set xs. good_chunk x) \<and>
       q = readBuf b @ concat xs \<and> aead a = aead b \<and> writeDir a = readDir b \<and>
       writeCtr a = readCounter b + of_nat (length xs))"

definition channel_write :: "cryptolib \<Rightarrow> Conn \<times> Conn \<times> bytes \<Rightarrow> bytes \<Rightarrow> Conn \<times> Conn \<times> bytes" where
  "channel_write C s p = (case s of (a, b, r) \<Rightarrow> case Conn_Write C reliable a p of (w, a', _) \<Rightarrow> (a', b, r @ w))"

definition channel_read :: "cryptolib \<Rightarrow> Conn \<times> Conn \<times> bytes \<Rightarrow> nat \<Rightarrow> (bytes \<times> (Conn \<times> Conn \<times> bytes)) option" where
  "channel_read C s m = (case s of (a, b, r) \<Rightarrow>
     (case Conn_Read C b m r of Inl e \<Rightarrow> None | Inr (bs, b', r') \<Rightarrow> Some (bs, (a, b', r'))))"

lemma concat_chunks [simp]: "concat (chunks p) = p"
  by (induction p rule: chunks.induct) (subst chunks.simps, simp)

lemma good_chunks: "x \<in> set (chunks p) \<Longrightarrow> good_chunk x"
proof (induction p rule: chunks.induct)
  case (1 p)
  then show ?case by (subst (asm) chunks.simps) (auto simp: good_chunk_def split: if_splits)
qed

lemma frames_append: "frames C k d n (xs @ ys) = frames C k d n xs @ frames C k d (n + of_nat (length xs)) ys"
  by (induction xs arbitrary: n) (simp_all add: ac_simps)

lemma chunks_Cons: "p \<noteq> [] \<Longrightarrow> chunks p = take (min (length p) maxChunkSize) p # chunks (drop (min (length p) maxChunkSize) p)"
  by (subst chunks.simps) (simp add: min_def)

text \<open>Every frame is written, or the loop stops at a frame whose write fails and keeps its counter.\<close>

lemma write_loop_cases:
  assumes "write_loop C net t c p = (w, c', n, e)"
  shows "(\<forall>j < length (chunks p). net j = None) \<and> e = None \<and> n = t + length p \<and>
       w = frames C (aead c) (writeDir c) (writeCtr c) (chunks p) \<and>
       c' = c\<lparr>writeCtr := writeCtr c + of_nat (length (chunks p))\<rparr> \<or>
     (\<exists>j k. j < length (chunks p) \<and> (\<forall>i < j. net i = None) \<and> net j = Some k \<and> e = Some FrameWrite \<and>
       n = t + length (concat (take j (chunks p))) \<and>
       w = frames C (aead c) (writeDir c) (writeCtr c) (take j (chunks p)) @
           take k (WriteLengthPrefixed (gcm_seal C (aead c) (nonce (writeDir c) (writeCtr c + of_nat j)) (chunks p ! j))) \<and>
       c' = c\<lparr>writeCtr := writeCtr c + of_nat j\<rparr>)"
  using assms
proof (induction C net t c p arbitrary: w rule: write_loop.induct)
  case (1 C net t c p)
  show ?case
  proof (cases "p = []")
    case True
    then show ?thesis using "1.prems" by (auto simp: write_loop.simps chunks.simps)
  next
    case False
    let ?n = "min (length p) maxChunkSize" and ?c = "c\<lparr>writeCtr := writeCtr c + 1\<rparr>"
    let ?f = "WriteLengthPrefixed (gcm_seal C (aead c) (nonce (writeDir c) (writeCtr c)) (take ?n p))"
    show ?thesis
    proof (cases "net 0")
      case (Some k)
      then show ?thesis
        using "1.prems" False by (intro disjI2 exI [of _ 0] exI [of _ k]) (auto simp: write_loop.simps Let_def chunks_Cons)
    next
      case None
      obtain w1 where w1: "write_loop C (\<lambda>j. net (Suc j)) (t + ?n) ?c (drop ?n p) = (w1, c', n, e)" "w = ?f @ w1"
        using "1.prems" False None by (subst (asm) write_loop.simps) (auto simp: Let_def split: prod.splits)
      have all: "(\<forall>j < Suc m. net j = None) \<longleftrightarrow> (\<forall>j < m. net (Suc j) = None)" for m
        using None by (auto simp: less_Suc_eq_0_disj)
      note IH = "1.IH" [OF False refl refl None w1(1)]
      note C = chunks_Cons [OF False]
      show ?thesis
        using IH
      proof (elim disjE exE conjE)
        fix j k
        assume "j < length (chunks (drop ?n p))" "\<forall>i<j. net (Suc i) = None" "net (Suc j) = Some k" "e = Some FrameWrite"
          "n = t + ?n + length (concat (take j (chunks (drop ?n p))))"
          "w1 = frames C (aead ?c) (writeDir ?c) (writeCtr ?c) (take j (chunks (drop ?n p))) @ take k (WriteLengthPrefixed
            (gcm_seal C (aead ?c) (nonce (writeDir ?c) (writeCtr ?c + of_nat j)) (chunks (drop ?n p) ! j)))"
          "c' = ?c\<lparr>writeCtr := writeCtr ?c + of_nat j\<rparr>"
        then show ?thesis
          using w1(2) by (intro disjI2 exI [of _ "Suc j"] exI [of _ k]) (simp add: C all ac_simps)
      qed (use w1(2) in \<open>simp add: C all ac_simps\<close>)
    qed
  qed
qed

lemma Conn_Write_frames:
  "Conn_Write C reliable c p = (frames C (aead c) (writeDir c) (writeCtr c) (chunks p),
     c\<lparr>writeCtr := writeCtr c + of_nat (length (chunks p))\<rparr>, length p, None)"
  unfolding Conn_Write_def
  using write_loop_cases by (cases "write_loop C reliable 0 c p") fastforce

lemma frame_size: "unat (word_of_nat (maxChunkSize + 1024) :: u32) = maxChunkSize + 1024"
  by simp

lemma carries_write: "carries C s q \<Longrightarrow> carries C (channel_write C s p) (q @ p)"
proof (cases s)
  case (fields a b r)
  assume "carries C s q"
  then obtain xs where xs: "aead_ok C" "r = frames C (aead b) (readDir b) (readCounter b) xs" "\<forall>x \<in> set xs. good_chunk x"
    "q = readBuf b @ concat xs" "aead a = aead b" "writeDir a = readDir b" "writeCtr a = readCounter b + of_nat (length xs)"
    by (auto simp: carries_def fields)
  then show ?thesis
    unfolding carries_def channel_write_def fields
    by (auto simp: Conn_Write_frames frames_append good_chunks ac_simps intro!: exI [of _ "xs @ chunks p"])
qed

lemma Conn_Read_buffered:
  "readBuf c \<noteq> [] \<Longrightarrow> Conn_Read C c m r = Inr (take m (readBuf c), c\<lparr>readBuf := drop m (readBuf c)\<rparr>, r)"
  by (simp add: Conn_Read_def)

lemma Conn_Read_frame:
  assumes "aead_ok C" "readBuf c = []" "good_chunk x"
  shows "Conn_Read C c m (WriteLengthPrefixed (gcm_seal C (aead c) (nonce (readDir c) (readCounter c)) x) @ r) =
    Inr (take m x, c\<lparr>readCounter := readCounter c + 1, readBuf := drop m x\<rparr>, r)"
proof -
  let ?f = "gcm_seal C (aead c) (nonce (readDir c) (readCounter c)) x"
  have "0 < length ?f" "length ?f \<le> unat (word_of_nat (maxChunkSize + 1024) :: u32)"
    unfolding frame_size using assms by (simp_all add: good_chunk_def)
  note rl = ReadLengthPrefixed_append [OF this, of r]
  show ?thesis using assms(1,2) unfolding Conn_Read_def rl by simp
qed

lemma carries_read:
  assumes "carries C s q" "q \<noteq> []" "0 < m"
  shows "\<exists>n s'. 0 < n \<and> n \<le> m \<and> n \<le> length q \<and> channel_read C s m = Some (take n q, s') \<and> carries C s' (drop n q)"
proof (cases s)
  case (fields a b r)
  with assms(1) obtain xs where xs: "aead_ok C" "r = frames C (aead b) (readDir b) (readCounter b) xs"
    "\<forall>x \<in> set xs. good_chunk x" "q = readBuf b @ concat xs" "aead a = aead b" "writeDir a = readDir b"
    "writeCtr a = readCounter b + of_nat (length xs)"
    by (auto simp: carries_def)
  show ?thesis
  proof (cases "readBuf b = []")
    case False
    let ?n = "min m (length (readBuf b))" and ?b = "b\<lparr>readBuf := drop m (readBuf b)\<rparr>"
    have "channel_read C s m = Some (take ?n q, (a, ?b, r))"
      using xs(4) by (simp add: channel_read_def fields Conn_Read_buffered [OF False] min_def)
    moreover have "carries C (a, ?b, r) (drop ?n q)"
      using xs by (auto simp: carries_def min_def intro!: exI [of _ xs])
    moreover have "0 < ?n" "?n \<le> length q" using False assms(3) xs(4) by auto
    ultimately show ?thesis by (intro exI [of _ ?n]) auto
  next
    case True
    then obtain x ys where ys: "xs = x # ys" using assms(2) xs(4) by (cases xs) auto
    let ?n = "min m (length x)" and ?b = "b\<lparr>readCounter := readCounter b + 1, readBuf := drop m x\<rparr>"
    let ?r = "frames C (aead b) (readDir b) (readCounter b + 1) ys"
    have x: "good_chunk x" using xs(3) ys by simp
    have "channel_read C s m = Some (take ?n q, (a, ?b, ?r))"
      using xs(2,4) True Conn_Read_frame [OF xs(1) True x, of m ?r] by (simp add: channel_read_def fields ys min_def)
    moreover have "carries C (a, ?b, ?r) (drop ?n q)"
      using xs True by (auto simp: carries_def min_def ys intro!: exI [of _ ys])
    moreover have "0 < ?n" "?n \<le> length q" using x assms(3) xs(4) by (auto simp: good_chunk_def ys)
    ultimately show ?thesis by (intro exI [of _ ?n]) auto
  qed
qed

interpretation secure_channel: byte_channel "carries C" "channel_write C" "channel_read C" for C
  by unfold_locales (rule carries_write carries_read; assumption)+

section \<open>Properties of the handshake\<close>

text \<open>
  What \<^verbatim>\<open>encoding/json\<close> does with a hello whose fields are printable ASCII without the characters
  it escapes: it round-trips, and the text adds less than 200 bytes to the fields.
\<close>

definition plain_text :: "string \<Rightarrow> bool" where
  "plain_text s \<longleftrightarrow> (\<forall>c \<in> set s. 33 \<le> (of_char c :: nat) \<and> (of_char c :: nat) < 127 \<and>
     (of_char c :: nat) \<notin> {34, 38, 60, 62, 92})"

definition hello_fields :: "hello \<Rightarrow> string list" where
  "hello_fields h = [h_NodeID h, h_PublicKey h, h_Ephemeral h, h_Signature h]"

definition hello_json_ok :: "hello_json \<Rightarrow> bool" where
  "hello_json_ok J \<longleftrightarrow> (\<forall>h. list_all plain_text (hello_fields h) \<longrightarrow>
     hello_Unmarshal J (hello_Marshal J h) = Some h \<and> 0 < length (hello_Marshal J h) \<and>
     length (hello_Marshal J h) \<le> 200 + sum_list (map length (hello_fields h)))"

lemma plain_b64: "plain_text (b64_encode StdEncoding bs)"
  unfolding plain_text_def
proof
  fix c
  assume "c \<in> set (b64_encode StdEncoding bs)"
  then consider "c = CHR ''=''" | n where "n < 64" "c = b64_char StdEncoding n" using b64_set by blast
  then show "33 \<le> (of_char c :: nat) \<and> (of_char c :: nat) < 127 \<and> (of_char c :: nat) \<notin> {34, 38, 60, 62, 92}"
    by cases (auto simp: of_char_b64_char)
qed

lemma plain_NodeID: "plain_text (NodeIDFromPublicKey G k)"
proof -
  have "33 \<le> (of_char c :: nat) \<and> (of_char c :: nat) < 127 \<and> (of_char c :: nat) \<notin> {34, 38, 60, 62, 92}"
    if "hex_val c \<noteq> None" for c
    using that by (auto simp: hex_val_def Let_def split: if_splits)
  then show ?thesis
    using Encode_hex_digits [of _ "sha256 G k"] by (auto simp: plain_text_def NodeIDFromPublicKey_def)
qed

lemma readHello_buildHello:
  assumes "sha256_ok G" "ed25519_ok G" "hello_json_ok J" "Identity_Validate G i = Inr ()" "length eph = 32"
  shows "readHello G J kind (writeHello J (buildHello G i kind eph) @ r) = Inr (buildHello G i kind eph, r)"
proof -
  let ?h = "buildHello G i kind eph" and ?m = "session_signingPayload sessionVersion kind (id_NodeID i) eph"
  have i: "length (id_PublicKey i) = 32" "id_NodeID i = NodeIDFromPublicKey G (id_PublicKey i)"
    "ed25519_verify G (id_PublicKey i) ?m (ed25519_sign G (id_PrivateKey i) ?m)"
    "length (ed25519_sign G (id_PrivateKey i) ?m) = 64" "length (id_NodeID i) = 68"
    using assms(1,2,4) by (auto simp: Identity_Validate_iff ed25519_ok_def NodeIDFromPublicKey_def sha256_ok_def)
  have "list_all plain_text (hello_fields ?h)"
    using i(2) by (simp add: hello_fields_def buildHello_def plain_b64 plain_NodeID)
  then have j: "hello_Unmarshal J (hello_Marshal J ?h) = Some ?h" "0 < length (hello_Marshal J ?h)"
    "length (hello_Marshal J ?h) \<le> 200 + sum_list (map length (hello_fields ?h))"
    using assms(3) by (auto simp: hello_json_ok_def)
  have "sum_list (map length (hello_fields ?h)) = 244"
    using i assms(5) by (simp add: hello_fields_def buildHello_def length_b64)
  with j(3) have "length (hello_Marshal J ?h) \<le> unat maxHandshakeSize" by simp
  note rl = ReadLengthPrefixed_append [OF j(2) this, of r]
  show ?thesis
    unfolding readHello_def writeHello_def rl using j(1) i
    by (simp add: buildHello_def ephemeralBytes_def)
qed

lemma buildTranscript_sym:
  "buildTranscript kind a b c d True = buildTranscript kind b a d c False"
  by (simp add: buildTranscript_def)

lemma establish_ok:
  assumes "x25519_ok C" "hkdf_ok C"
    and "x25519_ecdh C priv (x25519_public C priv') = Some shared"
    and "session_deriveKey G C shared (buildTranscript kind (x25519_public C priv) (x25519_public C priv')
          (id_PublicKey i) (id_PublicKey i') initiator) = Some key"
  shows "establish G C kind i initiator priv (buildHello G i' kind (x25519_public C priv')) =
    Inr \<lparr>aead = key, readCounter = 0, writeCtr = 0, readBuf = [],
      writeDir = (if initiator then 0 else 1), readDir = (if initiator then 1 else 0),
      localNodeID = id_NodeID i, peerNodeID = id_NodeID i', peerPublicKey = id_PublicKey i'\<rparr>"
proof -
  have "length key = 32" using assms(2,4) unfolding hkdf_ok_def session_deriveKey_def by (metis option.inject)
  moreover have "length (x25519_public C priv') = 32" using assms(1) by (simp add: x25519_ok_def)
  ultimately show ?thesis
    using assms(3,4) by (simp add: establish_def buildHello_def ephemeralBytes_def NewPublicKey_def NewCipher_def)
qed

lemma handshake_pair:
  assumes "sha256_ok G" "ed25519_ok G" "x25519_ok C" "hkdf_ok C" "hello_json_ok J"
    and "Identity_Validate G i = Inr ()" "Identity_Validate G i' = Inr ()"
    and "x25519_ecdh C priv (x25519_public C priv') = Some shared"
  shows "\<exists>w w' c c'.
    handshake G C J kind i True priv (w' @ r) = (w, Inr (c, r)) \<and>
    handshake G C J kind i' False priv' (w @ r') = (w', Inr (c', r')) \<and>
    aead c = aead c' \<and> writeDir c = readDir c' \<and> readDir c = writeDir c' \<and> writeDir c \<noteq> readDir c \<and>
    writeCtr c = 0 \<and> readCounter c = 0 \<and> writeCtr c' = 0 \<and> readCounter c' = 0 \<and> readBuf c = [] \<and> readBuf c' = [] \<and>
    peerNodeID c = id_NodeID i' \<and> peerPublicKey c = id_PublicKey i' \<and>
    peerNodeID c' = id_NodeID i \<and> peerPublicKey c' = id_PublicKey i"
proof -
  let ?p = "x25519_public C priv" and ?p' = "x25519_public C priv'"
  let ?w = "writeHello J (buildHello G i kind ?p)" and ?w' = "writeHello J (buildHello G i' kind ?p')"
  have len: "length ?p = 32" "length ?p' = 32" using assms(3) by (simp_all add: x25519_ok_def)
  have sh: "x25519_ecdh C priv' ?p = Some shared" using assms(3,8) by (simp add: x25519_ok_def)
  let ?t = "buildTranscript kind ?p ?p' (id_PublicKey i) (id_PublicKey i') True"
  obtain key where k: "session_deriveKey G C shared ?t = Some key"
    using assms(4) unfolding hkdf_ok_def session_deriveKey_def by blast
  have k': "session_deriveKey G C shared (buildTranscript kind ?p' ?p (id_PublicKey i') (id_PublicKey i) False) = Some key"
    using k by (simp add: buildTranscript_sym)
  have v: "h_Version (buildHello G x kind e) = sessionVersion" for x e by (simp add: buildHello_def)
  have "handshake G C J kind i True priv (?w' @ r) = (?w, Inr (\<lparr>aead = key, readCounter = 0, writeCtr = 0, readBuf = [],
      writeDir = 0, readDir = 1, localNodeID = id_NodeID i, peerNodeID = id_NodeID i', peerPublicKey = id_PublicKey i'\<rparr>, r))"
    using establish_ok [OF assms(3,4,8) k] readHello_buildHello [OF assms(1,2,5,7) len(2)] v
    by (simp add: handshake_def Let_def)
  moreover have "handshake G C J kind i' False priv' (?w @ r') = (?w', Inr (\<lparr>aead = key, readCounter = 0, writeCtr = 0,
      readBuf = [], writeDir = 1, readDir = 0, localNodeID = id_NodeID i', peerNodeID = id_NodeID i,
      peerPublicKey = id_PublicKey i\<rparr>, r'))"
    using establish_ok [OF assms(3,4) sh k'] readHello_buildHello [OF assms(1,2,5,6) len(1)] v
    by (simp add: handshake_def Let_def)
  ultimately show ?thesis by (auto intro!: exI)
qed

text \<open>
  C3: an honest client and an honest server agree. Each accepts the other's hello, both end with the
  same session key and opposite directions, each knows the other's node ID and public key, and the
  bytes that follow the handshake are left on the streams. (The hypothesis is that the X25519
  exchange of the two ephemeral keys does not fail.)
\<close>

theorem handshake_agrees:
  assumes "sha256_ok G" "ed25519_ok G" "x25519_ok C" "hkdf_ok C" "hello_json_ok J"
    and "Identity_Validate G i = Inr ()" "Identity_Validate G i' = Inr ()"
    and "x25519_ecdh C priv (x25519_public C priv') = Some shared"
  shows "\<exists>w w' c c'.
    handshake G C J kind i True priv (w' @ r) = (w, Inr (c, r)) \<and>
    handshake G C J kind i' False priv' (w @ r') = (w', Inr (c', r')) \<and>
    aead c = aead c' \<and> writeDir c = readDir c' \<and> readDir c = writeDir c' \<and> writeDir c \<noteq> readDir c \<and>
    writeCtr c = 0 \<and> readCounter c = 0 \<and> writeCtr c' = 0 \<and> readCounter c' = 0 \<and> readBuf c = [] \<and> readBuf c' = [] \<and>
    peerNodeID c = id_NodeID i' \<and> peerPublicKey c = id_PublicKey i' \<and>
    peerNodeID c' = id_NodeID i \<and> peerPublicKey c' = id_PublicKey i"
  using assms by (rule handshake_pair)

text \<open>A concrete message format with the round trip: the fields on lines of their own.\<close>

definition demo_json :: hello_json where
  "demo_json = \<lparr>
     hello_Marshal = (\<lambda>h. bytes_of (Itoa (unat (h_Version h)) @ [CHR 0x0A] @ Join (hello_fields h) [CHR 0x0A])),
     hello_Unmarshal = (\<lambda>bs. case Split (string_of bs) (CHR 0x0A) of
        [v, a, b, c, d] \<Rightarrow> Some \<lparr>h_Version = word_of_nat (dec_value v), h_NodeID = a, h_PublicKey = b,
           h_Ephemeral = c, h_Signature = d\<rparr>
      | _ \<Rightarrow> None)\<rparr>"

lemma Itoa_short: "n < 10 ^ Suc k \<Longrightarrow> length (Itoa n) \<le> Suc k"
proof (induction k arbitrary: n)
  case 0
  then show ?case by (subst Itoa.simps) simp
next
  case (Suc k)
  then have "n div 10 < 10 ^ Suc k" by (simp add: less_mult_imp_div_less)
  then show ?case using Suc.IH by (subst Itoa.simps) simp
qed

lemma demo_json_ok: "hello_json_ok demo_json"
  unfolding hello_json_ok_def
proof (intro allI impI)
  fix h :: hello
  assume "list_all plain_text (hello_fields h)"
  then have nl: "\<forall>f \<in> set (hello_fields h). CHR 0x0A \<notin> set f"
    by (fastforce simp: list_all_iff plain_text_def)
  then have "Split (Join (hello_fields h) [CHR 0x0A]) (CHR 0x0A) = hello_fields h"
    by (simp add: hello_fields_def Split_append Split_no_sep)
  then have "hello_Unmarshal demo_json (hello_Marshal demo_json h) = Some h"
    by (cases h) (simp add: demo_json_def Split_append hello_fields_def del: bytes_of_append)
  moreover have "unat (h_Version h) < 10 ^ Suc 2" using byte_less_256 [of "h_Version h"] by simp
  then have "length (Itoa (unat (h_Version h))) \<le> 3" using Itoa_short [of _ 2] by simp
  ultimately show "hello_Unmarshal demo_json (hello_Marshal demo_json h) = Some h \<and> 0 < length (hello_Marshal demo_json h) \<and>
     length (hello_Marshal demo_json h) \<le> 200 + sum_list (map length (hello_fields h))"
    by (simp add: demo_json_def hello_fields_def)
qed

theorem handshake_agrees_witness:
  "\<exists>w w' c c'. handshake demo_lib demo_crypto demo_json KindDHT demo_identity True [1] w' = (w, Inr (c, [])) \<and>
    handshake demo_lib demo_crypto demo_json KindDHT demo_identity False [2] w = (w', Inr (c', [])) \<and>
    aead c = aead c' \<and> writeDir c = readDir c' \<and> writeDir c \<noteq> readDir c"
proof -
  have "x25519_ecdh demo_crypto [1] (x25519_public demo_crypto [2]) =
      Some (map2 (XOR) (fit 32 [1]) (x25519_public demo_crypto [2]))" by (simp add: demo_crypto_def)
  from handshake_agrees [OF demo_lib_ok(1,2) demo_crypto_ok(4,3) demo_json_ok demo_identity_ok demo_identity_ok this,
      of KindDHT "[]" "[]"]
  show ?thesis by auto
qed

text \<open>
  C4: a connection is only ever established with a peer that proved its identity. If a handshake
  returns a connection, the peer spoke the required version, its node ID is the hash of the public
  key recorded in the connection, and that key signed the peer's ephemeral key together with the
  version, the stream kind and the node ID. \<^verbatim>\<open>ClientExpected\<close> returns a connection only if moreover
  node ID and key are the expected ones.
\<close>

theorem handshake_authenticates:
  "(handshake G C J kind i initiator priv r = (w, Inr (c, r')) \<longrightarrow>
     peerNodeID c = NodeIDFromPublicKey G (peerPublicKey c) \<and>
     (\<exists>eph sig shared. ed25519_verify G (peerPublicKey c) (session_signingPayload sessionVersion kind (peerNodeID c) eph) sig \<and>
        length eph = 32 \<and> x25519_ecdh C priv eph = Some shared \<and>
        session_deriveKey G C shared
          (buildTranscript kind (x25519_public C priv) eph (id_PublicKey i) (peerPublicKey c) initiator) = Some (aead c))) \<and>
   (ClientExpected G C J kind i nodeID publicKey priv r = (w, Inr (c, r')) \<longrightarrow>
     handshake G C J kind i True priv r = (w, Inr (c, r')) \<and> peerNodeID c = nodeID \<and>
     b64_decode StdEncoding publicKey = Some (peerPublicKey c))"
proof (intro conjI impI)
  assume "handshake G C J kind i initiator priv r = (w, Inr (c, r'))"
  then obtain h r1 where h: "readHello G J kind r = Inr (h, r1)" "h_Version h = sessionVersion"
      "establish G C kind i initiator priv h = Inr c"
    by (auto simp: handshake_def Let_def split: sum.splits if_splits)
  from h(1) obtain pub sig eph where p: "b64_decode StdEncoding (h_PublicKey h) = Some pub" "ephemeralBytes h = Inr eph"
      "NodeIDFromPublicKey G pub = h_NodeID h"
      "ed25519_verify G pub (session_signingPayload (h_Version h) kind (h_NodeID h) eph) sig"
    by (auto simp: readHello_def split: sum.splits option.splits if_splits)
  from h(3) p(1,2) have "peerPublicKey c = pub" "peerNodeID c = h_NodeID h" "length eph = 32"
    "\<exists>shared. x25519_ecdh C priv eph = Some shared \<and> session_deriveKey G C shared
          (buildTranscript kind (x25519_public C priv) eph (id_PublicKey i) (peerPublicKey c) initiator) = Some (aead c)"
    by (auto simp: establish_def Let_def NewPublicKey_def NewCipher_def split: option.splits if_splits)
  then show "peerNodeID c = NodeIDFromPublicKey G (peerPublicKey c)"
    "\<exists>eph sig shared. ed25519_verify G (peerPublicKey c) (session_signingPayload sessionVersion kind (peerNodeID c) eph) sig \<and>
        length eph = 32 \<and> x25519_ecdh C priv eph = Some shared \<and>
        session_deriveKey G C shared
          (buildTranscript kind (x25519_public C priv) eph (id_PublicKey i) (peerPublicKey c) initiator) = Some (aead c)"
    using p h(2) by auto
next
  assume "ClientExpected G C J kind i nodeID publicKey priv r = (w, Inr (c, r'))"
  then show "handshake G C J kind i True priv r = (w, Inr (c, r'))" "peerNodeID c = nodeID"
    "b64_decode StdEncoding publicKey = Some (peerPublicKey c)"
    by (auto simp: ClientExpected_def split: sum.splits prod.splits option.splits if_splits)
qed

theorem handshake_authenticates_witness:
  "\<exists>r w c. handshake demo_lib demo_crypto demo_json KindDHT demo_identity True [1] r = (w, Inr (c, [])) \<and>
     peerNodeID c = NodeIDFromPublicKey demo_lib (peerPublicKey c)"
proof -
  have "x25519_ecdh demo_crypto [1] (x25519_public demo_crypto [2]) =
      Some (map2 (XOR) (fit 32 [1]) (x25519_public demo_crypto [2]))" by (simp add: demo_crypto_def)
  from handshake_pair [OF demo_lib_ok(1,2) demo_crypto_ok(4,3) demo_json_ok demo_identity_ok demo_identity_ok this,
      of KindDHT "[]" "[]"]
  obtain w w' c where h: "handshake demo_lib demo_crypto demo_json KindDHT demo_identity True [1] w' = (w, Inr (c, []))"
    by auto
  then show ?thesis using handshake_authenticates [of demo_lib demo_crypto demo_json KindDHT demo_identity True "[1]" w' w c "[]"]
    by blast
qed

text \<open>
  C5: anyone who can open a connection can make the other side panic. For every byte string \<open>pub\<close> that is not 32
  bytes long (the empty one will do), a hello that carries \<open>pub\<close> as its public key, the hash of \<open>pub\<close>
  as its node ID and any ephemeral key and signature passes every check before the signature check, where
  \<^verbatim>\<open>ed25519.Verify\<close> panics. No key and no knowledge of the victim are needed; the victim may be the server or the
  client of the handshake, of any stream kind. (The hypothesis on the sizes is that the hello fits a frame.)
\<close>

theorem bad_key_length_panics:
  fixes v :: byte
  assumes "sha256_ok G" "hello_json_ok J" "length pub \<noteq> 32" "length pub + length eph + length sig \<le> 5000"
  defines "h \<equiv> \<lparr>h_Version = v, h_NodeID = NodeIDFromPublicKey G pub, h_PublicKey = b64_encode StdEncoding pub,
     h_Ephemeral = b64_encode StdEncoding eph, h_Signature = b64_encode StdEncoding sig\<rparr>"
  shows "snd (handshake G C J kind i initiator priv (writeHello J h @ r)) = Inl VerifyPanic"
proof -
  have "list_all plain_text (hello_fields h)" by (simp add: hello_fields_def h_def plain_b64 plain_NodeID)
  then have j: "hello_Unmarshal J (hello_Marshal J h) = Some h" "0 < length (hello_Marshal J h)"
    "length (hello_Marshal J h) \<le> 200 + sum_list (map length (hello_fields h))"
    using assms(2) by (auto simp: hello_json_ok_def)
  have b: "3 * length (b64_encode StdEncoding x) \<le> 4 * length x + 12" for x
    by (simp add: length_b64)
  have "length (h_NodeID h) = 68" using assms(1) by (simp add: h_def NodeIDFromPublicKey_def sha256_ok_def)
  then have "sum_list (map length (hello_fields h)) \<le> 68 + (4 * (length pub + length eph + length sig) + 36) div 3"
    using b [of pub] b [of eph] b [of sig] by (simp add: hello_fields_def h_def)
  then have "length (hello_Marshal J h) \<le> unat maxHandshakeSize" using j(3) assms(4) by simp
  note rl = ReadLengthPrefixed_append [OF j(2) this, of r]
  have "readHello G J kind (writeHello J h @ r) = Inl VerifyPanic"
    unfolding readHello_def writeHello_def rl using j(1) assms(3) by (simp add: h_def ephemeralBytes_def)
  then show ?thesis by (simp add: handshake_def Let_def)
qed

theorem bad_key_length_panics_witness:
  "\<exists>h. h_PublicKey h = [] \<and>
     snd (handshake demo_lib demo_crypto demo_json KindDHT demo_identity False [1] (writeHello demo_json h)) = Inl VerifyPanic"
  using bad_key_length_panics [OF demo_lib_ok(1) demo_json_ok, where pub = "[]" and eph = "[]" and sig = "[]" and v = 2 and C = demo_crypto and
      kind = KindDHT and i = demo_identity and initiator = False and priv = "[1]" and r = "[]"]
  by (intro exI [of _ "\<lparr>h_Version = 2, h_NodeID = NodeIDFromPublicKey demo_lib [], h_PublicKey = b64_encode StdEncoding [],
     h_Ephemeral = b64_encode StdEncoding [], h_Signature = b64_encode StdEncoding []\<rparr>"]) simp

section \<open>Properties of the stream\<close>

text \<open>
  C6: the encrypted stream is a queue. Start with two connected ends and nothing in flight; after
  any sequence of writes of any sizes at one end, reading \<^verbatim>\<open>n\<close> bytes at the other end (the loop of
  \<^verbatim>\<open>io.ReadFull\<close> over \<^verbatim>\<open>Read\<close>) ends and returns exactly the first \<^verbatim>\<open>n\<close> bytes written, for every
  \<^verbatim>\<open>n\<close> up to the number of bytes written; what follows is what a later read returns.
\<close>

theorem secure_stream_fifo:
  assumes "aead_ok C" "aead a = aead b" "writeDir a = readDir b" "writeCtr a = readCounter b" "readBuf b = []"
    and "n + m \<le> length (concat ps)"
  shows "\<exists>s s'. read_loop (channel_read C) n n (foldl (channel_write C) (a, b, []) ps) = Some (take n (concat ps), s) \<and>
    read_loop (channel_read C) m m s = Some (take m (drop n (concat ps)), s')"
proof -
  have "carries C (a, b, []) []" using assms by (auto simp: carries_def intro!: exI [of _ "[]"])
  then have "carries C (foldl (channel_write C) (a, b, []) ps) (concat ps)"
    using secure_channel.writes_hold by fastforce
  then obtain s where s: "read_loop (channel_read C) n n (foldl (channel_write C) (a, b, []) ps) = Some (take n (concat ps), s)"
      "carries C s (drop n (concat ps))"
    using secure_channel.read_loop_holds [of C _ "concat ps" n n] assms(6) by fastforce
  moreover have "m \<le> length (drop n (concat ps))" using assms(6) by simp
  then obtain s' where "read_loop (channel_read C) m m s = Some (take m (drop n (concat ps)), s')"
    using secure_channel.read_loop_holds [OF s(2)] by blast
  ultimately show ?thesis by blast
qed

definition demo_end :: "byte \<Rightarrow> byte \<Rightarrow> Conn" where
  "demo_end w r = \<lparr>aead = [1], readCounter = 0, writeCtr = 0, readBuf = [], writeDir = w, readDir = r,
     localNodeID = [], peerNodeID = [], peerPublicKey = []\<rparr>"

theorem secure_stream_fifo_witness:
  "\<exists>s s'. read_loop (channel_read demo_crypto) 3 3
      (foldl (channel_write demo_crypto) (demo_end 0 1, demo_end 1 0, []) [[1, 2], [3, 4, 5]]) = Some ([1, 2, 3], s) \<and>
    read_loop (channel_read demo_crypto) 2 2 s = Some ([4, 5], s')"
  using secure_stream_fifo [OF demo_crypto_ok(1), of "demo_end 0 1" "demo_end 1 0" 3 2 "[[1, 2], [3, 4, 5]]"]
  by (simp add: demo_end_def)

lemma nonce_inj: "nonce d k = nonce d' k' \<longleftrightarrow> d = d' \<and> k = k'"
  by (simp add: nonce_def PutUint64_inj)

lemma frames_nth:
  "frames C key d k xs = concat (map (\<lambda>j. WriteLengthPrefixed (gcm_seal C key (nonce d (k + of_nat j)) (xs ! j))) [0..<length xs])"
proof (induction xs rule: rev_induct)
  case (snoc x xs)
  have "map (\<lambda>j. WriteLengthPrefixed (gcm_seal C key (nonce d (k + of_nat j)) ((xs @ [x]) ! j))) [0..<length xs] =
      map (\<lambda>j. WriteLengthPrefixed (gcm_seal C key (nonce d (k + of_nat j)) (xs ! j))) [0..<length xs]"
    by (rule map_cong) (simp_all add: nth_append)
  then show ?case using snoc by (simp add: frames_append del: map_eq_conv)
qed simp

lemma counters_distinct: "n \<le> 2 ^ 64 \<Longrightarrow> distinct (map (\<lambda>j. nonce d (k + of_nat j)) [0..<n])"
proof -
  assume n: "n \<le> 2 ^ 64"
  have "inj_on (\<lambda>j. nonce d (k + of_nat j)) {..<n}"
  proof (rule inj_onI)
    fix i j :: nat
    assume ij: "i \<in> {..<n}" "j \<in> {..<n}" "nonce d (k + of_nat i) = nonce d (k + of_nat j)"
    then have "unat (of_nat i :: u64) = unat (of_nat j :: u64)" by (simp add: nonce_inj)
    moreover have "i < 2 ^ 64" "j < 2 ^ 64" using ij n by simp_all
    ultimately show "i = j" by (simp add: unat_of_nat)
  qed
  then show ?thesis by (simp add: distinct_map atLeast0LessThan)
qed

lemma frames_Cons_drop:
  "j < length xs \<Longrightarrow> frames C key d k xs = frames C key d k (take j xs) @
     WriteLengthPrefixed (gcm_seal C key (nonce d (k + of_nat j)) (xs ! j)) @ frames C key d (k + of_nat j + 1) (drop (Suc j) xs)"
  using frames_append [of C key d k "take j xs" "xs ! j # drop (Suc j) xs"] by (simp add: id_take_nth_drop [symmetric])

text \<open>A sequence of writes on one connection by a caller that stops at the first error.\<close>

fun Conn_Writes ::
  "cryptolib \<Rightarrow> Conn \<Rightarrow> ((nat \<Rightarrow> nat option) \<times> bytes) list \<Rightarrow> bytes \<times> Conn \<times> session_error option" where
  "Conn_Writes C c [] = ([], c, None)"
| "Conn_Writes C c ((net, p) # ws) = (case Conn_Write C net c p of
     (w, c', n, Some e) \<Rightarrow> (w, c', Some e)
   | (w, c', n, None) \<Rightarrow> (case Conn_Writes C c' ws of (w', res) \<Rightarrow> (w @ w', res)))"

lemma Conn_Write_prefix:
  assumes "Conn_Write C net c p = (w, c', n, Some e)"
  shows "\<exists>m. w = take m (frames C (aead c) (writeDir c) (writeCtr c) (chunks p))"
proof -
  obtain j k where j: "j < length (chunks p)"
    "w = frames C (aead c) (writeDir c) (writeCtr c) (take j (chunks p)) @
           take k (WriteLengthPrefixed (gcm_seal C (aead c) (nonce (writeDir c) (writeCtr c + of_nat j)) (chunks p ! j)))"
    using write_loop_cases [OF assms [unfolded Conn_Write_def]] by auto
  define a where "a = frames C (aead c) (writeDir c) (writeCtr c) (take j (chunks p))"
  define b where "b = WriteLengthPrefixed (gcm_seal C (aead c) (nonce (writeDir c) (writeCtr c + of_nat j)) (chunks p ! j))"
  have "w = take (length a + min k (length b)) (a @ b @ y)" for y
    using j(2) by (simp add: a_def [symmetric] b_def [symmetric] min_def)
  then show ?thesis unfolding frames_Cons_drop [OF j(1)] a_def [symmetric] b_def [symmetric] by blast
qed

lemma Conn_Writes_frames:
  assumes "Conn_Writes C c ws = (w, c', e)"
  defines "xs \<equiv> concat (map (\<lambda>a. chunks (snd a)) ws)"
  shows "(\<exists>m. w = take m (frames C (aead c) (writeDir c) (writeCtr c) xs)) \<and>
    (e = None \<longrightarrow> w = frames C (aead c) (writeDir c) (writeCtr c) xs \<and> writeCtr c' = writeCtr c + of_nat (length xs))"
  using assms(1) unfolding xs_def
proof (induction ws arbitrary: c w)
  case Nil
  then show ?case by simp
next
  case (Cons a ws)
  obtain net p where a: "a = (net, p)" by fastforce
  obtain w1 c1 n e1 where w1: "Conn_Write C net c p = (w1, c1, n, e1)" by (metis prod_cases4)
  let ?f = "frames C (aead c) (writeDir c) (writeCtr c) (chunks p)"
  let ?ys = "concat (map (\<lambda>a. chunks (snd a)) ws)"
  show ?case
  proof (cases e1)
    case (Some x)
    then have "w = w1" "e = Some x" using Cons.prems w1 by (simp_all add: a)
    moreover obtain m where "w1 = take m ?f" using Conn_Write_prefix w1 Some by blast
    then have "w1 = take (min m (length ?f)) (frames C (aead c) (writeDir c) (writeCtr c) (chunks p @ ?ys))"
      by (simp add: frames_append min_def)
    ultimately show ?thesis by (auto simp: a)
  next
    case None
    then have c1: "w1 = ?f" "c1 = c\<lparr>writeCtr := writeCtr c + of_nat (length (chunks p))\<rparr>"
      using write_loop_cases [OF w1 [unfolded Conn_Write_def]] by auto
    obtain w2 where w2: "Conn_Writes C c1 ws = (w2, c', e)" "w = w1 @ w2"
      using Cons.prems w1 None by (auto simp: a split: prod.splits)
    from Cons.IH [OF w2(1)] obtain m where
      m: "w2 = take m (frames C (aead c1) (writeDir c1) (writeCtr c1) ?ys)"
      and ok: "e = None \<longrightarrow> w2 = frames C (aead c1) (writeDir c1) (writeCtr c1) ?ys \<and>
        writeCtr c' = writeCtr c1 + of_nat (length ?ys)" by blast
    let ?g = "frames C (aead c) (writeDir c) (writeCtr c) (concat (map (\<lambda>a. chunks (snd a)) (a # ws)))"
    have g: "?g = ?f @ frames C (aead c1) (writeDir c1) (writeCtr c1) ?ys" by (simp add: a c1(2) frames_append)
    have "w = take (length ?f + m) ?g" unfolding g using m by (simp add: w2(2) c1(1))
    moreover have "e = None \<longrightarrow> w = ?g \<and> writeCtr c' = writeCtr c + of_nat (length (concat (map (\<lambda>a. chunks (snd a)) (a # ws))))"
      unfolding g using ok by (simp add: a w2(2) c1 ac_simps)
    ultimately show ?thesis by blast
  qed
qed

text \<open>
  C7: a caller that stops writing at the first error never uses a nonce twice under a session key.
  Whatever the writes, their sizes and the point where the connection fails, the bytes that went out are
  an initial part (all, when no write failed) of the frames of the chunks of all writes in order, where
  the \<open>j\<close>-th chunk is sealed under the direction byte of the writer and the \<open>j\<close>-th counter value from the start;
  up to \<open>2 ^ 64\<close> chunks have pairwise different nonces, and none of them is a nonce of the other direction,
  which shares the key.
\<close>

theorem session_nonces:
  assumes "Conn_Writes C c ws = (w, c', e)"
  defines "xs \<equiv> concat (map (\<lambda>a. chunks (snd a)) ws)"
  defines "used \<equiv> map (\<lambda>j. nonce (writeDir c) (writeCtr c + of_nat j)) [0..<length xs]"
  assumes "length xs \<le> 2 ^ 64"
  shows "(\<exists>m. w = take m (concat (map2 (\<lambda>n x. WriteLengthPrefixed (gcm_seal C (aead c) n x)) used xs))) \<and>
     (e = None \<longrightarrow> w = concat (map2 (\<lambda>n x. WriteLengthPrefixed (gcm_seal C (aead c) n x)) used xs) \<and>
        writeCtr c' = writeCtr c + of_nat (length xs)) \<and>
     concat xs = concat (map snd ws) \<and> distinct used \<and> (writeDir c \<noteq> d \<longrightarrow> nonce d k \<notin> set used)"
proof -
  have "map2 (\<lambda>n x. WriteLengthPrefixed (gcm_seal C (aead c) n x)) used xs =
      map (\<lambda>j. WriteLengthPrefixed (gcm_seal C (aead c) (nonce (writeDir c) (writeCtr c + of_nat j)) (xs ! j))) [0..<length xs]"
    by (rule nth_equalityI) (simp_all add: used_def)
  then have f: "concat (map2 (\<lambda>n x. WriteLengthPrefixed (gcm_seal C (aead c) n x)) used xs) =
      frames C (aead c) (writeDir c) (writeCtr c) xs" by (simp add: frames_nth)
  have "concat xs = concat (map snd ws)" unfolding xs_def by (induction ws) simp_all
  moreover have "distinct used" unfolding used_def by (rule counters_distinct) (rule assms(4))
  moreover have "writeDir c \<noteq> d \<longrightarrow> nonce d k \<notin> set used" by (auto simp: used_def nonce_inj)
  ultimately show ?thesis using Conn_Writes_frames [OF assms(1)] unfolding f xs_def [symmetric] by blast
qed

theorem session_nonces_witness:
  "\<exists>m w c'. Conn_Writes demo_crypto (demo_end 0 1) [(reliable, [1, 2, 3]), (\<lambda>_. Some 2, [4])] = (w, c', Some FrameWrite) \<and>
     w = take m (WriteLengthPrefixed (gcm_seal demo_crypto [1] (nonce 0 0) [1, 2, 3]) @
                 WriteLengthPrefixed (gcm_seal demo_crypto [1] (nonce 0 1) [4]))"
proof -
  have c: "chunks [1, 2, 3] = [[1, 2, 3]]" "chunks [4] = [[4]]"
    by (simp_all add: chunks.simps [of "[1, 2, 3]"] chunks.simps [of "[4]"] chunks.simps [of "[]"])
  let ?ws = "[(reliable, [1, 2, 3]), (\<lambda>_. Some 2, [4])]"
  obtain w c' where w: "Conn_Writes demo_crypto (demo_end 0 1) ?ws = (w, c', Some FrameWrite)"
    by (simp add: Conn_Write_def write_loop.simps Let_def)
  have "length (concat (map (\<lambda>a. chunks (snd a)) ?ws)) \<le> 2 ^ 64" by (simp add: c)
  from session_nonces [OF w this, of 1 0] w show ?thesis by (simp add: c demo_end_def upt_rec)
qed

text \<open>
  C8: a write after a failed write reuses a nonce. When \<^verbatim>\<open>Write\<close> fails it leaves the counter at the chunk \<open>x\<close> it had
  sealed and could not, or not completely, send; the bytes that went out end with the \<open>k\<close> bytes of that frame
  that the connection took. The next \<^verbatim>\<open>Write\<close> of any data seals its first chunk under the same key, the same direction and
  the same counter.
\<close>

theorem failed_write_reuses_nonce:
  assumes "Conn_Write C net c p = (w, c1, n, Some e)" "q \<noteq> []" "net' 0 = None"
  shows "\<exists>j k v rest c2 res. j < length (chunks p) \<and> net j = Some k \<and> n = length (concat (take j (chunks p))) \<and>
     v = nonce (writeDir c) (writeCtr c + of_nat j) \<and>
     w = frames C (aead c) (writeDir c) (writeCtr c) (take j (chunks p)) @
         take k (WriteLengthPrefixed (gcm_seal C (aead c) v (chunks p ! j))) \<and>
     Conn_Write C net' c1 q = (WriteLengthPrefixed (gcm_seal C (aead c) v (hd (chunks q))) @ rest, c2, res)"
proof -
  from write_loop_cases [OF assms(1) [unfolded Conn_Write_def]] obtain j k where
    j: "j < length (chunks p)" "net j = Some k" "n = length (concat (take j (chunks p)))"
    "w = frames C (aead c) (writeDir c) (writeCtr c) (take j (chunks p)) @
         take k (WriteLengthPrefixed (gcm_seal C (aead c) (nonce (writeDir c) (writeCtr c + of_nat j)) (chunks p ! j)))"
    "c1 = c\<lparr>writeCtr := writeCtr c + of_nat j\<rparr>"
    by auto
  have "\<exists>rest c2 res. Conn_Write C net' c1 q =
      (WriteLengthPrefixed (gcm_seal C (aead c1) (nonce (writeDir c1) (writeCtr c1)) (hd (chunks q))) @ rest, c2, res)"
    using assms(2,3) unfolding Conn_Write_def
    by (subst write_loop.simps) (auto simp: Let_def chunks_Cons split: prod.splits)
  then show ?thesis using j by auto
qed

theorem failed_write_reuses_nonce_witness:
  "\<exists>c1 rest c2 res.
     Conn_Write demo_crypto (\<lambda>_. Some 40) (demo_end 0 1) [1, 2] =
       (take 40 (WriteLengthPrefixed (gcm_seal demo_crypto [1] (nonce 0 0) [1, 2])), c1, 0, Some FrameWrite) \<and>
     Conn_Write demo_crypto reliable c1 [3] = (WriteLengthPrefixed (gcm_seal demo_crypto [1] (nonce 0 0) [3]) @ rest, c2, res)"
proof -
  have c: "chunks [1, 2] = [[1, 2]]" "chunks [3] = [[3]]"
    by (simp_all add: chunks.simps [of "[1, 2]"] chunks.simps [of "[3]"] chunks.simps [of "[]"])
  obtain w c1 where w: "Conn_Write demo_crypto (\<lambda>_. Some 40) (demo_end 0 1) [1, 2] = (w, c1, 0, Some FrameWrite)"
    by (simp add: Conn_Write_def write_loop.simps Let_def)
  from failed_write_reuses_nonce [OF w, of "[3]" reliable] w show ?thesis by (auto simp: c demo_end_def)
qed

end
