(* ===== verification/StrictJson.thy ===== *)
theory StrictJson
  imports Prelude
begin

text \<open>
  \<^verbatim>\<open>internal/strictjson/decode.go\<close>: strict JSON decoding. A \<^verbatim>\<open>json.Decoder\<close> used through \<^verbatim>\<open>Token\<close> and
  \<^verbatim>\<open>More\<close> is the list of tokens it still returns and what follows them, the end of the input or a
  syntax error. The recursion of \<^verbatim>\<open>scanValue\<close> has a fuel argument; the number of tokens plus one is
  enough (\<open>scan_tokens\<close> below), and \<open>rejectDuplicateKeys\<close> supplies it.
\<close>

section \<open>The decoder and the scan\<close>

datatype token = Delim char | StringTok string | NumberTok string | BoolTok bool | NullTok

datatype json_error =
    SyntaxError
  | IoEOF
  | KeyNotString
  | DuplicateField string
  | ObjectTermination
  | ArrayTermination
  | UnexpectedDelimiter char
  | MultipleValues
  | TrailingData
  | ScanFuel

record decoder =
  toks :: "token list"
  tail_err :: json_error     \<comment> \<open>what \<^verbatim>\<open>Token\<close> returns after the tokens: \<open>IoEOF\<close> or a syntax error\<close>

definition Token :: "decoder \<Rightarrow> json_error + (token \<times> decoder)" where
  "Token d = (case toks d of [] \<Rightarrow> Inl (tail_err d) | t # ts \<Rightarrow> Inr (t, d\<lparr>toks := ts\<rparr>))"

definition More :: "decoder \<Rightarrow> bool" where
  "More d = (case toks d of
     [] \<Rightarrow> tail_err d \<noteq> IoEOF
   | t # _ \<Rightarrow> t \<noteq> Delim (CHR ''}'') \<and> t \<noteq> Delim (CHR '']''))"

fun scanValue :: "nat \<Rightarrow> decoder \<Rightarrow> token \<Rightarrow> json_error + decoder"
  and scan_object :: "nat \<Rightarrow> decoder \<Rightarrow> string set \<Rightarrow> json_error + decoder"
  and scan_array :: "nat \<Rightarrow> decoder \<Rightarrow> json_error + decoder" where
  "scanValue n d t = (case t of
     Delim c \<Rightarrow>
       if c = CHR ''{'' then
         (case scan_object n d {} of Inl e \<Rightarrow> Inl e | Inr d1 \<Rightarrow>
          (case Token d1 of
             Inr (Delim c', d2) \<Rightarrow> if c' = CHR ''}'' then Inr d2 else Inl ObjectTermination
           | _ \<Rightarrow> Inl ObjectTermination))
       else if c = CHR ''['' then
         (case scan_array n d of Inl e \<Rightarrow> Inl e | Inr d1 \<Rightarrow>
          (case Token d1 of
             Inr (Delim c', d2) \<Rightarrow> if c' = CHR '']'' then Inr d2 else Inl ArrayTermination
           | _ \<Rightarrow> Inl ArrayTermination))
       else Inl (UnexpectedDelimiter c)
   | _ \<Rightarrow> Inr d)"
| "scan_object 0 d seen = Inl ScanFuel"
| "scan_object (Suc n) d seen =
     (if More d then
        (case Token d of Inl e \<Rightarrow> Inl e
         | Inr (StringTok key, d1) \<Rightarrow>
             if key \<in> seen then Inl (DuplicateField key)
             else (case Token d1 of Inl e \<Rightarrow> Inl e | Inr (v, d2) \<Rightarrow>
               (case scanValue n d2 v of Inl e \<Rightarrow> Inl e | Inr d3 \<Rightarrow> scan_object n d3 (insert key seen)))
         | Inr (_, d1) \<Rightarrow> Inl KeyNotString)
      else Inr d)"
| "scan_array 0 d = Inl ScanFuel"
| "scan_array (Suc n) d =
     (if More d then
        (case Token d of Inl e \<Rightarrow> Inl e | Inr (v, d1) \<Rightarrow>
          (case scanValue n d1 v of Inl e \<Rightarrow> Inl e | Inr d2 \<Rightarrow> scan_array n d2))
      else Inr d)"

definition rejectDuplicateKeys :: "decoder \<Rightarrow> json_error + unit" where
  "rejectDuplicateKeys d =
     (case Token d of Inl e \<Rightarrow> Inl e | Inr (first, d1) \<Rightarrow>
      (case scanValue (length (toks d) + 1) d1 first of Inl e \<Rightarrow> Inl e | Inr d2 \<Rightarrow>
       (case Token d2 of
          Inr _ \<Rightarrow> Inl MultipleValues
        | Inl e \<Rightarrow> if e = IoEOF then Inr () else Inl TrailingData)))"

text \<open>
  \<^verbatim>\<open>Decode\<close>: \<^verbatim>\<open>tokens\<close> is the decoder of the data, \<^verbatim>\<open>decode\<close> the result of \<^verbatim>\<open>decoder.Decode(dst)\<close> with
  unknown fields disallowed together with the result of the second \<^verbatim>\<open>Decode\<close> call.
\<close>

definition Decode ::
  "('b \<Rightarrow> decoder) \<Rightarrow> ('b \<Rightarrow> json_error + ('a \<times> (json_error + unit))) \<Rightarrow> 'b \<Rightarrow> json_error + 'a" where
  "Decode tokens decode data =
     (case rejectDuplicateKeys (tokens data) of Inl e \<Rightarrow> Inl e | Inr _ \<Rightarrow>
      (case decode data of Inl e \<Rightarrow> Inl e | Inr (dst, trailing) \<Rightarrow>
       (case trailing of
          Inr _ \<Rightarrow> Inl MultipleValues
        | Inl e \<Rightarrow> if e = IoEOF then Inr dst else Inl TrailingData)))"

section \<open>Specification: JSON values without duplicate keys\<close>

datatype json = JNull | JBool bool | JNum string | JStr string | JArr "json list" | JObj "(string \<times> json) list"

fun tokens_of :: "json \<Rightarrow> token list" where
  "tokens_of JNull = [NullTok]"
| "tokens_of (JBool b) = [BoolTok b]"
| "tokens_of (JNum s) = [NumberTok s]"
| "tokens_of (JStr s) = [StringTok s]"
| "tokens_of (JArr vs) = Delim (CHR ''['') # concat (map tokens_of vs) @ [Delim (CHR '']'')]"
| "tokens_of (JObj fs) = Delim (CHR ''{'') # concat (map (\<lambda>(k, v). StringTok k # tokens_of v) fs) @ [Delim (CHR ''}'')]"

fun no_duplicates :: "json \<Rightarrow> bool" where
  "no_duplicates (JArr vs) \<longleftrightarrow> (\<forall>v \<in> set vs. no_duplicates v)"
| "no_duplicates (JObj fs) \<longleftrightarrow> distinct (map fst fs) \<and> (\<forall>(k, v) \<in> set fs. no_duplicates v)"
| "no_duplicates v \<longleftrightarrow> True"

lemma tokens_Cons:
  obtains t ts where "tokens_of v = t # ts" "t \<noteq> Delim (CHR ''}'')" "t \<noteq> Delim (CHR '']'')"
  by (cases v) auto

definition scanned :: "bool \<Rightarrow> decoder \<Rightarrow> json_error + decoder \<Rightarrow> bool" where
  "scanned ok d r \<longleftrightarrow> (if ok then r = Inr d else (\<exists>k. r = Inl (DuplicateField k)))"

text \<open>What scanning the tokens of a value does, whatever follows them.\<close>

definition scans :: "json \<Rightarrow> bool" where
  "scans v \<longleftrightarrow> (\<forall>n t ts rest d. tokens_of v = t # ts \<longrightarrow> length (tokens_of v) \<le> n \<longrightarrow>
     scanned (no_duplicates v) (d\<lparr>toks := rest\<rparr>) (scanValue n (d\<lparr>toks := ts @ rest\<rparr>) t))"

lemma scansD:
  "scans v \<Longrightarrow> tokens_of v = t # ts \<Longrightarrow> length (tokens_of v) \<le> n \<Longrightarrow>
   scanned (no_duplicates v) (d\<lparr>toks := rest\<rparr>) (scanValue n (d\<lparr>toks := ts @ rest\<rparr>) t)"
  by (simp add: scans_def)

declare scanValue.simps(1) [simp del]

lemma scan_array_ok:
  assumes "\<forall>v \<in> set vs. scans v" "length (concat (map tokens_of vs)) < n"
  shows "scanned (\<forall>v \<in> set vs. no_duplicates v) (d\<lparr>toks := Delim (CHR '']'') # rest\<rparr>)
    (scan_array n (d\<lparr>toks := concat (map tokens_of vs) @ Delim (CHR '']'') # rest\<rparr>))"
  using assms
proof (induction vs arbitrary: n)
  case Nil
  then show ?case by (cases n) (simp_all add: More_def scanned_def)
next
  case (Cons v vs)
  obtain t ts where t: "tokens_of v = t # ts" "t \<noteq> Delim (CHR ''}'')" "t \<noteq> Delim (CHR '']'')" by (rule tokens_Cons)
  obtain m where m: "n = Suc m" "length (tokens_of v) \<le> m" "length (concat (map tokens_of vs)) < m"
    using Cons.prems(2) t(1) by (cases n) auto
  let ?rest = "concat (map tokens_of vs) @ Delim (CHR '']'') # rest"
  have s: "scanned (no_duplicates v) (d\<lparr>toks := ?rest\<rparr>) (scanValue m (d\<lparr>toks := ts @ ?rest\<rparr>) t)"
    using Cons.prems(1) m(2) t(1) by (intro scansD) auto
  have IH: "scanned (\<forall>v \<in> set vs. no_duplicates v) (d\<lparr>toks := Delim (CHR '']'') # rest\<rparr>) (scan_array m (d\<lparr>toks := ?rest\<rparr>))"
    using Cons.IH [of m] Cons.prems(1) m(3) by simp
  show ?case
    using s IH t by (auto simp: m(1) More_def Token_def scanned_def split: if_splits)
qed

lemma scan_object_ok:
  assumes "\<forall>(k, v) \<in> set fs. scans v" "length (concat (map (\<lambda>(k, v). StringTok k # tokens_of v) fs)) < n"
  shows "scanned (distinct (map fst fs) \<and> fst ` set fs \<inter> seen = {} \<and> (\<forall>(k, v) \<in> set fs. no_duplicates v))
    (d\<lparr>toks := Delim (CHR ''}'') # rest\<rparr>)
    (scan_object n (d\<lparr>toks := concat (map (\<lambda>(k, v). StringTok k # tokens_of v) fs) @ Delim (CHR ''}'') # rest\<rparr>) seen)"
  using assms
proof (induction fs arbitrary: n seen)
  case Nil
  then show ?case by (cases n) (simp_all add: More_def scanned_def)
next
  case (Cons f fs)
  obtain k v where f: "f = (k, v)" by fastforce
  obtain t ts where t: "tokens_of v = t # ts" by (rule tokens_Cons)
  let ?enc = "\<lambda>fs. concat (map (\<lambda>(k, v). StringTok k # tokens_of v) fs)"
  obtain m where m: "n = Suc m" "length (tokens_of v) \<le> m" "length (?enc fs) < m"
    using Cons.prems(2) by (cases n) (auto simp: f)
  let ?rest = "?enc fs @ Delim (CHR ''}'') # rest"
  have s: "scanned (no_duplicates v) (d\<lparr>toks := ?rest\<rparr>) (scanValue m (d\<lparr>toks := ts @ ?rest\<rparr>) t)"
    using Cons.prems(1) m(2) t by (intro scansD) (auto simp: f)
  have IH: "scanned (distinct (map fst fs) \<and> fst ` set fs \<inter> insert k seen = {} \<and> (\<forall>(k, v) \<in> set fs. no_duplicates v))
      (d\<lparr>toks := Delim (CHR ''}'') # rest\<rparr>) (scan_object m (d\<lparr>toks := ?rest\<rparr>) (insert k seen))"
    using Cons.prems(1) m(3) by (intro Cons.IH) auto
  show ?case
    using s IH t by (auto simp: f m(1) More_def Token_def scanned_def split: if_splits)
qed

lemma scan_tokens: "scans v"
proof (induction v)
  case (JArr vs)
  show ?case
    unfolding scans_def
  proof (intro allI impI)
    fix n t ts rest and d :: decoder
    assume t: "tokens_of (JArr vs) = t # ts" and n: "length (tokens_of (JArr vs)) \<le> n"
    have "scanned (\<forall>v \<in> set vs. no_duplicates v) (d\<lparr>toks := Delim (CHR '']'') # rest\<rparr>)
        (scan_array n (d\<lparr>toks := concat (map tokens_of vs) @ Delim (CHR '']'') # rest\<rparr>))"
      using JArr n by (intro scan_array_ok) auto
    then show "scanned (no_duplicates (JArr vs)) (d\<lparr>toks := rest\<rparr>) (scanValue n (d\<lparr>toks := ts @ rest\<rparr>) t)"
      using t by (cases "\<forall>v \<in> set vs. no_duplicates v") (auto simp: scanValue.simps Token_def scanned_def)
  qed
next
  case (JObj fs)
  show ?case
    unfolding scans_def
  proof (intro allI impI)
    fix n t ts rest and d :: decoder
    assume t: "tokens_of (JObj fs) = t # ts" and n: "length (tokens_of (JObj fs)) \<le> n"
    have "\<forall>(k, v) \<in> set fs. scans v" using JObj by fastforce
    then have "scanned (distinct (map fst fs) \<and> fst ` set fs \<inter> {} = {} \<and> (\<forall>(k, v) \<in> set fs. no_duplicates v))
        (d\<lparr>toks := Delim (CHR ''}'') # rest\<rparr>)
        (scan_object n (d\<lparr>toks := concat (map (\<lambda>(k, v). StringTok k # tokens_of v) fs) @ Delim (CHR ''}'') # rest\<rparr>) {})"
      using n by (intro scan_object_ok) auto
    then show "scanned (no_duplicates (JObj fs)) (d\<lparr>toks := rest\<rparr>) (scanValue n (d\<lparr>toks := ts @ rest\<rparr>) t)"
      using t by (cases "no_duplicates (JObj fs)") (auto simp: scanValue.simps Token_def scanned_def split: if_splits)
  qed
qed (simp_all add: scans_def scanned_def scanValue.simps)

text \<open>
  C40: the duplicate check is exact on every JSON document. A document that is one JSON value is
  accepted if no object in it, at any depth, has two fields of the same name, and otherwise rejected
  with a duplicate-field error; a second value after it is rejected too.
\<close>

theorem rejectDuplicateKeys_iff:
  "(rejectDuplicateKeys \<lparr>toks = tokens_of v, tail_err = IoEOF\<rparr> = Inr () \<longleftrightarrow> no_duplicates v) \<and>
   (no_duplicates v \<or> (\<exists>k. rejectDuplicateKeys \<lparr>toks = tokens_of v, tail_err = IoEOF\<rparr> = Inl (DuplicateField k))) \<and>
   \<not> is_ok (rejectDuplicateKeys \<lparr>toks = tokens_of v @ tokens_of w, tail_err = e\<rparr>)"
proof -
  obtain t ts where t: "tokens_of v = t # ts" by (rule tokens_Cons)
  obtain u us where u: "tokens_of w = u # us" by (rule tokens_Cons)
  have s: "scanned (no_duplicates v) \<lparr>toks = rest, tail_err = e\<rparr> (scanValue n \<lparr>toks = ts @ rest, tail_err = e\<rparr> t)"
    if "length (tokens_of v) \<le> n" for n rest e
    using scansD [OF scan_tokens t that, where d = "\<lparr>toks = [], tail_err = e\<rparr>" and rest = rest] by simp
  show ?thesis
    using s [of "length (t # ts) + 1" "[]" IoEOF] s [of "length (t # ts @ u # us) + 1" "u # us" e]
    by (auto simp: t u rejectDuplicateKeys_def Token_def scanned_def split: if_splits)
qed

end
