(* ===== verification/Metric.thy ===== *)
theory Metric
  imports Records
begin

text \<open>
  The XOR metric of \<^verbatim>\<open>internal/dht/table.go\<close> (\<^verbatim>\<open>routingIDBytes\<close>, \<^verbatim>\<open>xorDistance\<close>, \<^verbatim>\<open>bucketIndex\<close>,
  \<^verbatim>\<open>randomTargetInBucket\<close>), the keys of \<^verbatim>\<open>internal/dht/dht.go\<close> and the conversion between signed
  endpoint records and node infos of \<^verbatim>\<open>internal/dht/nodeinfo.go\<close>. A \<^verbatim>\<open>*big.Int\<close> is a natural number.
\<close>

section \<open>Keys and node infos\<close>

definition NodeNameHash :: "golib \<Rightarrow> string \<Rightarrow> string" where
  "NodeNameHash G name = (case NormalizeNodeName G name of
     Inl _ \<Rightarrow> []
   | Inr canonical \<Rightarrow> EncodeToString (sha256 G (bytes_of (''vx6/node-name/v1'' @ [CHR 0x00] @ canonical))))"

definition NodeNameKey :: "golib \<Rightarrow> string \<Rightarrow> string" where
  "NodeNameKey G name = ''node/name/'' @ NodeNameHash G name"

definition NodeIDKey :: "string \<Rightarrow> string" where
  "NodeIDKey nodeID = ''node/id/'' @ nodeID"

definition NodePublicKeyKey :: "golib \<Rightarrow> bytes \<Rightarrow> string option" where
  "NodePublicKeyKey G publicKey =
     (if length publicKey \<noteq> 32 then None else Some (NodeIDKey (NodeIDFromPublicKey G publicKey)))"

definition ServiceKey :: "golib \<Rightarrow> string \<Rightarrow> string" where
  "ServiceKey G fullName = (case Cut fullName (CHR ''.'') of
     Some (nodeName, serviceName) \<Rightarrow>
       (case NormalizeNodeName G nodeName of
          Inr canonical \<Rightarrow> ''service/'' @ canonical @ ''.'' @ serviceName
        | Inl _ \<Rightarrow> ''service/'' @ fullName)
   | None \<Rightarrow> ''service/'' @ fullName)"

definition isTrustedLookupKey :: "string \<Rightarrow> bool" where
  "isTrustedLookupKey key \<longleftrightarrow> HasPrefix key ''node/name/'' \<or> HasPrefix key ''node/id/'' \<or>
     HasPrefix key ''service/'' \<or> HasPrefix key ''hidden-desc/v1/'' \<or> HasPrefix key ''private-catalog/''"

definition nodeNameHash :: "golib \<Rightarrow> NodeInfo \<Rightarrow> string" where
  "nodeNameHash G node = (if ni_NameHash node \<noteq> [] then ni_NameHash node else NodeNameHash G (ni_Name node))"

definition NodeInfoFromEndpointRecord :: "golib \<Rightarrow> EndpointRecord \<Rightarrow> NodeInfo" where
  "NodeInfoFromEndpointRecord G r =
     \<lparr>ni_IdentityVersion = er_Version r, ni_IdentitySequence = er_Sequence r, ni_ID = er_NodeID r,
      ni_Name = er_NodeName r, ni_NameHash = NodeNameHash G (er_NodeName r), ni_Addr = er_Address r,
      ni_PublicKey = er_PublicKey r, ni_IdentityIssuedAt = er_IssuedAt r,
      ni_IdentityExpiresAt = er_ExpiresAt r, ni_IdentitySignature = er_Signature r\<rparr>"

definition endpointRecordFromNodeInfo :: "NodeInfo \<Rightarrow> EndpointRecord" where
  "endpointRecordFromNodeInfo node =
     \<lparr>er_Version = ni_IdentityVersion node, er_Sequence = ni_IdentitySequence node, er_NodeID = ni_ID node,
      er_NodeName = ni_Name node, er_Address = ni_Addr node, er_PublicKey = ni_PublicKey node,
      er_IssuedAt = ni_IdentityIssuedAt node, er_ExpiresAt = ni_IdentityExpiresAt node,
      er_Signature = ni_IdentitySignature node\<rparr>"

datatype node_error = NodeMissingFields | NodeNameHashMismatch | NodeRecord record_error

definition VerifyNodeInfo :: "golib \<Rightarrow> NodeInfo \<Rightarrow> time \<Rightarrow> node_error + unit" where
  "VerifyNodeInfo G info now =
     (if ni_ID info = [] \<or> ni_Name info = [] \<or> ni_Addr info = [] \<or> ni_PublicKey info = [] \<or>
         ni_IdentityIssuedAt info = [] \<or> ni_IdentityExpiresAt info = [] \<or> ni_IdentitySignature info = []
      then Inl NodeMissingFields
      else if ni_NameHash info \<noteq> [] \<and> ni_NameHash info \<noteq> NodeNameHash G (ni_Name info) then Inl NodeNameHashMismatch
      else (case VerifyEndpointRecord G (endpointRecordFromNodeInfo info) now of
        Inl e \<Rightarrow> Inl (NodeRecord e)
      | Inr _ \<Rightarrow> Inr ()))"

section \<open>The metric\<close>

definition routingIDBytes :: "golib \<Rightarrow> string \<Rightarrow> bytes" where
  "routingIDBytes G value =
     (let encoded =
        (if HasPrefix value ''vx6_'' then TrimPrefix value ''vx6_''
         else if HasPrefix value ''node/name/'' then TrimPrefix value ''node/name/''
         else if HasPrefix value ''node/id/'' then TrimPrefix value ''node/id/vx6_''
         else [])
      in if length encoded = 64 then
           (case DecodeString encoded of Some decoded \<Rightarrow> decoded | None \<Rightarrow> sha256 G (bytes_of value))
         else sha256 G (bytes_of value))"

definition xorDistance :: "golib \<Rightarrow> string \<Rightarrow> string \<Rightarrow> nat" where
  "xorDistance G id1 id2 = SetBytes (routingIDBytes G id1) XOR SetBytes (routingIDBytes G id2)"

definition bucketIndex :: "golib \<Rightarrow> string \<Rightarrow> string \<Rightarrow> int" where
  "bucketIndex G self nodeID = int (BitLen (xorDistance G self nodeID)) - 1"

definition nameBucketIndex :: "golib \<Rightarrow> string \<Rightarrow> NodeInfo \<Rightarrow> int" where
  "nameBucketIndex G selfNameHash node = int (BitLen (xorDistance G selfNameHash (nodeNameHash G node))) - 1"

text \<open>\<^verbatim>\<open>rnd\<close> is the number \<^verbatim>\<open>rand.Int\<close> draws below \<open>2 ^ bucket\<close>.\<close>

definition randomTargetInBucket :: "golib \<Rightarrow> nat \<Rightarrow> string \<Rightarrow> int \<Rightarrow> string" where
  "randomTargetInBucket G rnd selfCoordinate bucket =
     (if bucket < 0 \<or> bucket > 255 then []
      else let delta = set_bit (nat bucket) rnd;
               self = SetBytes (routingIDBytes G selfCoordinate)
           in EncodeToString (FillBytes 32 (self XOR delta)))"

section \<open>Properties of the metric\<close>

lemma length_routingIDBytes: "sha256_ok G \<Longrightarrow> length (routingIDBytes G v) = 32"
  by (auto simp: routingIDBytes_def Let_def sha256_ok_def split: option.splits dest: length_Decode)

lemma coordinate_less: "sha256_ok G \<Longrightarrow> SetBytes (routingIDBytes G v) < 2 ^ 256"
  using SetBytes_less [of "routingIDBytes G v"] by (simp add: length_routingIDBytes)

lemma nat_xor_less: "a < 2 ^ n \<Longrightarrow> b < 2 ^ n \<Longrightarrow> a XOR b < (2 :: nat) ^ n"
  by (metis take_bit_nat_eq_self take_bit_nat_less_exp take_bit_xor)

lemma xorDistance_less: "sha256_ok G \<Longrightarrow> xorDistance G a b < 2 ^ 256"
  unfolding xorDistance_def by (intro nat_xor_less coordinate_less)

lemma xorDistance_sym: "xorDistance G a b = xorDistance G b a"
  by (simp add: xorDistance_def xor.commute)

lemma xorDistance_0_iff:
  "sha256_ok G \<Longrightarrow> xorDistance G a b = 0 \<longleftrightarrow> routingIDBytes G a = routingIDBytes G b"
  by (auto simp: xorDistance_def bit_eq_iff bit_xor_iff length_routingIDBytes intro: SetBytes_inj)

lemma xor_le_plus: "a XOR b \<le> a + (b :: nat)"
proof -
  have "(int a XOR int b) AND (int a AND int b) = 0" by (auto simp: bit_eq_iff bit_simps)
  then have "(int a XOR int b) + (int a AND int b) = (int a XOR int b) OR (int a AND int b)"
    by (rule disjunctive_add_eq_or)
  also have "\<dots> = int a OR int b" by (auto simp: bit_eq_iff bit_simps)
  finally have "(int a XOR int b) + 2 * (int a AND int b) = int a + int b"
    using plus_and_or [of "int a" "int b"] by linarith
  moreover have "0 \<le> int a AND int b" by simp
  ultimately have "int a XOR int b \<le> int a + int b" by linarith
  then have "int (a XOR b) \<le> int (a + b)" by (simp add: of_nat_xor_eq)
  then show ?thesis by linarith
qed

lemma xorDistance_cancel: "xorDistance G a c = xorDistance G a b XOR xorDistance G b c"
  by (simp add: xorDistance_def xor.assoc flip: xor.assoc [of "SetBytes (routingIDBytes G b)"])

text \<open>
  The distance is a metric on routing coordinates: it is symmetric, zero exactly between equal
  coordinates, satisfies the triangle inequality, and is unidirectional: a target has at most one
  coordinate at a given distance. Distances are below \<open>2 ^ 256\<close>.
\<close>

theorem xorDistance_metric:
  assumes "sha256_ok G"
  shows "xorDistance G a b = xorDistance G b a \<and>
    (xorDistance G a b = 0 \<longleftrightarrow> routingIDBytes G a = routingIDBytes G b) \<and>
    xorDistance G a c \<le> xorDistance G a b + xorDistance G b c \<and>
    (xorDistance G a b = xorDistance G a c \<longleftrightarrow> routingIDBytes G b = routingIDBytes G c) \<and>
    xorDistance G a b < 2 ^ 256"
proof -
  have "xorDistance G a b = xorDistance G a c \<longleftrightarrow> xorDistance G b c = 0"
    unfolding xorDistance_cancel [of G b c a] xorDistance_sym [of G b a] by (auto simp: bit_eq_iff bit_simps)
  then show ?thesis
    using assms xor_le_plus [of "xorDistance G a b" "xorDistance G b c"] xorDistance_less [OF assms, of a b]
    by (simp add: xorDistance_sym xorDistance_0_iff flip: xorDistance_cancel)
qed

lemma bucketIndex_range: "sha256_ok G \<Longrightarrow> - 1 \<le> bucketIndex G s n \<and> bucketIndex G s n \<le> 255"
  using BitLen_le_iff [of "xorDistance G s n" 256] xorDistance_less [of G s n] by (simp add: bucketIndex_def)

lemma bucketIndex_neg: "sha256_ok G \<Longrightarrow> bucketIndex G s n < 0 \<longleftrightarrow> routingIDBytes G s = routingIDBytes G n"
  using BitLen_pos [of "xorDistance G s n"] by (auto simp: bucketIndex_def simp flip: xorDistance_0_iff)

lemma bucketIndex_eq_iff:
  "bucketIndex G s n = int i \<longleftrightarrow> 2 ^ i \<le> xorDistance G s n \<and> xorDistance G s n < 2 ^ Suc i"
  using BitLen_Suc_iff [of "xorDistance G s n" i] by (auto simp: bucketIndex_def)

text \<open>Node IDs made from different keys have different coordinates, or SHA-256 collides.\<close>

lemma routingIDBytes_NodeID: "sha256_ok G \<Longrightarrow> routingIDBytes G (NodeIDFromPublicKey G k) = sha256 G k"
proof -
  assume "sha256_ok G"
  then have "length (EncodeToString (sha256 G k)) = 64" by (simp add: sha256_ok_def)
  moreover have "HasPrefix (NodeIDFromPublicKey G k) ''vx6_''" "TrimPrefix (NodeIDFromPublicKey G k) ''vx6_'' = EncodeToString (sha256 G k)"
    unfolding NodeIDFromPublicKey_def by (rule HasPrefix_append TrimPrefix_append)+
  ultimately show ?thesis by (simp add: routingIDBytes_def codec_simps)
qed

lemma bucketIndex_NodeIDs:
  assumes "sha256_ok G" "NodeIDFromPublicKey G k \<noteq> NodeIDFromPublicKey G k'"
  shows "0 \<le> bucketIndex G (NodeIDFromPublicKey G k) (NodeIDFromPublicKey G k')"
proof -
  have "sha256 G k \<noteq> sha256 G k'" using assms(2) by (auto simp: NodeIDFromPublicKey_def)
  then show ?thesis
    using bucketIndex_neg [OF assms(1), of "NodeIDFromPublicKey G k" "NodeIDFromPublicKey G k'"]
    by (simp add: routingIDBytes_NodeID [OF assms(1)])
qed

lemma set_bit_range: "rnd < 2 ^ n \<Longrightarrow> 2 ^ n \<le> set_bit n rnd \<and> set_bit n rnd < (2 :: nat) ^ Suc n"
proof -
  assume r: "rnd < 2 ^ n"
  then have "\<not> bit rnd n" by (metis bit_take_bit_iff less_irrefl take_bit_nat_eq_self)
  then have "set_bit n rnd = rnd + 2 ^ n" by (simp add: set_bit_eq)
  with r show ?thesis by simp
qed

lemma random_target_at:
  assumes "sha256_ok G" "i < 256" "rnd < 2 ^ i"
  shows "bucketIndex G self (''vx6_'' @ randomTargetInBucket G rnd self (int i)) = int i \<and>
    (rnd' < 2 ^ i \<longrightarrow> randomTargetInBucket G rnd' self (int i) = randomTargetInBucket G rnd self (int i) \<longrightarrow> rnd' = rnd)"
proof -
  let ?s = "SetBytes (routingIDBytes G self)"
  have less: "?s XOR set_bit i r < 256 ^ 32" if "r < 2 ^ i" for r
  proof -
    have "set_bit i r < 2 ^ Suc i" using set_bit_range [OF that] by blast
    also have "\<dots> \<le> (2 :: nat) ^ 256" using assms(2) by (intro power_increasing) auto
    finally have "?s XOR set_bit i r < 2 ^ 256" using coordinate_less [OF assms(1)] by (intro nat_xor_less)
    then show ?thesis by simp
  qed
  have t: "randomTargetInBucket G r self (int i) = EncodeToString (FillBytes 32 (?s XOR set_bit i r))" for r
    using assms(2) by (simp add: randomTargetInBucket_def)
  let ?t = "''vx6_'' @ randomTargetInBucket G rnd self (int i)"
  have "HasPrefix ?t ''vx6_''" "TrimPrefix ?t ''vx6_'' = EncodeToString (FillBytes 32 (?s XOR set_bit i rnd))"
    unfolding t by (rule HasPrefix_append TrimPrefix_append)+
  then have "routingIDBytes G ?t = FillBytes 32 (?s XOR set_bit i rnd)"
    by (simp add: routingIDBytes_def codec_simps)
  then have "xorDistance G self ?t = ?s XOR (?s XOR set_bit i rnd)"
    unfolding xorDistance_def by (simp only: SetBytes_FillBytes [OF less [OF assms(3)]])
  also have "\<dots> = set_bit i rnd" by (simp flip: xor.assoc)
  finally have "bucketIndex G self ?t = int i"
    using set_bit_range [OF assms(3)] unfolding bucketIndex_eq_iff by simp
  moreover have "rnd' = rnd" if "rnd' < 2 ^ i" "randomTargetInBucket G rnd' self (int i) = randomTargetInBucket G rnd self (int i)"
  proof -
    have "?s XOR set_bit i rnd' = ?s XOR set_bit i rnd"
      using that less assms(3) by (metis EncodeToString_inj SetBytes_FillBytes t)
    then have "set_bit i rnd' = set_bit i rnd" by (metis xor.assoc xor_self_eq xor.left_neutral)
    then have "set_bit i rnd' - 2 ^ i = set_bit i rnd - 2 ^ i" by simp
    moreover have "set_bit i r - 2 ^ i = r" if "r < 2 ^ i" for r :: nat
    proof -
      have "\<not> bit r i" using that by (metis bit_take_bit_iff less_irrefl take_bit_nat_eq_self)
      then show ?thesis by (simp add: set_bit_eq)
    qed
    ultimately show ?thesis using that(1) assms(3) by simp
  qed
  ultimately show ?thesis by blast
qed

text \<open>
  A refresh target lies in its bucket. Whatever the random number drawn, the target made for an
  identity bucket \<^verbatim>\<open>i\<close>, used as the node ID \<^verbatim>\<open>vx6_...\<close> the table builds from it, has bucket index
  exactly \<^verbatim>\<open>i\<close>, and different draws give different targets.
\<close>

theorem randomTargetInBucket_in_bucket:
  assumes "sha256_ok G" "i < 256" "rnd < 2 ^ i"
  shows "bucketIndex G self (''vx6_'' @ randomTargetInBucket G rnd self (int i)) = int i \<and>
    (rnd' < 2 ^ i \<longrightarrow> randomTargetInBucket G rnd' self (int i) = randomTargetInBucket G rnd self (int i) \<longrightarrow> rnd' = rnd)"
  using assms by (rule random_target_at)

end
