(* ===== verification/Asn.thy ===== *)
theory Asn
  imports GoNet Crypto
begin

text \<open>
  Network coordinates of an address (\<^verbatim>\<open>dht/asn.go\<close>, the address helpers of \<^verbatim>\<open>dht/dht.go\<close>): the
  resolver that maps IP prefixes to autonomous-system numbers and caches its answers, and the
  diversity keys of a peer address. The interface \<^verbatim>\<open>ASNResolver\<close> is a function argument of the code
  that uses it; the prefix resolver is shown to be such a function in spite of its cache.
\<close>

section \<open>\<^verbatim>\<open>net.IP\<close> and \<^verbatim>\<open>net.IPNet\<close>\<close>

definition To4 :: "bytes \<Rightarrow> bytes option" where
  "To4 ip = (if length ip = 4 then Some ip else if is_v4 ip then Some (drop 12 ip) else None)"

definition CIDRMask :: "nat \<Rightarrow> nat \<Rightarrow> bytes" where
  "CIDRMask ones bits = map (\<lambda>i. if 8 * Suc i \<le> ones then 0xFF else if ones \<le> 8 * i then 0
     else NOT (push_bit (8 - (ones - 8 * i)) 1 - 1)) [0..<bits div 8]"

definition Mask :: "bytes \<Rightarrow> bytes \<Rightarrow> bytes" where
  "Mask ip m = map2 (AND) ip m"

definition IsLoopback :: "bytes \<Rightarrow> bool" where
  "IsLoopback ip \<longleftrightarrow> (case To4 ip of
     Some v4 \<Rightarrow> v4 ! 0 = 127
   | None \<Rightarrow> ip = replicate 15 0 @ [1])"

definition Trim :: "string \<Rightarrow> string \<Rightarrow> string" where
  "Trim s cutset = (let t = dropWhile (\<lambda>c. c \<in> set cutset) in rev (t (rev (t s))))"

record IPNet =
  net_IP :: bytes
  net_Mask :: bytes

definition networkNumberAndMask :: "IPNet \<Rightarrow> bytes \<times> bytes" where
  "networkNumberAndMask n =
     (let ip = (case To4 (net_IP n) of Some v4 \<Rightarrow> v4 | None \<Rightarrow> net_IP n); m = net_Mask n in
      if length ip \<noteq> 4 \<and> length ip \<noteq> 16 then ([], [])
      else if length m = 4 then (if length ip = 4 then (ip, m) else ([], []))
      else if length m = 16 then (ip, if length ip = 4 then drop 12 m else m)
      else ([], []))"

definition Contains :: "IPNet \<Rightarrow> bytes \<Rightarrow> bool" where
  "Contains n ip0 =
     (let (nn, m) = networkNumberAndMask n; ip = (case To4 ip0 of Some v4 \<Rightarrow> v4 | None \<Rightarrow> ip0) in
      length ip = length nn \<and> Mask nn m = Mask ip m)"

section \<open>The resolver\<close>

record asnRangeEntry =
  ar_network :: IPNet
  ar_asn :: string

record asnCacheEntry =
  ac_asn :: string
  ac_ok :: bool

record prefixASNResolver =
  pr_entries :: "asnRangeEntry list"
  pr_cache :: "string \<rightharpoonup> asnCacheEntry"

fun lookup_entries :: "asnRangeEntry list \<Rightarrow> bytes \<Rightarrow> string option" where
  "lookup_entries [] ip = None"
| "lookup_entries (e # es) ip = (if Contains (ar_network e) ip then Some (ar_asn e) else lookup_entries es ip)"

definition Resolve :: "golib \<Rightarrow> prefixASNResolver \<Rightarrow> bytes \<Rightarrow> string option \<times> prefixASNResolver" where
  "Resolve G r ip = (let host = ip_string G ip in
     case pr_cache r host of
       Some c \<Rightarrow> (if ac_ok c then Some (ac_asn c) else None, r)
     | None \<Rightarrow> (case lookup_entries (pr_entries r) ip of
         Some asn \<Rightarrow> (Some asn, r\<lparr>pr_cache := (pr_cache r)(host \<mapsto> \<lparr>ac_asn = asn, ac_ok = True\<rparr>)\<rparr>)
       | None \<Rightarrow> (None, r\<lparr>pr_cache := (pr_cache r)(host \<mapsto> \<lparr>ac_asn = [], ac_ok = False\<rparr>)\<rparr>)))"

text \<open>
  Building the resolver from the entries of a decoded map file: entries without a prefix or a number
  are skipped, the first malformed prefix aborts. \<^verbatim>\<open>None\<close> as a resolver is \<^verbatim>\<open>noASNResolver\<close>.
\<close>

record ASNMapEntry =
  am_CIDR :: string
  am_ASN :: string

fun parse_entries :: "golib \<Rightarrow> (string \<Rightarrow> IPNet option) \<Rightarrow> ASNMapEntry list \<Rightarrow> string + asnRangeEntry list" where
  "parse_entries G parse_cidr [] = Inr []"
| "parse_entries G parse_cidr (e # es) =
     (let cidr = TrimSpace G (am_CIDR e); asn = TrimSpace G (am_ASN e) in
      if cidr = [] \<or> asn = [] then parse_entries G parse_cidr es
      else (case parse_cidr cidr of
          None \<Rightarrow> Inl cidr
        | Some network \<Rightarrow> (case parse_entries G parse_cidr es of
             Inl e \<Rightarrow> Inl e
           | Inr rs \<Rightarrow> Inr (\<lparr>ar_network = network, ar_asn = asn\<rparr> # rs))))"

definition LoadASNResolver ::
  "golib \<Rightarrow> (string \<Rightarrow> IPNet option) \<Rightarrow> ASNMapEntry list \<Rightarrow> string + prefixASNResolver option" where
  "LoadASNResolver G parse_cidr file =
     (if file = [] then Inr None
      else (case parse_entries G parse_cidr file of
          Inl e \<Rightarrow> Inl e
        | Inr rs \<Rightarrow> Inr (if rs = [] then None else Some \<lparr>pr_entries = rs, pr_cache = Map.empty\<rparr>)))"

section \<open>Addresses\<close>

type_synonym asn_resolver = "bytes \<Rightarrow> string option"

definition host_ip :: "golib \<Rightarrow> string \<Rightarrow> bytes option" where
  "host_ip G addr = (let host = (case SplitHostPort addr of Inr (h, _) \<Rightarrow> h | Inl _ \<Rightarrow> addr)
     in parse_ip G (Trim host ''[]''))"

definition ResolveASNForAddr :: "golib \<Rightarrow> asn_resolver \<Rightarrow> string \<Rightarrow> string option" where
  "ResolveASNForAddr G R addr = (case host_ip G addr of None \<Rightarrow> None | Some ip \<Rightarrow> R ip)"

definition ipv6Prefix48 :: "golib \<Rightarrow> string \<Rightarrow> string" where
  "ipv6Prefix48 G address = (case host_ip G address of
     None \<Rightarrow> []
   | Some ip \<Rightarrow> if is_v4 ip then [] else ip_string G (Mask ip (CIDRMask 48 128)))"

definition peerDiversityKeys :: "golib \<Rightarrow> asn_resolver \<Rightarrow> string \<Rightarrow> string list" where
  "peerDiversityKeys G R addr =
     (case ResolveASNForAddr G R addr of Some asn \<Rightarrow> [''asn:'' @ asn] | None \<Rightarrow> []) @
     (if ipv6Prefix48 G addr \<noteq> [] then [''prefix:'' @ ipv6Prefix48 G addr] else [])"

section \<open>The cache is transparent\<close>

text \<open>
  \<^verbatim>\<open>IP.String\<close> prints different addresses differently. The 16-byte form is the one \<^verbatim>\<open>ParseIP\<close>
  returns.
\<close>

definition ip_string_ok :: "golib \<Rightarrow> bool" where
  "ip_string_ok G \<longleftrightarrow>
     (\<forall>a b. length a = 16 \<longrightarrow> length b = 16 \<longrightarrow> ip_string G a = ip_string G b \<longrightarrow> a = b)"

definition cache_ok :: "golib \<Rightarrow> prefixASNResolver \<Rightarrow> bool" where
  "cache_ok G r \<longleftrightarrow> (\<forall>host c. pr_cache r host = Some c \<longrightarrow>
     (\<exists>ip. length ip = 16 \<and> ip_string G ip = host \<and>
        (if ac_ok c then Some (ac_asn c) else None) = lookup_entries (pr_entries r) ip))"

fun resolve_all :: "golib \<Rightarrow> prefixASNResolver \<Rightarrow> bytes list \<Rightarrow> string option list \<times> prefixASNResolver" where
  "resolve_all G r [] = ([], r)"
| "resolve_all G r (ip # ips) =
     (let (a, r') = Resolve G r ip; (as, r'') = resolve_all G r' ips in (a # as, r''))"

lemma Resolve_entries [simp]: "pr_entries (snd (Resolve G r ip)) = pr_entries r"
  by (simp add: Resolve_def Let_def split: option.splits)

lemma Resolve_cache_ok [inv_intros]:
  "cache_ok G r \<Longrightarrow> length ip = 16 \<Longrightarrow> cache_ok G (snd (Resolve G r ip))"
  unfolding cache_ok_def Resolve_def Let_def
  by (fastforce split: option.splits if_split_asm simp del: if_split)

lemma Resolve_answer:
  assumes "ip_string_ok G" "cache_ok G r" "length ip = 16"
  shows "fst (Resolve G r ip) = lookup_entries (pr_entries r) ip"
proof (cases "pr_cache r (ip_string G ip)")
  case None
  then show ?thesis by (simp add: Resolve_def Let_def split: option.splits)
next
  case (Some c)
  then obtain ip' where ip': "length ip' = 16" "ip_string G ip' = ip_string G ip"
    "(if ac_ok c then Some (ac_asn c) else None) = lookup_entries (pr_entries r) ip'"
    using assms(2) unfolding cache_ok_def by blast
  then have "ip' = ip" using assms(1,3) unfolding ip_string_ok_def by blast
  with ip'(3) Some show ?thesis by (simp add: Resolve_def)
qed

lemma resolve_all_answers:
  assumes "ip_string_ok G" "cache_ok G r" "\<forall>ip \<in> set ips. length ip = 16"
  shows "fst (resolve_all G r ips) = map (lookup_entries (pr_entries r)) ips"
  using assms(2,3)
proof (induction ips arbitrary: r)
  case Nil
  then show ?case by simp
next
  case (Cons ip ips)
  have "cache_ok G (snd (Resolve G r ip))" using Cons.prems by (intro inv_intros) simp_all
  from Cons.IH [OF this] Cons.prems Resolve_answer [OF assms(1) Cons.prems(1), of ip]
  show ?case by (simp add: case_prod_beta Let_def)
qed

text \<open>
  C37: the prefix resolver answers as if it had no cache. However many addresses a freshly loaded
  resolver is asked for, in whatever order and with whatever repetitions, every answer is the number
  of the first entry of the map whose prefix contains the address, or none.
\<close>

theorem Resolve_cache_transparent:
  assumes "ip_string_ok G" "LoadASNResolver G parse_cidr file = Inr (Some r)"
    and "\<forall>ip \<in> set ips. length ip = 16"
  shows "fst (resolve_all G r ips) = map (lookup_entries (pr_entries r)) ips \<and> pr_cache r = Map.empty"
proof -
  have "pr_cache r = Map.empty"
    using assms(2) by (auto simp: LoadASNResolver_def split: if_splits sum.splits)
  moreover from this have "cache_ok G r"
    by (simp add: cache_ok_def)
  ultimately show ?thesis using assms resolve_all_answers by blast
qed

definition demo_net :: IPNet where
  "demo_net = \<lparr>net_IP = [0x20, 0x01, 0x0D, 0xB8] @ replicate 12 0, net_Mask = CIDRMask 32 128\<rparr>"

definition demo_ip :: "byte \<Rightarrow> bytes" where
  "demo_ip b = [0x20, 0x01, 0x0D, b] @ replicate 12 7"

lemma demo_ip_string_ok: "ip_string_ok demo_lib"
  unfolding ip_string_ok_def demo_lib_def golib.simps by (metis Decode_Encode option.inject)

theorem Resolve_cache_transparent_witness:
  "fst (resolve_all demo_lib \<lparr>pr_entries = [\<lparr>ar_network = demo_net, ar_asn = ''64500''\<rparr>], pr_cache = Map.empty\<rparr>
      [demo_ip 0xB8, demo_ip 0xB9, demo_ip 0xB8]) = [Some ''64500'', None, Some ''64500'']"
proof -
  have "LoadASNResolver demo_lib (\<lambda>_. Some demo_net) [\<lparr>am_CIDR = ''2001:db8::/32'', am_ASN = '' 64500''\<rparr>] =
      Inr (Some \<lparr>pr_entries = [\<lparr>ar_network = demo_net, ar_asn = ''64500''\<rparr>], pr_cache = Map.empty\<rparr>)"
    by (simp add: LoadASNResolver_def TrimSpace_def is_ascii_def trim_ascii_def space_char_def)
  moreover have "Contains demo_net (demo_ip 0xB8)" "\<not> Contains demo_net (demo_ip 0xB9)"
    by code_simp+
  ultimately show ?thesis
    using Resolve_cache_transparent [OF demo_ip_string_ok,
      of "\<lambda>_. Some demo_net" "[\<lparr>am_CIDR = ''2001:db8::/32'', am_ASN = '' 64500''\<rparr>]" _
        "[demo_ip 0xB8, demo_ip 0xB9, demo_ip 0xB8]"]
    by (simp add: demo_ip_def)
qed

end
