(* ===== verification/Peers.thy ===== *)
theory Peers
  imports Metric Asn
begin

text \<open>
  Peer bookkeeping of the DHT: the routing-table entry and the persisted observation
  (\<^verbatim>\<open>dht/table.go\<close>), and the retention policy of the peer cache (\<^verbatim>\<open>dht/peer_store.go\<close>): the order of
  peers, their categories, the choice of the rows that are kept, the merge of a snapshot with the
  rows on disk, and the order in which rows come back as candidates. The database itself is a
  third-party package; its contents appear as the lists of rows the code reads from it.
\<close>

section \<open>Entries and observations\<close>

record bucketEntry =
  be_Node :: NodeInfo
  be_Transient :: bool
  be_FailCount :: byte
  be_SuccessCount :: u32
  be_LastSeen :: time
  be_FirstSeen :: time
  be_LastSuccess :: time
  be_LastUsed :: time
  be_LastFailure :: time
  be_LastProbe :: time
  be_LastProbeFailure :: time
  be_OfflineSince :: time
  be_ProbeMisses :: byte
  be_ProbationUntil :: time
  be_NextProbeAt :: time
  be_RTTMicros :: u32
  be_Pinned :: bool
  be_Friend :: bool
  be_UseCount :: u32
  be_ClosestIDRank :: u16
  be_ClosestNameRank :: u16

record PeerObservation =
  po_Node :: NodeInfo
  po_FailCount :: byte
  po_SuccessCount :: u32
  po_LastSeen :: time
  po_FirstSeen :: time
  po_LastSuccess :: time
  po_LastUsed :: time
  po_LastFailure :: time
  po_LastProbe :: time
  po_LastProbeFailure :: time
  po_OfflineSince :: time
  po_ProbeMisses :: byte
  po_ProbationUntil :: time
  po_NextProbeAt :: time
  po_RTTMicros :: u32
  po_Pinned :: bool
  po_Friend :: bool
  po_UseCount :: u32
  po_ClosestIDRank :: u16
  po_ClosestNameRank :: u16

definition zero_node :: NodeInfo where
  "zero_node = \<lparr>ni_IdentityVersion = 0, ni_IdentitySequence = 0, ni_ID = [], ni_Name = [], ni_NameHash = [],
     ni_Addr = [], ni_PublicKey = [], ni_IdentityIssuedAt = [], ni_IdentityExpiresAt = [], ni_IdentitySignature = []\<rparr>"

definition zero_entry :: "NodeInfo \<Rightarrow> bucketEntry" where
  "zero_entry node = \<lparr>be_Node = node, be_Transient = False, be_FailCount = 0, be_SuccessCount = 0,
     be_LastSeen = 0, be_FirstSeen = 0, be_LastSuccess = 0, be_LastUsed = 0, be_LastFailure = 0,
     be_LastProbe = 0, be_LastProbeFailure = 0, be_OfflineSince = 0, be_ProbeMisses = 0,
     be_ProbationUntil = 0, be_NextProbeAt = 0, be_RTTMicros = 0, be_Pinned = False, be_Friend = False,
     be_UseCount = 0, be_ClosestIDRank = 0, be_ClosestNameRank = 0\<rparr>"

definition zero_observation :: "NodeInfo \<Rightarrow> PeerObservation" where
  "zero_observation node = \<lparr>po_Node = node, po_FailCount = 0, po_SuccessCount = 0,
     po_LastSeen = 0, po_FirstSeen = 0, po_LastSuccess = 0, po_LastUsed = 0, po_LastFailure = 0,
     po_LastProbe = 0, po_LastProbeFailure = 0, po_OfflineSince = 0, po_ProbeMisses = 0,
     po_ProbationUntil = 0, po_NextProbeAt = 0, po_RTTMicros = 0, po_Pinned = False, po_Friend = False,
     po_UseCount = 0, po_ClosestIDRank = 0, po_ClosestNameRank = 0\<rparr>"

abbreviation po_ID :: "PeerObservation \<Rightarrow> string" where
  "po_ID p \<equiv> ni_ID (po_Node p)"

definition observationOf :: "bucketEntry \<Rightarrow> PeerObservation" where
  "observationOf e = (zero_observation (be_Node e))\<lparr>po_Pinned := be_Pinned e, po_Friend := be_Friend e,
     po_UseCount := be_UseCount e, po_SuccessCount := be_SuccessCount e, po_FirstSeen := be_FirstSeen e,
     po_LastSuccess := be_LastSuccess e, po_LastUsed := be_LastUsed e, po_OfflineSince := be_OfflineSince e,
     po_ClosestIDRank := be_ClosestIDRank e, po_ClosestNameRank := be_ClosestNameRank e\<rparr>"

definition snapshot_of :: "bucketEntry \<Rightarrow> PeerObservation" where
  "snapshot_of e = \<lparr>po_Node = be_Node e, po_FailCount = be_FailCount e, po_SuccessCount = be_SuccessCount e,
     po_LastSeen = be_LastSeen e, po_FirstSeen = be_FirstSeen e, po_LastSuccess = be_LastSuccess e,
     po_LastUsed = be_LastUsed e, po_LastFailure = be_LastFailure e, po_LastProbe = be_LastProbe e,
     po_LastProbeFailure = be_LastProbeFailure e, po_OfflineSince = be_OfflineSince e,
     po_ProbeMisses = be_ProbeMisses e, po_ProbationUntil = be_ProbationUntil e,
     po_NextProbeAt = be_NextProbeAt e, po_RTTMicros = be_RTTMicros e, po_Pinned = be_Pinned e,
     po_Friend = be_Friend e, po_UseCount = be_UseCount e, po_ClosestIDRank = be_ClosestIDRank e,
     po_ClosestNameRank = be_ClosestNameRank e\<rparr>"

text \<open>The guarded increment \<^verbatim>\<open>if x < ^uint(0) { x++ }\<close>.\<close>

definition sat_inc :: "'w::len word \<Rightarrow> 'w word" where
  "sat_inc x = (if x < NOT 0 then x + 1 else x)"

lemma sat_inc_nonzero: "sat_inc x \<noteq> (0 :: 'w::len word)"
proof (cases "x < NOT 0")
  case True
  then have "x \<noteq> - 1" by auto
  then have "x + 1 \<noteq> 0" by (metis add_eq_0_iff2 add.commute)
  with True show ?thesis by (simp add: sat_inc_def)
next
  case False
  then have "x = - 1" by (simp add: not_less word_order.extremum_unique)
  then show ?thesis by (simp add: sat_inc_def)
qed

section \<open>Retention order and categories\<close>

abbreviation (input) peerHistoryTTL :: duration where "peerHistoryTTL \<equiv> 30 * 24 * hour"
abbreviation (input) peerAddressHintTTL :: duration where "peerAddressHintTTL \<equiv> 30 * 24 * hour"
abbreviation (input) peerCacheHotLimit :: nat where "peerCacheHotLimit \<equiv> 512"

definition po_used :: "PeerObservation \<Rightarrow> bool" where
  "po_used p \<longleftrightarrow> po_UseCount p > 0 \<or> \<not> IsZero (po_LastUsed p)"

definition po_closest :: "PeerObservation \<Rightarrow> bool" where
  "po_closest p \<longleftrightarrow> po_ClosestIDRank p > 0 \<or> po_ClosestNameRank p > 0"

definition peerRetentionLess :: "PeerObservation \<Rightarrow> PeerObservation \<Rightarrow> bool" where
  "peerRetentionLess a b =
     (if po_Friend a \<noteq> po_Friend b then po_Friend a
      else if po_Pinned a \<noteq> po_Pinned b then po_Pinned a
      else if po_used a \<noteq> po_used b then po_used a
      else if po_LastUsed a \<noteq> po_LastUsed b then po_LastUsed a > po_LastUsed b
      else if po_UseCount a \<noteq> po_UseCount b then po_UseCount a > po_UseCount b
      else if po_closest a \<noteq> po_closest b then po_closest a
      else if po_ClosestIDRank a > 0 \<and> po_ClosestIDRank b > 0 \<and> po_ClosestIDRank a \<noteq> po_ClosestIDRank b
        then po_ClosestIDRank a < po_ClosestIDRank b
      else if po_ClosestNameRank a > 0 \<and> po_ClosestNameRank b > 0 \<and> po_ClosestNameRank a \<noteq> po_ClosestNameRank b
        then po_ClosestNameRank a < po_ClosestNameRank b
      else if IsZero (po_OfflineSince a) \<noteq> IsZero (po_OfflineSince b) then IsZero (po_OfflineSince a)
      else if po_FirstSeen a \<noteq> po_FirstSeen b then
        (if IsZero (po_FirstSeen a) then False
         else if IsZero (po_FirstSeen b) then True
         else po_FirstSeen a < po_FirstSeen b)
      else if po_SuccessCount a \<noteq> po_SuccessCount b then po_SuccessCount a > po_SuccessCount b
      else po_LastSuccess a > po_LastSuccess b)"

definition peerCategories :: "PeerObservation \<Rightarrow> time \<Rightarrow> string list" where
  "peerCategories p now =
     (if po_Friend p then [''friends-v1''] else []) @
     (if po_UseCount p \<ge> 3 \<or> \<not> IsZero (po_LastUsed p) then [''used-v1''] else []) @
     (if po_ClosestIDRank p > 0 then [''closest-id-v1''] else []) @
     (if po_ClosestNameRank p > 0 then [''closest-name-v1''] else []) @
     (if IsZero (po_OfflineSince p) then [''active-v1''] else [''inactive-v1'']) @
     (if \<not> IsZero (po_ProbationUntil p) \<and> now < po_ProbationUntil p then [''probation-v1''] else [])"

definition peerNameHash :: "golib \<Rightarrow> NodeInfo \<Rightarrow> string" where
  "peerNameHash G node = (if ni_NameHash node \<noteq> [] then ni_NameHash node
     else if ni_Name node \<noteq> [] then NodeNameHash G (ni_Name node) else [])"

section \<open>Choosing the rows to keep\<close>

definition add_peer :: "nat \<Rightarrow> PeerObservation list \<Rightarrow> PeerObservation \<Rightarrow> PeerObservation list" where
  "add_peer limit selected p =
     (if length selected \<ge> limit then selected
      else if po_ID p \<in> set (map po_ID selected) then selected
      else selected @ [p])"

definition add_where ::
  "nat \<Rightarrow> (PeerObservation \<Rightarrow> bool) \<Rightarrow> PeerObservation list \<Rightarrow> PeerObservation list \<Rightarrow> PeerObservation list" where
  "add_where limit P ordered selected = foldl (add_peer limit) selected (filter P ordered)"

text \<open>The pass that admits an online peer if its address adds a network not yet covered.\<close>

fun add_diverse ::
  "(string \<Rightarrow> string list) \<Rightarrow> nat \<Rightarrow> PeerObservation list \<Rightarrow> string set \<Rightarrow> PeerObservation list \<Rightarrow> PeerObservation list" where
  "add_diverse keys limit [] covered selected = selected"
| "add_diverse keys limit (p # ps) covered selected =
     (if \<not> IsZero (po_OfflineSince p) then add_diverse keys limit ps covered selected
      else (let ks = keys (ni_Addr (po_Node p)) in
        if list_ex (\<lambda>k. k \<notin> covered) ks
        then add_diverse keys limit ps (covered \<union> set ks) (add_peer limit selected p)
        else add_diverse keys limit ps covered selected))"

definition selectPeerRetention ::
  "golib \<Rightarrow> asn_resolver \<Rightarrow> PeerObservation list \<Rightarrow> nat \<Rightarrow> PeerObservation list" where
  "selectPeerRetention G R peers limit =
     (let ordered = sort_slice peerRetentionLess peers;
          s1 = add_where limit po_Friend ordered [];
          s2 = add_where limit po_used ordered s1;
          s3 = add_where limit po_closest ordered s2;
          s4 = add_diverse (peerDiversityKeys G R) limit ordered {} s3;
          s5 = add_where limit (\<lambda>p. IsZero (po_OfflineSince p)) ordered s4;
          s6 = add_where limit (\<lambda>p. \<not> IsZero (po_ProbationUntil p)) ordered s5;
          s7 = add_where limit (\<lambda>p. \<not> IsZero (po_OfflineSince p)) ordered s6
      in add_where limit (\<lambda>p. True) ordered s7)"

section \<open>Snapshots and candidates\<close>

text \<open>
  A row is dropped once its peer has been offline, or unseen, for longer than the history limit,
  unless it is pinned or a friend.
\<close>

definition po_expired :: "PeerObservation \<Rightarrow> time \<Rightarrow> bool" where
  "po_expired p now \<longleftrightarrow> \<not> po_Pinned p \<and> \<not> po_Friend p \<and>
     ((\<not> IsZero (po_OfflineSince p) \<and> Sub now (po_OfflineSince p) > peerHistoryTTL) \<or>
      (IsZero (po_OfflineSince p) \<and> \<not> IsZero (po_LastSeen p) \<and> Sub now (po_LastSeen p) > peerHistoryTTL))"

definition merge_peer :: "PeerObservation \<Rightarrow> PeerObservation \<Rightarrow> PeerObservation" where
  "merge_peer old p = p\<lparr>
     po_Friend := po_Friend p \<or> po_Friend old,
     po_UseCount := (if po_UseCount old > po_UseCount p then po_UseCount old else po_UseCount p),
     po_LastUsed := (if po_LastUsed old > po_LastUsed p then po_LastUsed old else po_LastUsed p),
     po_FirstSeen := (if IsZero (po_FirstSeen p) \<or> (\<not> IsZero (po_FirstSeen old) \<and> po_FirstSeen old < po_FirstSeen p)
                      then po_FirstSeen old else po_FirstSeen p)\<rparr>"

fun merge_rows :: "(string \<rightharpoonup> PeerObservation) \<Rightarrow> PeerObservation list \<Rightarrow> (string \<rightharpoonup> PeerObservation)" where
  "merge_rows merged [] = merged"
| "merge_rows merged (p # ps) =
     (let p' = (case merged (po_ID p) of Some old \<Rightarrow> merge_peer old p | None \<Rightarrow> p)
      in merge_rows (merged(po_ID p \<mapsto> p')) ps)"

text \<open>
  The rows a snapshot leaves in the store: \<^verbatim>\<open>prior\<close> are the rows on disk and \<^verbatim>\<open>ids\<close> the order in which
  Go enumerates the merged map.
\<close>

definition SaveSnapshot_rows ::
  "golib \<Rightarrow> asn_resolver \<Rightarrow> string list \<Rightarrow> PeerObservation list \<Rightarrow> PeerObservation list \<Rightarrow> time \<Rightarrow> PeerObservation list" where
  "SaveSnapshot_rows G R ids prior peers now =
     (let merged = merge_rows (foldl (\<lambda>m p. m(po_ID p \<mapsto> p)) Map.empty prior) peers;
          sorted = sort_slice peerRetentionLess (List.map_filter merged ids);
          eligible = filter (\<lambda>p. \<not> (po_ID p = [] \<or> ni_Addr (po_Node p) = [] \<or> po_expired p now)) sorted
      in selectPeerRetention G R eligible peerCacheHotLimit)"

text \<open>
  Reading candidates back: the members of each category in turn, then the rest; a row is returned at
  most once. \<^verbatim>\<open>index\<close> holds the identifiers of each category in the order of the code.
\<close>

fun take_members ::
  "nat \<Rightarrow> PeerObservation list \<Rightarrow> (string \<rightharpoonup> PeerObservation) \<Rightarrow> PeerObservation list \<Rightarrow>
   PeerObservation list \<times> (string \<rightharpoonup> PeerObservation) \<times> bool" where
  "take_members limit [] byID out = (out, byID, False)"
| "take_members limit (p # ps) byID out =
     (if byID (po_ID p) = None then take_members limit ps byID out
      else if length out + 1 = limit then (out @ [p], byID(po_ID p := None), True)
      else take_members limit ps (byID(po_ID p := None)) (out @ [p]))"

fun take_categories ::
  "nat \<Rightarrow> string list list \<Rightarrow> (string \<rightharpoonup> PeerObservation) \<Rightarrow> PeerObservation list \<Rightarrow>
   PeerObservation list \<times> (string \<rightharpoonup> PeerObservation) \<times> bool" where
  "take_categories limit [] byID out = (out, byID, False)"
| "take_categories limit (ids # index) byID out =
     (case take_members limit (sort_slice peerRetentionLess (List.map_filter byID ids)) byID out of
        (out', byID', full) \<Rightarrow>
          if full then (out', byID', True) else take_categories limit index byID' out')"

definition candidate_limit :: "int \<Rightarrow> nat" where
  "candidate_limit limit = (if limit \<le> 0 \<or> limit > int peerCacheHotLimit then peerCacheHotLimit else nat limit)"

definition LoadCandidates_rows ::
  "string list list \<Rightarrow> string list \<Rightarrow> PeerObservation list \<Rightarrow> time \<Rightarrow> int \<Rightarrow> PeerObservation list" where
  "LoadCandidates_rows index order rows now limit0 =
     (let limit = candidate_limit limit0;
          valid = filter (\<lambda>p. \<not> (po_ID p = [] \<or> ni_Addr (po_Node p) = [] \<or> po_expired p now)) rows;
          byID = foldl (\<lambda>m p. m(po_ID p \<mapsto> p)) Map.empty valid
      in case take_categories limit index byID [] of
           (out, byID', full) \<Rightarrow>
             if full then out
             else out @ take (limit - length out) (sort_slice peerRetentionLess (List.map_filter byID' order)))"

section \<open>What retention guarantees\<close>

abbreviation ids_of :: "PeerObservation list \<Rightarrow> string set" where
  "ids_of ps \<equiv> set (map po_ID ps)"

text \<open>
  One invariant carries all passes: \<^verbatim>\<open>sel\<close> grows from \<^verbatim>\<open>sel0\<close> by peers of \<^verbatim>\<open>ps\<close>, without repeating an
  identifier or exceeding the limit.
\<close>

definition extends :: "nat \<Rightarrow> PeerObservation set \<Rightarrow> PeerObservation list \<Rightarrow> PeerObservation list \<Rightarrow> bool" where
  "extends limit ps sel0 sel \<longleftrightarrow>
     (\<exists>new. sel = sel0 @ new \<and> set new \<subseteq> ps \<and>
        (distinct (map po_ID sel0) \<longrightarrow> distinct (map po_ID sel)) \<and>
        (length sel0 \<le> limit \<longrightarrow> length sel \<le> limit))"

lemma extends_refl: "extends limit ps sel sel"
  by (simp add: extends_def)

lemma extends_trans [trans]:
  "extends limit ps a b \<Longrightarrow> extends limit ps b c \<Longrightarrow> extends limit ps a c"
  unfolding extends_def by fastforce

lemma extends_mono: "extends limit ps a b \<Longrightarrow> ps \<subseteq> qs \<Longrightarrow> extends limit qs a b"
  unfolding extends_def by blast

lemma extends_add_peer: "p \<in> ps \<Longrightarrow> extends limit ps sel (add_peer limit sel p)"
  unfolding extends_def add_peer_def by (auto simp: image_iff)

lemma extends_foldl: "set xs \<subseteq> ps \<Longrightarrow> extends limit ps sel (foldl (add_peer limit) sel xs)"
  by (induction xs arbitrary: sel)
    (auto simp: extends_refl intro: extends_trans [OF extends_add_peer])

lemma extends_add_where: "set xs \<subseteq> ps \<Longrightarrow> extends limit ps sel (add_where limit P xs sel)"
  unfolding add_where_def by (rule extends_foldl) auto

lemma extends_add_diverse:
  "set xs \<subseteq> ps \<Longrightarrow> extends limit ps sel (add_diverse keys limit xs covered sel)"
  by (induction keys limit xs covered sel rule: add_diverse.induct)
    (auto simp: extends_refl Let_def intro: extends_trans [OF extends_add_peer])

lemma extends_ids: "extends limit ps a b \<Longrightarrow> ids_of a \<subseteq> ids_of b"
  unfolding extends_def by auto

lemma extends_full: "extends limit ps a b \<Longrightarrow> length a = limit \<Longrightarrow> length b = limit"
  unfolding extends_def by auto

text \<open>A pass either fills the selection or has taken the identifiers of all its peers.\<close>

lemma foldl_add_peer_exhaustive:
  assumes "length sel \<le> limit"
  shows "length (foldl (add_peer limit) sel xs) = limit \<or> ids_of xs \<subseteq> ids_of (foldl (add_peer limit) sel xs)"
  using assms
proof (induction xs arbitrary: sel)
  case Nil
  then show ?case by simp
next
  case (Cons x xs)
  let ?s = "add_peer limit sel x"
  have le: "length ?s \<le> limit" using Cons.prems by (auto simp: add_peer_def)
  have here: "length ?s = limit \<or> po_ID x \<in> ids_of ?s"
    using Cons.prems by (auto simp: add_peer_def)
  have ext: "extends limit (set xs) ?s (foldl (add_peer limit) ?s xs)" by (rule extends_foldl) simp
  show ?case
  proof (cases "length ?s = limit")
    case True
    then show ?thesis using extends_full [OF ext] by simp
  next
    case False
    then show ?thesis using here extends_ids [OF ext] Cons.IH [OF le] by auto
  qed
qed

lemma card_ids: "distinct (map po_ID ps) \<Longrightarrow> card (ids_of ps) = length ps"
  by (metis distinct_card length_map)

lemma full_selection:
  assumes ext: "extends limit (set ps) [] sel" and full: "length sel = limit" and card: "card (ids_of ps) \<le> limit"
  shows "ids_of ps \<subseteq> ids_of sel"
proof -
  have d: "distinct (map po_ID sel)" and sub: "ids_of sel \<subseteq> ids_of ps" using ext by (auto simp: extends_def)
  have "card (ids_of ps) \<le> card (ids_of sel)" using full card card_ids [OF d] by simp
  then show ?thesis using card_seteq [OF _ sub] by auto
qed

lemma select_pass:
  assumes ext: "extends limit (set qs) [] sel" and sel: "length sel \<le> limit"
    and ps: "set (filter P ps) \<subseteq> set qs" and card: "card (ids_of qs) \<le> limit"
  shows "ids_of (filter P ps) \<subseteq> ids_of (add_where limit P ps sel)"
proof -
  let ?s = "add_where limit P ps sel"
  have "extends limit (set qs) sel ?s" unfolding add_where_def by (rule extends_foldl) (rule ps)
  with ext have ext': "extends limit (set qs) [] ?s" by (rule extends_trans)
  from foldl_add_peer_exhaustive [OF sel, of "filter P ps"] consider
    "length ?s = limit" | "ids_of (filter P ps) \<subseteq> ids_of ?s" by (auto simp: add_where_def)
  then show ?thesis
  proof cases
    case 1
    then show ?thesis using full_selection [OF ext' _ card] ps by auto
  qed
qed

lemma retention_prefix:
  assumes "ordered = sort_slice peerRetentionLess peers"
  shows "extends limit (set peers)
     (add_where limit po_used ordered (add_where limit po_Friend ordered []))
     (selectPeerRetention G R peers limit)"
proof -
  have sub: "set ordered \<subseteq> set peers" using assms by (simp add: insertion.srt_set)
  show ?thesis
    unfolding selectPeerRetention_def Let_def assms [symmetric]
    by (rule extends_refl | rule extends_trans [OF _ extends_add_where [OF sub]]
      | rule extends_trans [OF _ extends_add_diverse [OF sub]])+
qed

lemma retention_extends: "extends limit (set peers) [] (selectPeerRetention G R peers limit)"
  by (rule extends_trans [OF _ retention_prefix [OF refl]])
    (rule extends_trans [OF extends_add_where extends_add_where]; simp add: insertion.srt_set)

lemma retention_ids:
  "length (selectPeerRetention G R peers limit) = limit \<or> ids_of peers \<subseteq> ids_of (selectPeerRetention G R peers limit)"
proof -
  let ?o = "sort_slice peerRetentionLess peers"
  obtain s where s: "selectPeerRetention G R peers limit = add_where limit (\<lambda>p. True) ?o s"
    unfolding selectPeerRetention_def Let_def by blast
  have "length s \<le> limit"
    using retention_extends [of limit peers G R] extends_add_where [OF subset_refl, of limit ?o s "\<lambda>p. True"]
    unfolding s by (auto simp: extends_def)
  from foldl_add_peer_exhaustive [OF this, of "filter (\<lambda>p. True) ?o"]
  show ?thesis unfolding s add_where_def by (simp add: insertion.srt_set)
qed

lemma retention_favoured:
  assumes card: "card (ids_of (filter (\<lambda>p. po_Friend p \<or> po_used p) peers)) \<le> limit"
  shows "ids_of (filter (\<lambda>p. po_Friend p \<or> po_used p) peers) \<subseteq> ids_of (selectPeerRetention G R peers limit)"
proof -
  let ?o = "sort_slice peerRetentionLess peers" and ?fav = "filter (\<lambda>p. po_Friend p \<or> po_used p) peers"
  have o: "set ?o = set peers" by (rule insertion.srt_set)
  let ?s1 = "add_where limit po_Friend ?o []"
  have nil: "extends limit (set ?fav) [] []" by (rule extends_refl)
  have e1: "extends limit (set ?fav) [] ?s1"
    unfolding add_where_def by (rule extends_foldl) (use o in auto)
  have f: "ids_of (filter po_Friend ?o) \<subseteq> ids_of ?s1"
    by (rule select_pass [OF nil _ _ card]) (use o in auto)
  have u: "ids_of (filter po_used ?o) \<subseteq> ids_of (add_where limit po_used ?o ?s1)"
    by (rule select_pass [OF e1 _ _ card]) (use o e1 in \<open>auto simp: extends_def\<close>)
  have "ids_of ?s1 \<subseteq> ids_of (add_where limit po_used ?o ?s1)"
    by (rule extends_ids [OF extends_add_where]) (rule subset_refl)
  with f u have "ids_of (filter po_Friend ?o) \<union> ids_of (filter po_used ?o) \<subseteq> ids_of (selectPeerRetention G R peers limit)"
    using extends_ids [OF retention_prefix [OF refl, of limit peers G R]] by (meson Un_least order_trans)
  moreover have "ids_of ?fav = ids_of (filter po_Friend ?o) \<union> ids_of (filter po_used ?o)"
    unfolding set_map set_filter o by blast
  ultimately show ?thesis by simp
qed

text \<open>
  C36: the peer cache keeps as many peers as it may and never drops a favoured one for another. The
  selection consists of given peers with pairwise different identifiers, it has as many rows as the
  limit and the number of identifiers allow, and if the friends and the used peers fit into the
  limit then all of them are kept, however many other peers compete.
\<close>

theorem selectPeerRetention_keeps:
  "set (selectPeerRetention G R peers limit) \<subseteq> set peers \<and>
   distinct (map po_ID (selectPeerRetention G R peers limit)) \<and>
   length (selectPeerRetention G R peers limit) = min limit (card (ids_of peers)) \<and>
   (card (ids_of (filter (\<lambda>p. po_Friend p \<or> po_used p) peers)) \<le> limit \<longrightarrow>
      ids_of (filter (\<lambda>p. po_Friend p \<or> po_used p) peers) \<subseteq> ids_of (selectPeerRetention G R peers limit))"
proof -
  let ?s = "selectPeerRetention G R peers limit"
  have sub: "set ?s \<subseteq> set peers" and d: "distinct (map po_ID ?s)" and le: "length ?s \<le> limit"
    using retention_extends [of limit peers G R] by (auto simp: extends_def)
  have "length ?s \<le> card (ids_of peers)"
    unfolding card_ids [OF d, symmetric] using sub by (intro card_mono) auto
  moreover have "length ?s = limit \<or> card (ids_of peers) \<le> length ?s"
    using retention_ids [of G R peers limit] card_mono [of "ids_of ?s" "ids_of peers"]
    unfolding card_ids [OF d] by auto
  ultimately show ?thesis using sub d le retention_favoured [of peers limit G R] by auto
qed

definition demo_peer :: "string \<Rightarrow> bool \<Rightarrow> PeerObservation" where
  "demo_peer i friend = (zero_observation (zero_node\<lparr>ni_ID := i, ni_Addr := ''a''\<rparr>))\<lparr>po_Friend := friend\<rparr>"

theorem selectPeerRetention_keeps_witness:
  "''f'' \<in> ids_of (selectPeerRetention demo_lib (\<lambda>_. None)
      [demo_peer ''a'' False, demo_peer ''b'' False, demo_peer ''f'' True] 2) \<and>
   length (selectPeerRetention demo_lib (\<lambda>_. None)
      [demo_peer ''a'' False, demo_peer ''b'' False, demo_peer ''f'' True] 2) = 2"
proof -
  let ?ps = "[demo_peer ''a'' False, demo_peer ''b'' False, demo_peer ''f'' True]"
  have f: "filter (\<lambda>p. po_Friend p \<or> po_used p) ?ps = [demo_peer ''f'' True]"
    by (simp add: demo_peer_def zero_observation_def po_used_def IsZero_def)
  have "ids_of ?ps = {''a'', ''b'', ''f''}" "ids_of [demo_peer ''f'' True] = {''f''}"
    by (simp_all add: demo_peer_def zero_observation_def zero_node_def)
  then show ?thesis
    using selectPeerRetention_keeps [of demo_lib "\<lambda>_. None" ?ps 2] unfolding f by simp
qed

text \<open>
  The order is not transitive: a rank that only one of two peers has is skipped, and the comparison
  falls through to the first sighting. Three peers can precede each other in a circle.
\<close>

lemma peerRetentionLess_cycle:
  fixes a b c :: PeerObservation
  defines "a \<equiv> (demo_peer ''a'' False)\<lparr>po_ClosestIDRank := 1, po_FirstSeen := 2\<rparr>"
    and "b \<equiv> (demo_peer ''b'' False)\<lparr>po_ClosestIDRank := 2, po_ClosestNameRank := 1, po_FirstSeen := 2\<rparr>"
    and "c \<equiv> (demo_peer ''c'' False)\<lparr>po_ClosestNameRank := 2, po_FirstSeen := 1\<rparr>"
  shows "peerRetentionLess a b \<and> peerRetentionLess b c \<and> peerRetentionLess c a"
  by (simp add: assms demo_peer_def zero_observation_def peerRetentionLess_def po_used_def po_closest_def IsZero_def)

end
