(* ===== verification/Table.thy ===== *)
theory Table
  imports Peers
begin

text \<open>
  The Kademlia routing table (\<^verbatim>\<open>dht/table.go\<close>). Go shares one \<^verbatim>\<open>*bucketEntry\<close> between the identity
  buckets, the name buckets, the candidate lists and two maps, so entries live in an explicit memory
  and the table holds their addresses. Every exported method runs under the table's mutex and is one
  function on the state; the clock and random draws are arguments. Where Go ranges over a map, the
  order of its keys is an argument.
\<close>

abbreviation (input) maxPendingCandidates :: int where "maxPendingCandidates \<equiv> 512"
abbreviation (input) staleFailureThreshold :: byte where "staleFailureThreshold \<equiv> 3"
abbreviation (input) livenessProbeInterval :: duration where "livenessProbeInterval \<equiv> 5 * minute"
abbreviation (input) peerProbationPeriod :: duration where "peerProbationPeriod \<equiv> 2 * hour"
abbreviation (input) bucketRefillThreshold :: nat where "bucketRefillThreshold \<equiv> 15"
abbreviation (input) bucketRefreshInterval :: duration where "bucketRefreshInterval \<equiv> 5 * minute"

type_synonym addr = nat
type_synonym memory = "addr \<Rightarrow> bucketEntry"
type_synonym index = "addr list list"

record RefreshTarget =
  rf_Key :: string
  rf_NameHash :: bool
  rf_Bucket :: nat

record RoutingTable =
  SelfID :: string
  SelfNameHash :: string
  Buckets :: index
  NameBuckets :: index
  Pending :: index
  peerByID :: "string \<rightharpoonup> addr"
  offline :: "string \<rightharpoonup> addr"
  pendingN :: int
  lastIDRefresh :: "time list"
  lastNameRefresh :: "time list"
  refreshNameNext :: bool
  mem :: memory
  next_addr :: addr

abbreviation no_buckets :: index where "no_buckets \<equiv> replicate 256 []"

definition NewRoutingTable :: "golib \<Rightarrow> string \<Rightarrow> RoutingTable" where
  "NewRoutingTable G selfID = \<lparr>SelfID = selfID, SelfNameHash = NodeNameHash G selfID,
     Buckets = no_buckets, NameBuckets = no_buckets, Pending = no_buckets,
     peerByID = Map.empty, offline = Map.empty, pendingN = 0,
     lastIDRefresh = replicate 256 0, lastNameRefresh = replicate 256 0, refreshNameNext = False,
     mem = (\<lambda>_. zero_entry zero_node), next_addr = 0\<rparr>"

section \<open>Index slices\<close>

abbreviation entry_id :: "memory \<Rightarrow> addr \<Rightarrow> string" where
  "entry_id m a \<equiv> ni_ID (be_Node (m a))"

fun indexOfEntry :: "memory \<Rightarrow> addr list \<Rightarrow> string \<Rightarrow> nat option" where
  "indexOfEntry m [] nodeID = None"
| "indexOfEntry m (a # as) nodeID =
     (if entry_id m a = nodeID then Some 0 else map_option Suc (indexOfEntry m as nodeID))"

definition moveToFront :: "addr list \<Rightarrow> nat \<Rightarrow> addr list" where
  "moveToFront entries pos = entries ! pos # take pos entries @ drop (Suc pos) entries"

definition remove_at :: "nat \<Rightarrow> 'a list \<Rightarrow> 'a list" where
  "remove_at pos entries = take pos entries @ drop (Suc pos) entries"

definition inIndexLocked :: "memory \<Rightarrow> index \<Rightarrow> string \<Rightarrow> bool" where
  "inIndexLocked m buckets nodeID \<longleftrightarrow> list_ex (\<lambda>b. indexOfEntry m b nodeID \<noteq> None) buckets"

definition clamp_bucket :: "int \<Rightarrow> nat" where
  "clamp_bucket idx = (if idx < 0 then 0 else if idx > 255 then 255 else nat idx)"

definition insertIndexLocked :: "memory \<Rightarrow> index \<Rightarrow> addr \<Rightarrow> int \<Rightarrow> index" where
  "insertIndexLocked m buckets a idx0 =
     (let idx = clamp_bucket idx0 in
      case indexOfEntry m (buckets ! idx) (entry_id m a) of
        Some pos \<Rightarrow> buckets[idx := moveToFront (buckets ! idx) pos]
      | None \<Rightarrow> buckets[idx := a # buckets ! idx])"

definition remove_entry :: "memory \<Rightarrow> string \<Rightarrow> addr list \<Rightarrow> addr list" where
  "remove_entry m nodeID b = (case indexOfEntry m b nodeID of None \<Rightarrow> b | Some pos \<Rightarrow> remove_at pos b)"

definition removeFromIndexLocked :: "memory \<Rightarrow> index \<Rightarrow> string \<Rightarrow> index \<times> bool" where
  "removeFromIndexLocked m buckets nodeID =
     (map (remove_entry m nodeID) buckets, inIndexLocked m buckets nodeID)"

fun remove_first :: "memory \<Rightarrow> string \<Rightarrow> index \<Rightarrow> index \<times> bool" where
  "remove_first m nodeID [] = ([], False)"
| "remove_first m nodeID (b # bs) =
     (case indexOfEntry m b nodeID of
        Some pos \<Rightarrow> (remove_at pos b # bs, True)
      | None \<Rightarrow> (case remove_first m nodeID bs of (bs', found) \<Rightarrow> (b # bs', found)))"

definition moveToFrontLocked :: "memory \<Rightarrow> index \<Rightarrow> string \<Rightarrow> int \<Rightarrow> index" where
  "moveToFrontLocked m buckets nodeID idx =
     (if idx < 0 \<or> idx > 255 then buckets
      else (case indexOfEntry m (buckets ! nat idx) nodeID of
          Some (Suc pos) \<Rightarrow> buckets[nat idx := moveToFront (buckets ! nat idx) (Suc pos)]
        | _ \<Rightarrow> buckets))"

section \<open>State helpers\<close>

definition upd_entry :: "addr \<Rightarrow> (bucketEntry \<Rightarrow> bucketEntry) \<Rightarrow> RoutingTable \<Rightarrow> RoutingTable" where
  "upd_entry a f t = t\<lparr>mem := (mem t)(a := f (mem t a))\<rparr>"

text \<open>\<^verbatim>\<open>entry = &bucketEntry{...}; rt.peerByID[id] = entry\<close>\<close>

definition new_entry :: "bucketEntry \<Rightarrow> RoutingTable \<Rightarrow> RoutingTable" where
  "new_entry e t = t\<lparr>mem := (mem t)(next_addr t := e), next_addr := Suc (next_addr t),
     peerByID := (peerByID t)(ni_ID (be_Node e) \<mapsto> next_addr t)\<rparr>"

definition drop_offline :: "string \<Rightarrow> RoutingTable \<Rightarrow> RoutingTable" where
  "drop_offline nodeID t = t\<lparr>offline := (offline t)(nodeID := None)\<rparr>"

definition removePendingLocked :: "string \<Rightarrow> RoutingTable \<Rightarrow> RoutingTable \<times> bool" where
  "removePendingLocked nodeID t = (case remove_first (mem t) nodeID (Pending t) of
     (p, found) \<Rightarrow> (if found then t\<lparr>Pending := p, pendingN := pendingN t - 1\<rparr> else t, found))"

definition insert_active :: "golib \<Rightarrow> addr \<Rightarrow> RoutingTable \<Rightarrow> RoutingTable" where
  "insert_active G a t =
     t\<lparr>Buckets := insertIndexLocked (mem t) (Buckets t) a (bucketIndex G (SelfID t) (entry_id (mem t) a))\<rparr>"

definition insert_name :: "golib \<Rightarrow> addr \<Rightarrow> RoutingTable \<Rightarrow> RoutingTable" where
  "insert_name G a t =
     t\<lparr>NameBuckets := insertIndexLocked (mem t) (NameBuckets t) a
        (nameBucketIndex G (SelfNameHash t) (be_Node (mem t a)))\<rparr>"

definition append_pending :: "addr \<Rightarrow> int \<Rightarrow> RoutingTable \<Rightarrow> RoutingTable option" where
  "append_pending a idx t =
     (if idx < 0 \<or> idx > 255 then None
      else Some (t\<lparr>Pending := (Pending t)[nat idx := Pending t ! nat idx @ [a]]\<rparr>))"

definition removePeerIfUnindexedLocked :: "string \<Rightarrow> RoutingTable \<Rightarrow> RoutingTable" where
  "removePeerIfUnindexedLocked nodeID t =
     (if (case peerByID t nodeID of Some a \<Rightarrow> be_Pinned (mem t a) | None \<Rightarrow> False) then t
      else if inIndexLocked (mem t) (Buckets t) nodeID \<or> inIndexLocked (mem t) (NameBuckets t) nodeID then t
      else if offline t nodeID \<noteq> None then t
      else if inIndexLocked (mem t) (Pending t) nodeID then t
      else t\<lparr>peerByID := (peerByID t)(nodeID := None)\<rparr>)"

section \<open>Changing the table\<close>

definition SetSelfNameHash :: "golib \<Rightarrow> string list \<Rightarrow> string \<Rightarrow> RoutingTable \<Rightarrow> RoutingTable" where
  "SetSelfNameHash G ids hash t0 =
     (let t = t0\<lparr>SelfNameHash := hash, NameBuckets := no_buckets\<rparr>;
          entries = sort_slice (\<lambda>a b. entry_id (mem t) a < entry_id (mem t) b) (List.map_filter (peerByID t) ids)
      in foldl (\<lambda>t a. if inIndexLocked (mem t) (Buckets t) (entry_id (mem t) a) then insert_name G a t else t) t entries)"

definition initialProbeDelay :: "golib \<Rightarrow> string \<Rightarrow> duration" where
  "initialProbeDelay G nodeID =
     int (SetBytes (take 8 (sha256 G (bytes_of nodeID)))) mod livenessProbeInterval"

definition unusable :: "NodeInfo \<Rightarrow> RoutingTable \<Rightarrow> bool" where
  "unusable node t \<longleftrightarrow> ni_ID node = [] \<or> ni_ID node = SelfID t \<or> ni_Addr node = []"

text \<open>\<^verbatim>\<open>entry.Node = node\<close> after a change of name has taken the entry out of its name bucket.\<close>

definition rename_entry :: "golib \<Rightarrow> addr \<Rightarrow> NodeInfo \<Rightarrow> RoutingTable \<Rightarrow> RoutingTable" where
  "rename_entry G a node t =
     (let t' = (if nodeNameHash G (be_Node (mem t a)) \<noteq> nodeNameHash G node
                then t\<lparr>NameBuckets := fst (removeFromIndexLocked (mem t) (NameBuckets t) (ni_ID node))\<rparr> else t)
      in upd_entry a (\<lambda>e. e\<lparr>be_Node := node\<rparr>) t')"

definition mark_success :: "golib \<Rightarrow> string \<Rightarrow> time \<Rightarrow> bucketEntry \<Rightarrow> bucketEntry" where
  "mark_success G nodeID now e = e\<lparr>be_Transient := False, be_FailCount := 0, be_LastSeen := now,
     be_FirstSeen := (if IsZero (be_FirstSeen e) then now else be_FirstSeen e),
     be_LastSuccess := now, be_LastProbe := now, be_NextProbeAt := now + initialProbeDelay G nodeID,
     be_ProbeMisses := 0, be_LastProbeFailure := 0, be_OfflineSince := 0,
     be_SuccessCount := sat_inc (be_SuccessCount e)\<rparr>"

definition AddNode :: "golib \<Rightarrow> NodeInfo \<Rightarrow> time \<Rightarrow> RoutingTable \<Rightarrow> RoutingTable" where
  "AddNode G node now t0 =
     (if unusable node t0 then t0
      else (let
        (a, t) = (case peerByID t0 (ni_ID node) of
            None \<Rightarrow> (next_addr t0, new_entry ((zero_entry node)\<lparr>be_ProbationUntil := now + peerProbationPeriod\<rparr>) t0)
          | Some a \<Rightarrow> (a, upd_entry a (\<lambda>e. if IsZero (be_ProbationUntil e) \<and> be_SuccessCount e = 0 \<and> \<not> be_Pinned e
                                          then e\<lparr>be_ProbationUntil := now + peerProbationPeriod\<rparr> else e)
                          (rename_entry G a node t0)));
        t = drop_offline (ni_ID node) t;
        t = upd_entry a (mark_success G (ni_ID node) now) t;
        t = fst (removePendingLocked (ni_ID node) t);
        t = insert_active G a t
      in if SelfNameHash t \<noteq> [] then insert_name G a t else t))"

definition UpdateKnownNode :: "golib \<Rightarrow> NodeInfo \<Rightarrow> time \<Rightarrow> RoutingTable \<Rightarrow> RoutingTable \<times> bool" where
  "UpdateKnownNode G node now t =
     (if unusable node t \<or> \<not> is_ok (VerifyNodeInfo G node now) then (t, False)
      else (case peerByID t (ni_ID node) of
          None \<Rightarrow> (t, False)
        | Some a \<Rightarrow>
            if \<not> EndpointRecordNewer G (endpointRecordFromNodeInfo node) (endpointRecordFromNodeInfo (be_Node (mem t a)))
            then (t, False)
            else (let t = rename_entry G a node t in
              (if inIndexLocked (mem t) (Buckets t) (ni_ID node) \<and> SelfNameHash t \<noteq> [] then insert_name G a t else t,
               True))))"

text \<open>
  Candidates. The candidate list of bucket \<^verbatim>\<open>-1\<close> does not exist: indexing it panics, the value
  \<^verbatim>\<open>None\<close>.
\<close>

definition AddLookupCandidate :: "golib \<Rightarrow> NodeInfo \<Rightarrow> RoutingTable \<Rightarrow> (RoutingTable \<times> bool) option" where
  "AddLookupCandidate G node t =
     (if unusable node t then Some (t, False)
      else (let idx = bucketIndex G (SelfID t) (ni_ID node) in
        if peerByID t (ni_ID node) \<noteq> None \<or> pendingN t \<ge> maxPendingCandidates then Some (t, False)
        else (let a = next_addr t; t1 = new_entry ((zero_entry node)\<lparr>be_Transient := True\<rparr>) t in
          map_option (\<lambda>t'. (t'\<lparr>pendingN := pendingN t' + 1\<rparr>, True)) (append_pending a idx t1))))"

definition addCandidate :: "golib \<Rightarrow> NodeInfo \<Rightarrow> RoutingTable \<Rightarrow> RoutingTable option" where
  "addCandidate G node t =
     (if unusable node t then Some t
      else (let idx = bucketIndex G (SelfID t) (ni_ID node); nodeID = ni_ID node in
        if inIndexLocked (mem t) (Buckets t) nodeID \<or> inIndexLocked (mem t) (NameBuckets t) nodeID then Some t
        else (case peerByID t nodeID of
          Some a \<Rightarrow>
            (case removePendingLocked nodeID t of
               (t', True) \<Rightarrow>
                 append_pending a idx
                   (drop_offline nodeID (upd_entry a (\<lambda>e. e\<lparr>be_Node := node\<rparr>) t'))
             | (_, False) \<Rightarrow>
                 if pendingN t \<ge> maxPendingCandidates then Some t
                 else map_option (\<lambda>t. t\<lparr>pendingN := pendingN t + 1\<rparr>)
                   (append_pending a idx
                     (drop_offline nodeID (upd_entry a (\<lambda>e. e\<lparr>be_Node := node, be_Transient := False\<rparr>) t))))
        | None \<Rightarrow>
            if pendingN t \<ge> maxPendingCandidates then Some t
            else map_option (\<lambda>t. t\<lparr>pendingN := pendingN t + 1\<rparr>)
              (append_pending (next_addr t) idx (drop_offline nodeID (new_entry (zero_entry node) t))))))"

abbreviation "AddCandidate \<equiv> addCandidate"

definition restore_entry :: "PeerObservation \<Rightarrow> bucketEntry \<Rightarrow> bucketEntry" where
  "restore_entry p e = e\<lparr>be_FailCount := po_FailCount p, be_SuccessCount := po_SuccessCount p,
     be_LastSeen := po_LastSeen p, be_LastSuccess := po_LastSuccess p, be_LastUsed := po_LastUsed p,
     be_FirstSeen := po_FirstSeen p, be_LastFailure := po_LastFailure p, be_LastProbe := po_LastProbe p,
     be_LastProbeFailure := po_LastProbeFailure p, be_OfflineSince := po_OfflineSince p,
     be_ProbeMisses := po_ProbeMisses p, be_ProbationUntil := po_ProbationUntil p,
     be_NextProbeAt := po_NextProbeAt p, be_RTTMicros := po_RTTMicros p, be_Pinned := po_Pinned p,
     be_Friend := po_Friend p, be_UseCount := po_UseCount p, be_ClosestIDRank := po_ClosestIDRank p,
     be_ClosestNameRank := po_ClosestNameRank p\<rparr>"

definition restore_peer :: "golib \<Rightarrow> time \<Rightarrow> PeerObservation \<Rightarrow> RoutingTable \<Rightarrow> RoutingTable option" where
  "restore_peer G now p t0 =
     (if po_ID p = [] \<or> ni_Addr (po_Node p) = [] \<or> po_expired p now then Some t0
      else (case addCandidate G (po_Node p) t0 of
          None \<Rightarrow> None
        | Some t \<Rightarrow> Some (case peerByID t (po_ID p) of
              None \<Rightarrow> t
            | Some a \<Rightarrow> (let t = upd_entry a (restore_entry p) t in
                if \<not> IsZero (po_OfflineSince p)
                then (let t = fst (removePendingLocked (po_ID p) t) in t\<lparr>offline := (offline t)(po_ID p \<mapsto> a)\<rparr>)
                else t))))"

fun restore_peers :: "golib \<Rightarrow> time \<Rightarrow> PeerObservation list \<Rightarrow> RoutingTable \<Rightarrow> RoutingTable option" where
  "restore_peers G now [] t = Some t"
| "restore_peers G now (p # ps) t =
     (case restore_peer G now p t of None \<Rightarrow> None | Some t' \<Rightarrow> restore_peers G now ps t')"

definition RestoreCandidates :: "golib \<Rightarrow> PeerObservation list \<Rightarrow> time \<Rightarrow> RoutingTable \<Rightarrow> RoutingTable option" where
  "RestoreCandidates G peers now t =
     restore_peers G now
       (if length peers > peerCacheHotLimit
        then take peerCacheHotLimit (sort_slice (\<lambda>a b. po_LastSuccess a > po_LastSuccess b) peers) else peers) t"

fun find_entry :: "memory \<Rightarrow> string \<Rightarrow> index \<Rightarrow> addr option" where
  "find_entry m nodeID [] = None"
| "find_entry m nodeID (b # bs) =
     (case indexOfEntry m b nodeID of Some pos \<Rightarrow> Some (b ! pos) | None \<Rightarrow> find_entry m nodeID bs)"

definition PromoteCandidate :: "golib \<Rightarrow> string \<Rightarrow> time \<Rightarrow> RoutingTable \<Rightarrow> RoutingTable" where
  "PromoteCandidate G nodeID now t =
     (case find_entry (mem t) nodeID (Pending t) of
        None \<Rightarrow> t
      | Some a \<Rightarrow> (let node = be_Node (mem t a) in
          if ni_ID node \<noteq> [] then AddNode G node now (fst (removePendingLocked nodeID t))
          else fst (removePendingLocked nodeID t)))"

definition DiscardCandidate :: "string \<Rightarrow> RoutingTable \<Rightarrow> RoutingTable" where
  "DiscardCandidate nodeID t =
     (case removePendingLocked nodeID t of
        (t', found) \<Rightarrow> if found then removePeerIfUnindexedLocked nodeID t' else t')"

definition NoteFailureAt :: "string \<Rightarrow> time \<Rightarrow> RoutingTable \<Rightarrow> RoutingTable \<times> bool" where
  "NoteFailureAt nodeID now t =
     (case peerByID t nodeID of
        None \<Rightarrow> (t, False)
      | Some a \<Rightarrow> if nodeID = SelfID t then (t, False)
          else (upd_entry a (\<lambda>e. e\<lparr>be_LastFailure := now, be_FailCount := sat_inc (be_FailCount e)\<rparr>) t, False))"

text \<open>Liveness probing. The scan keeps the first of the entries that were probed longest ago.\<close>

fun select_probe :: "RoutingTable \<Rightarrow> time \<Rightarrow> addr list \<Rightarrow> addr option \<Rightarrow> addr option" where
  "select_probe t now [] selected = selected"
| "select_probe t now (a # as) selected =
     select_probe t now as
       (if \<not> inIndexLocked (mem t) (Buckets t) (entry_id (mem t) a) \<or> now < be_NextProbeAt (mem t a) then selected
        else (case selected of
            None \<Rightarrow> Some a
          | Some b \<Rightarrow> if be_LastProbe (mem t a) < be_LastProbe (mem t b) then Some a else selected))"

definition BeginLivenessProbe :: "string list \<Rightarrow> time \<Rightarrow> RoutingTable \<Rightarrow> RoutingTable \<times> NodeInfo option" where
  "BeginLivenessProbe ids now t =
     (case select_probe t now (List.map_filter (peerByID t) ids) None of
        None \<Rightarrow> (t, None)
      | Some a \<Rightarrow> (upd_entry a (\<lambda>e. e\<lparr>be_LastProbe := now, be_NextProbeAt := now + livenessProbeInterval\<rparr>) t,
                   Some (be_Node (mem t a))))"

definition probe_alive :: "time \<Rightarrow> bucketEntry \<Rightarrow> bucketEntry" where
  "probe_alive now e = e\<lparr>be_LastProbe := now, be_NextProbeAt := now + livenessProbeInterval,
     be_ProbeMisses := 0, be_FailCount := 0, be_LastSeen := now, be_LastSuccess := now,
     be_LastFailure := 0, be_LastProbeFailure := 0, be_OfflineSince := 0,
     be_ProbationUntil := (if IsZero (be_ProbationUntil e) then now + peerProbationPeriod else be_ProbationUntil e)\<rparr>"

definition probe_missed :: "time \<Rightarrow> bucketEntry \<Rightarrow> bucketEntry" where
  "probe_missed now e = e\<lparr>be_LastProbe := now, be_NextProbeAt := now + livenessProbeInterval,
     be_ProbeMisses := sat_inc (be_ProbeMisses e), be_LastFailure := now, be_LastProbeFailure := now\<rparr>"

definition go_offline :: "string \<Rightarrow> addr \<Rightarrow> time \<Rightarrow> RoutingTable \<Rightarrow> RoutingTable" where
  "go_offline nodeID a now t =
     (let t = upd_entry a (\<lambda>e. if IsZero (be_OfflineSince e) then e\<lparr>be_OfflineSince := now\<rparr> else e) t
      in t\<lparr>offline := (offline t)(nodeID \<mapsto> a)\<rparr>)"

definition expire_peer :: "string \<Rightarrow> addr \<Rightarrow> time \<Rightarrow> RoutingTable \<Rightarrow> RoutingTable \<times> bool" where
  "expire_peer nodeID a now t =
     (let (bs, r1) = removeFromIndexLocked (mem t) (Buckets t) nodeID;
          (ns, r2) = removeFromIndexLocked (mem t) (NameBuckets t) nodeID;
          t = t\<lparr>Buckets := bs, NameBuckets := ns\<rparr>
      in if r1 \<or> r2 then (removePeerIfUnindexedLocked nodeID (go_offline nodeID a now t), True)
         else (let t = fst (removePendingLocked nodeID t) in
           (if be_SuccessCount (mem t a) > 0 \<or> be_Pinned (mem t a) then go_offline nodeID a now t
            else t\<lparr>peerByID := (peerByID t)(nodeID := None)\<rparr>, False)))"

definition RecordLivenessResult :: "string \<Rightarrow> time \<Rightarrow> bool \<Rightarrow> RoutingTable \<Rightarrow> RoutingTable \<times> bool" where
  "RecordLivenessResult nodeID now alive t =
     (case peerByID t nodeID of
        None \<Rightarrow> (t, False)
      | Some a \<Rightarrow>
          if alive then (upd_entry a (probe_alive now) t, False)
          else if \<not> IsZero (be_LastProbeFailure (mem t a)) \<and>
                  Sub now (be_LastProbeFailure (mem t a)) < livenessProbeInterval
          then (upd_entry a (\<lambda>e. e\<lparr>be_LastProbe := now, be_NextProbeAt := now + livenessProbeInterval\<rparr>) t, False)
          else (let t = upd_entry a (probe_missed now) t in
            if be_ProbeMisses (mem t a) < staleFailureThreshold then (t, False) else expire_peer nodeID a now t))"

text \<open>Use and preferences.\<close>

definition rtt_update :: "duration \<Rightarrow> u32 \<Rightarrow> u32" where
  "rtt_update rtt old =
     (if rtt > 0 then
        (let micros = min (nat (rtt div 1000)) (2 ^ 32 - 1) in
         if old = 0 then of_nat micros else of_nat ((unat old * 7 + micros) div 8))
      else old)"

definition use_entry :: "time \<Rightarrow> duration \<Rightarrow> bucketEntry \<Rightarrow> bucketEntry" where
  "use_entry now rtt e = e\<lparr>be_LastUsed := now, be_UseCount := sat_inc (be_UseCount e), be_LastSeen := now,
     be_FailCount := 0, be_ProbeMisses := 0, be_LastProbeFailure := 0, be_LastProbe := now,
     be_NextProbeAt := now + livenessProbeInterval, be_RTTMicros := rtt_update rtt (be_RTTMicros e)\<rparr>"

definition fill_name_hash :: "golib \<Rightarrow> bucketEntry \<Rightarrow> bucketEntry" where
  "fill_name_hash G e = (if ni_NameHash (be_Node e) = []
     then e\<lparr>be_Node := (be_Node e)\<lparr>ni_NameHash := NodeNameHash G (ni_Name (be_Node e))\<rparr>\<rparr> else e)"

definition RecordUse :: "golib \<Rightarrow> string \<Rightarrow> time \<Rightarrow> duration \<Rightarrow> RoutingTable \<Rightarrow> RoutingTable" where
  "RecordUse G nodeID now rtt t0 =
     (case peerByID t0 nodeID of
        None \<Rightarrow> t0
      | Some a \<Rightarrow> (let
          t = upd_entry a (use_entry now rtt) t0;
          t = t\<lparr>Buckets := moveToFrontLocked (mem t) (Buckets t) nodeID (bucketIndex G (SelfID t) nodeID)\<rparr>
        in if SelfNameHash t \<noteq> []
           then (let t = upd_entry a (fill_name_hash G) t in
             t\<lparr>NameBuckets := moveToFrontLocked (mem t) (NameBuckets t) nodeID
                (nameBucketIndex G (SelfNameHash t) (be_Node (mem t a)))\<rparr>)
           else t))"

definition SetPinned :: "string \<Rightarrow> bool \<Rightarrow> RoutingTable \<Rightarrow> RoutingTable \<times> bool" where
  "SetPinned nodeID pinned t =
     (case peerByID t nodeID of
        None \<Rightarrow> (t, False)
      | Some a \<Rightarrow> (let t = upd_entry a (\<lambda>e. e\<lparr>be_Pinned := pinned\<rparr>) t in
          (if \<not> pinned then removePeerIfUnindexedLocked nodeID t else t, True)))"

definition SetFriend :: "string \<Rightarrow> bool \<Rightarrow> RoutingTable \<Rightarrow> RoutingTable \<times> bool" where
  "SetFriend nodeID friend t =
     (case peerByID t nodeID of
        None \<Rightarrow> (t, False)
      | Some a \<Rightarrow> (upd_entry a (\<lambda>e. e\<lparr>be_Friend := friend\<rparr>) t, True))"

definition prunable :: "time \<Rightarrow> bucketEntry \<Rightarrow> bool" where
  "prunable now e \<longleftrightarrow> \<not> be_Pinned e \<and> \<not> be_Friend e \<and> \<not> IsZero (be_OfflineSince e) \<and>
     Sub now (be_OfflineSince e) > peerHistoryTTL"

definition PruneOffline :: "time \<Rightarrow> RoutingTable \<Rightarrow> RoutingTable" where
  "PruneOffline now t =
     (let stale = (\<lambda>i. case offline t i of Some a \<Rightarrow> prunable now (mem t a) | None \<Rightarrow> False) in
      t\<lparr>offline := (\<lambda>i. if stale i then None else offline t i),
        peerByID := (\<lambda>i. if stale i then None else peerByID t i)\<rparr>)"

text \<open>Refreshing buckets; \<^verbatim>\<open>draw\<close> is the random number for a bucket, \<^verbatim>\<open>None\<close> a failing random source.\<close>

fun refresh_loop ::
  "golib \<Rightarrow> (nat \<Rightarrow> nat option) \<Rightarrow> bool \<Rightarrow> string \<Rightarrow> time \<Rightarrow> int \<Rightarrow> index \<Rightarrow> nat list \<Rightarrow>
   RefreshTarget list \<times> time list \<Rightarrow> RefreshTarget list \<times> time list" where
  "refresh_loop G draw byName self now limit buckets [] acc = acc"
| "refresh_loop G draw byName self now limit buckets (i # is) (targets, refreshed) =
     (if int (length targets) \<ge> limit then (targets, refreshed)
      else if buckets ! i = [] \<or>
        (length (buckets ! i) \<ge> bucketRefillThreshold \<and> Sub now (refreshed ! i) < bucketRefreshInterval)
      then refresh_loop G draw byName self now limit buckets is (targets, refreshed)
      else if Sub now (refreshed ! i) < bucketRefreshInterval div 2
      then refresh_loop G draw byName self now limit buckets is (targets, refreshed)
      else (case draw i of
          None \<Rightarrow> refresh_loop G draw byName self now limit buckets is (targets, refreshed)
        | Some rnd \<Rightarrow>
            (let target = randomTargetInBucket G rnd self (int i);
                 key = (if byName then ''node/name/'' @ target else ''vx6_'' @ target)
             in refresh_loop G draw byName self now limit buckets is
                  (targets @ [\<lparr>rf_Key = key, rf_NameHash = byName, rf_Bucket = i\<rparr>], refreshed[i := now]))))"

definition refresh_pass ::
  "golib \<Rightarrow> (bool \<Rightarrow> nat \<Rightarrow> nat option) \<Rightarrow> time \<Rightarrow> int \<Rightarrow> bool \<Rightarrow> RefreshTarget list \<times> RoutingTable \<Rightarrow>
   RefreshTarget list \<times> RoutingTable" where
  "refresh_pass G draw now limit byName = (\<lambda>(targets, t).
     if int (length targets) \<ge> limit then (targets, t)
     else if byName then
       (if SelfNameHash t = [] then (targets, t)
        else (case refresh_loop G (draw True) True (SelfNameHash t) now limit (NameBuckets t) (rev [0..<256])
                    (targets, lastNameRefresh t) of
            (targets', r) \<Rightarrow> (targets', t\<lparr>lastNameRefresh := r\<rparr>)))
     else (case refresh_loop G (draw False) False (SelfID t) now limit (Buckets t) (rev [0..<256])
                  (targets, lastIDRefresh t) of
         (targets', r) \<Rightarrow> (targets', t\<lparr>lastIDRefresh := r\<rparr>)))"

definition RefreshTargets ::
  "golib \<Rightarrow> (bool \<Rightarrow> nat \<Rightarrow> nat option) \<Rightarrow> time \<Rightarrow> int \<Rightarrow> RoutingTable \<Rightarrow> RefreshTarget list \<times> RoutingTable" where
  "RefreshTargets G draw now limit t =
     (if limit \<le> 0 then ([], t)
      else (case refresh_pass G draw now limit (\<not> refreshNameNext t)
                  (refresh_pass G draw now limit (refreshNameNext t) ([], t)) of
          (targets, t') \<Rightarrow> (targets, t'\<lparr>refreshNameNext := \<not> refreshNameNext t'\<rparr>)))"

section \<open>Reading the table\<close>

definition ProbeAllowed :: "string \<Rightarrow> time \<Rightarrow> RoutingTable \<Rightarrow> bool" where
  "ProbeAllowed nodeID now t = (case peerByID t nodeID of
     None \<Rightarrow> True
   | Some a \<Rightarrow> IsZero (be_NextProbeAt (mem t a)) \<or> \<not> now < be_NextProbeAt (mem t a))"

definition closest_key :: "golib \<Rightarrow> bool \<Rightarrow> NodeInfo \<Rightarrow> string" where
  "closest_key G byNameHash node = (if byNameHash then nodeNameHash G node else ni_ID node)"

definition closer :: "golib \<Rightarrow> string \<Rightarrow> bool \<Rightarrow> NodeInfo \<Rightarrow> NodeInfo \<Rightarrow> bool" where
  "closer G target byNameHash l r =
     (let dl = xorDistance G (closest_key G byNameHash l) target;
          dr = xorDistance G (closest_key G byNameHash r) target
      in if dl \<noteq> dr then dl < dr else ni_ID l < ni_ID r)"

definition sortClosestEntries :: "golib \<Rightarrow> memory \<Rightarrow> addr list \<Rightarrow> string \<Rightarrow> int \<Rightarrow> bool \<Rightarrow> NodeInfo list" where
  "sortClosestEntries G m all target cnt byNameHash =
     (if cnt \<le> 0 then []
      else (let sorted = sort_slice (\<lambda>a b. closer G target byNameHash (be_Node (m a)) (be_Node (m b))) all
        in map (\<lambda>a. be_Node (m a)) (if int (length sorted) > cnt then take (nat cnt) sorted else sorted)))"

definition closestFrom :: "golib \<Rightarrow> index \<Rightarrow> string \<Rightarrow> int \<Rightarrow> bool \<Rightarrow> RoutingTable \<Rightarrow> NodeInfo list" where
  "closestFrom G buckets target cnt byNameHash t =
     (if cnt \<le> 0 then [] else sortClosestEntries G (mem t) (concat buckets) target cnt byNameHash)"

definition ClosestNodes :: "golib \<Rightarrow> string \<Rightarrow> int \<Rightarrow> RoutingTable \<Rightarrow> NodeInfo list" where
  "ClosestNodes G targetID cnt t = closestFrom G (Buckets t) targetID cnt False t"

definition ClosestNodesByNameHash :: "golib \<Rightarrow> string \<Rightarrow> int \<Rightarrow> RoutingTable \<Rightarrow> NodeInfo list" where
  "ClosestNodesByNameHash G targetHash cnt t = closestFrom G (NameBuckets t) targetHash cnt True t"

definition ClosestNodesForBootstrap ::
  "golib \<Rightarrow> string list \<Rightarrow> time \<Rightarrow> string \<Rightarrow> int \<Rightarrow> bool \<Rightarrow> RoutingTable \<Rightarrow> NodeInfo list" where
  "ClosestNodesForBootstrap G offs now target cnt byNameHash t =
     (if cnt \<le> 0 then []
      else (let active = concat (if byNameHash then NameBuckets t else Buckets t);
                hints = filter (\<lambda>a. \<not> (IsZero (be_OfflineSince (mem t a)) \<or> Sub now (be_OfflineSince (mem t a)) > peerHistoryTTL)
                                  \<and> entry_id (mem t) a \<notin> entry_id (mem t) ` set active)
                          (List.map_filter (offline t) offs)
        in sortClosestEntries G (mem t) (active @ hints) target cnt byNameHash))"

fun diverse_contacts :: "(string \<Rightarrow> string list) \<Rightarrow> bucketEntry list \<Rightarrow> string set \<Rightarrow> NodeInfo list" where
  "diverse_contacts keys [] seen = []"
| "diverse_contacts keys (e # es) seen =
     (let ks = keys (ni_Addr (be_Node e)) in
      if list_ex (\<lambda>k. k \<notin> seen) ks then be_Node e # diverse_contacts keys es (seen \<union> set ks)
      else diverse_contacts keys es seen)"

definition DiversityContacts :: "golib \<Rightarrow> asn_resolver \<Rightarrow> string list \<Rightarrow> RoutingTable \<Rightarrow> NodeInfo list" where
  "DiversityContacts G R ids t =
     (let entries = map (mem t) (filter (\<lambda>a. inIndexLocked (mem t) (Buckets t) (entry_id (mem t) a))
                      (List.map_filter (peerByID t) ids));
          before = (\<lambda>x y. let l = observationOf x; r = observationOf y in
                     if peerRetentionLess l r then True else if peerRetentionLess r l then False
                     else ni_ID (be_Node x) < ni_ID (be_Node y))
      in diverse_contacts (peerDiversityKeys G R) (sort_slice before entries) {})"

definition lookupDistance :: "golib \<Rightarrow> NodeInfo \<Rightarrow> string \<Rightarrow> nat" where
  "lookupDistance G node target =
     (if HasPrefix target ''node/name/''
      then xorDistance G (nodeNameHash G node) (TrimPrefix target ''node/name/'')
      else xorDistance G (ni_ID node) target)"

definition NodeByAddress :: "string list \<Rightarrow> string \<Rightarrow> RoutingTable \<Rightarrow> NodeInfo option" where
  "NodeByAddress ids addr t =
     List.find (\<lambda>n. ni_Addr n = addr) (map (\<lambda>a. be_Node (mem t a)) (List.map_filter (peerByID t) ids))"

definition ActiveNode :: "string \<Rightarrow> RoutingTable \<Rightarrow> NodeInfo option" where
  "ActiveNode nodeID t = (case peerByID t nodeID of
     None \<Rightarrow> None
   | Some a \<Rightarrow> if \<not> inIndexLocked (mem t) (Buckets t) nodeID \<and> \<not> inIndexLocked (mem t) (NameBuckets t) nodeID
              then None else Some (be_Node (mem t a)))"

text \<open>\<^verbatim>\<open>rt.peerByID[id].Node\<close> on a missing identifier dereferences a nil pointer: \<^verbatim>\<open>None\<close>.\<close>

fun collect_nodes :: "RoutingTable \<Rightarrow> string \<Rightarrow> string list \<Rightarrow> NodeInfo list option" where
  "collect_nodes t lastID [] = Some []"
| "collect_nodes t lastID (i # is) =
     (if i = lastID then collect_nodes t lastID is
      else (case peerByID t i of
          None \<Rightarrow> None
        | Some a \<Rightarrow> map_option (Cons (be_Node (mem t a))) (collect_nodes t i is)))"

definition Nodes :: "RoutingTable \<Rightarrow> NodeInfo list option" where
  "Nodes t = collect_nodes t [] (sort (map (entry_id (mem t)) (concat (Buckets t))))"

definition ActivePeerCount :: "RoutingTable \<Rightarrow> nat" where
  "ActivePeerCount t = sum_list (map length (Buckets t))"

fun append_unique :: "nat \<Rightarrow> NodeInfo list \<Rightarrow> NodeInfo list \<Rightarrow> NodeInfo list \<times> bool" where
  "append_unique limit out [] = (out, False)"
| "append_unique limit out (n # ns) =
     (if ni_ID n \<in> set (map ni_ID out) then append_unique limit out ns
      else if length out + 1 = limit then (out @ [n], True)
      else append_unique limit (out @ [n]) ns)"

definition CandidateNodes :: "string list \<Rightarrow> string list \<Rightarrow> time \<Rightarrow> int \<Rightarrow> RoutingTable \<Rightarrow> NodeInfo list" where
  "CandidateNodes ids offs now limit0 t =
     (let limit = (if limit0 \<le> 0 \<or> limit0 > maxPendingCandidates then 512 else nat limit0);
          less = (\<lambda>a b. peerRetentionLess (observationOf (mem t a)) (observationOf (mem t b)));
          nodes = map (\<lambda>a. be_Node (mem t a));
          pend = nodes (sort_slice less (concat (Pending t)));
          kept = nodes (filter (\<lambda>a. be_Pinned (mem t a) \<or> be_Friend (mem t a)) (List.map_filter (peerByID t) ids));
          off = nodes (sort_slice less (filter (\<lambda>a. be_Pinned (mem t a) \<or> be_Friend (mem t a) \<or>
                    IsZero (be_OfflineSince (mem t a)) \<or> Sub now (be_OfflineSince (mem t a)) \<le> peerHistoryTTL)
                  (List.map_filter (offline t) offs)))
      in case append_unique limit [] pend of
           (out, True) \<Rightarrow> out
         | (out, False) \<Rightarrow> (case append_unique limit out kept of
             (out, True) \<Rightarrow> out
           | (out, False) \<Rightarrow> fst (append_unique limit out off)))"

definition rank_map :: "PeerObservation list \<Rightarrow> string \<Rightarrow> u16" where
  "rank_map peers = foldl (\<lambda>m (i, p). m(po_ID p := of_nat (i + 1))) (\<lambda>_. 0) (take 50 (enumerate 0 peers))"

definition assignClosestRanks :: "golib \<Rightarrow> string \<Rightarrow> string \<Rightarrow> PeerObservation list \<Rightarrow> PeerObservation list" where
  "assignClosestRanks G selfID selfNameHash peers =
     (let byID = sort_slice (\<lambda>a b. xorDistance G selfID (po_ID a) < xorDistance G selfID (po_ID b)) peers;
          byName = sort_slice (\<lambda>a b. xorDistance G selfNameHash (nodeNameHash G (po_Node a)) <
                                     xorDistance G selfNameHash (nodeNameHash G (po_Node b))) peers
      in map (\<lambda>p. p\<lparr>po_ClosestIDRank := rank_map byID (po_ID p),
                     po_ClosestNameRank := rank_map byName (po_ID p)\<rparr>) peers)"

definition SnapshotPeers :: "golib \<Rightarrow> string list \<Rightarrow> RoutingTable \<Rightarrow> PeerObservation list" where
  "SnapshotPeers G ids t =
     assignClosestRanks G (SelfID t) (SelfNameHash t)
       (map snapshot_of (filter (\<lambda>e. \<not> be_Transient e \<and>
           \<not> (be_SuccessCount e = 0 \<and> \<not> be_Pinned e \<and> \<not> be_Friend e))
         (map (mem t) (List.map_filter (peerByID t) ids))))"

end
