(* ===== verification/TableInvariant.thy ===== *)
theory TableInvariant
  imports Table
begin

text \<open>
  The structural invariant of the routing table and its preservation by every operation: the three
  indexes hold addresses of live entries in the bucket of their coordinate, no peer is listed twice,
  and the maps agree with the indexes. Each primitive change of the state has one preservation lemma
  in \<^verbatim>\<open>inv_intros\<close>; the operations compose them.
\<close>

section \<open>Slices\<close>

lemma indexOfEntry_None_iff: "indexOfEntry m b i = None \<longleftrightarrow> i \<notin> entry_id m ` set b"
  by (induction b) auto

lemma indexOfEntry_Some:
  "indexOfEntry m b i = Some p \<Longrightarrow> p < length b \<and> entry_id m (b ! p) = i"
  by (induction b arbitrary: p) (auto split: if_splits)

lemma remove_entry_Nil [simp]: "remove_entry m i [] = []"
  by (simp add: remove_entry_def)

lemma remove_entry_Cons [simp]:
  "remove_entry m i (a # b) = (if entry_id m a = i then b else a # remove_entry m i b)"
  by (simp add: remove_entry_def remove_at_def split: option.splits)

lemma remove_entry_filter:
  "inj_on (entry_id m) (set b) \<Longrightarrow> distinct b \<Longrightarrow> remove_entry m i b = filter (\<lambda>a. entry_id m a \<noteq> i) b"
proof (induction b)
  case (Cons a b)
  have "entry_id m a = i \<Longrightarrow> filter (\<lambda>x. entry_id m x \<noteq> i) b = b"
    using Cons.prems by (auto simp: filter_id_conv inj_on_def)
  then show ?case using Cons by simp
qed simp

lemma moveToFront_remove:
  "indexOfEntry m b i = Some p \<Longrightarrow> moveToFront b p = b ! p # remove_entry m i b"
  by (simp add: moveToFront_def remove_entry_def remove_at_def)

lemma remove_first_length:
  "remove_first m i X = (X', found) \<Longrightarrow>
     length (concat X) = length (concat X') + (if found then 1 else 0)"
proof (induction X arbitrary: X')
  case (Cons b X)
  then show ?case
    using indexOfEntry_Some [of m b i]
    by (fastforce simp: remove_at_def split: option.splits prod.splits)
qed simp

lemma remove_first_eq:
  "distinct (map (entry_id m) (concat X)) \<Longrightarrow> remove_first m i X = removeFromIndexLocked m X i"
proof (induction X)
  case (Cons b X)
  have absent: "i \<notin> entry_id m ` set b \<Longrightarrow> remove_entry m i b = b" for b
    by (simp add: remove_entry_def indexOfEntry_None_iff [THEN iffD2])
  show ?case
  proof (cases "indexOfEntry m b i")
    case None
    then have "remove_entry m i b = b" by (simp add: remove_entry_def)
    then show ?thesis using Cons None by (simp add: removeFromIndexLocked_def inIndexLocked_def)
  next
    case (Some p)
    then have "i \<in> entry_id m ` set b" using indexOfEntry_None_iff [of m b i] by auto
    then have "i \<notin> entry_id m ` set c" if "c \<in> set X" for c using Cons.prems that by auto
    then have "map (remove_entry m i) X = X" using absent by (simp add: map_idI)
    then show ?thesis using Some
      by (simp add: removeFromIndexLocked_def inIndexLocked_def remove_entry_def)
  qed
qed (simp add: removeFromIndexLocked_def inIndexLocked_def)

section \<open>Well-formed indexes\<close>

definition held :: "index \<Rightarrow> addr set" where
  "held X = set (concat X)"

definition index_ok :: "(addr \<Rightarrow> nat) \<Rightarrow> memory \<Rightarrow> (string \<rightharpoonup> addr) \<Rightarrow> index \<Rightarrow> bool" where
  "index_ok place m owner X \<longleftrightarrow> length X = 256 \<and>
     (\<forall>i < 256. distinct (X ! i) \<and> (\<forall>a \<in> set (X ! i). owner (entry_id m a) = Some a \<and> place a = i))"

lemma held_iff: "a \<in> held X \<longleftrightarrow> (\<exists>i < length X. a \<in> set (X ! i))"
  unfolding held_def set_concat by (auto simp: set_conv_nth [of X])

lemma index_ok_length [simp]: "index_ok place m owner X \<Longrightarrow> length X = 256"
  by (simp add: index_ok_def)

lemma index_ok_owner: "index_ok place m owner X \<Longrightarrow> a \<in> held X \<Longrightarrow> owner (entry_id m a) = Some a"
  unfolding held_iff index_ok_def by auto

lemma index_ok_place: "index_ok place m owner X \<Longrightarrow> a \<in> held X \<Longrightarrow> a \<in> set (X ! place a)"
  unfolding held_iff index_ok_def by auto

lemma index_ok_inj: "index_ok place m owner X \<Longrightarrow> inj_on (entry_id m) (held X)"
  by (rule inj_onI) (metis index_ok_owner option.inject)

lemma index_ok_no_buckets [simp]: "index_ok place m owner no_buckets"
  by (simp add: index_ok_def)

lemma inIndex_iff: "inIndexLocked m X i \<longleftrightarrow> (\<exists>a \<in> held X. entry_id m a = i)"
  unfolding inIndexLocked_def list_ex_iff indexOfEntry_None_iff held_def by auto

lemma inIndex_owner:
  assumes "index_ok place m owner X" "owner i = Some a" "entry_id m a = i"
  shows "inIndexLocked m X i \<longleftrightarrow> a \<in> held X"
  unfolding inIndex_iff using index_ok_owner [OF assms(1)] assms(2,3) by (metis option.inject)

lemma index_ok_cong:
  assumes "index_ok place m owner X"
    and "\<And>a. a \<in> held X \<Longrightarrow>
      owner' (entry_id m' a) = owner (entry_id m a) \<and> place' a = place a"
  shows "index_ok place' m' owner' X"
proof -
  have "owner' (entry_id m' a) = owner (entry_id m a) \<and> place' a = place a"
    if "i < 256" "a \<in> set (X ! i)" for i a
    using that assms held_iff index_ok_length by metis
  then show ?thesis using assms(1) unfolding index_ok_def by metis
qed

lemma distinct_concat_placed:
  fixes X :: index
  shows "(\<forall>i < length X. distinct (X ! i) \<and> (\<forall>a \<in> set (X ! i). place a = i + k)) \<Longrightarrow> distinct (concat X)"
proof (induction X arbitrary: k)
  case (Cons b X)
  have rest: "\<forall>i < length X. distinct (X ! i) \<and> (\<forall>a \<in> set (X ! i). place a = i + Suc k)"
    using Cons.prems by fastforce
  have "place a = k" if "a \<in> set b" for a using Cons.prems that by fastforce
  moreover have "place a \<noteq> k" if a: "a \<in> held X" for a
  proof -
    obtain i where "i < length X" "a \<in> set (X ! i)" using a unfolding held_iff by blast
    then have "place a = i + Suc k" using rest by blast
    then show ?thesis by simp
  qed
  ultimately have "set b \<inter> held X = {}" by blast
  moreover have "distinct b" using Cons.prems by fastforce
  ultimately show ?case using Cons.IH [OF rest] by (simp add: held_def)
qed simp

lemma index_ok_distinct:
  assumes "index_ok place m owner X"
  shows "distinct (concat X)" "distinct (map (entry_id m) (concat X))"
proof -
  show d: "distinct (concat X)"
    using assms by (intro distinct_concat_placed [of X place 0]) (auto simp: index_ok_def)
  then show "distinct (map (entry_id m) (concat X))"
    using index_ok_inj [OF assms] by (simp add: distinct_map held_def)
qed

lemma index_ok_remove_eq:
  assumes "index_ok place m owner X"
  shows "map (remove_entry m i) X = map (filter (\<lambda>a. entry_id m a \<noteq> i)) X"
proof (rule map_cong [OF refl])
  fix b assume b: "b \<in> set X"
  then have "inj_on (entry_id m) (set b)" using index_ok_inj [OF assms] by (rule_tac inj_on_subset) (auto simp: held_def)
  moreover have "distinct b" using b assms unfolding index_ok_def by (metis in_set_conv_nth)
  ultimately show "remove_entry m i b = filter (\<lambda>a. entry_id m a \<noteq> i) b" by (rule remove_entry_filter)
qed

lemma held_filter [simp]: "held (map (filter P) X) = {a \<in> held X. P a}"
  by (auto simp: held_def)

lemma held_no_buckets [simp]: "held no_buckets = {}"
  by (simp add: held_def)

lemma index_ok_filter: "index_ok place m owner X \<Longrightarrow> index_ok place m owner (map (filter P) X)"
  by (simp add: index_ok_def)

lemma insertIndex_eq:
  assumes "index_ok place m owner X" "owner (entry_id m a) = Some a" "clamp_bucket idx = i" "i < 256"
  shows "insertIndexLocked m X a idx = X[i := a # filter (\<lambda>x. x \<noteq> a) (X ! i)]"
proof -
  have same: "x = a" if "x \<in> set (X ! i)" "entry_id m x = entry_id m a" for x
    using that assms(1,2,4) by (metis index_ok_def option.inject)
  show ?thesis
  proof (cases "indexOfEntry m (X ! i) (entry_id m a)")
    case None
    then have "a \<notin> set (X ! i)" by (auto simp: indexOfEntry_None_iff)
    then have "filter (\<lambda>x. x \<noteq> a) (X ! i) = X ! i" by (auto simp: filter_id_conv)
    then show ?thesis using None assms(3) by (simp add: insertIndexLocked_def)
  next
    case (Some p)
    have "X ! i ! p = a" using indexOfEntry_Some [OF Some] same nth_mem by blast
    moreover have "remove_entry m (entry_id m a) (X ! i) = filter (\<lambda>x. entry_id m x \<noteq> entry_id m a) (X ! i)"
      using arg_cong [OF index_ok_remove_eq [OF assms(1), of "entry_id m a"], of "\<lambda>Y. Y ! i"] assms(1,4) by simp
    moreover have "filter (\<lambda>x. entry_id m x \<noteq> entry_id m a) (X ! i) = filter (\<lambda>x. x \<noteq> a) (X ! i)"
      using same by (intro filter_cong) auto
    ultimately show ?thesis
      using Some assms(3) by (simp add: insertIndexLocked_def moveToFront_remove)
  qed
qed

lemma index_ok_insert:
  assumes "index_ok place m owner X" "owner (entry_id m a) = Some a" "place a = i" "i < 256"
  shows "index_ok place m owner (X[i := a # filter (\<lambda>x. x \<noteq> a) (X ! i)])"
  using assms by (auto simp: index_ok_def nth_list_update)

lemma held_insert [simp]:
  assumes "i < length X"
  shows "held (X[i := a # filter (\<lambda>x. x \<noteq> a) (X ! i)]) = insert a (held X)"
proof (rule set_eqI)
  fix x
  show "x \<in> held (X[i := a # filter (\<lambda>x. x \<noteq> a) (X ! i)]) \<longleftrightarrow> x \<in> insert a (held X)"
    unfolding held_iff insert_iff using assms by (auto simp: nth_list_update split: if_splits)
qed

lemma held_append [simp]:
  assumes "i < length X"
  shows "held (X[i := X ! i @ [a]]) = insert a (held X)"
proof (rule set_eqI)
  fix x
  show "x \<in> held (X[i := X ! i @ [a]]) \<longleftrightarrow> x \<in> insert a (held X)"
    unfolding held_iff insert_iff using assms by (auto simp: nth_list_update split: if_splits)
qed

lemma length_concat_append:
  "i < length X \<Longrightarrow> length (concat (X[i := X ! i @ [a]])) = Suc (length (concat X))"
  by (induction X arbitrary: i) (auto simp: nth_Cons split: nat.splits)

lemma index_ok_append:
  assumes "index_ok place m owner X" "owner (entry_id m a) = Some a" "place a = i" "i < 256" "a \<notin> held X"
  shows "index_ok place m owner (X[i := X ! i @ [a]])"
proof -
  have "a \<notin> set (X ! i)" using assms(1,4,5) unfolding held_iff by auto
  then show ?thesis using assms(1-4) by (auto simp: index_ok_def nth_list_update)
qed

lemma clamp_less [simp]: "clamp_bucket idx < 256"
  by (auto simp: clamp_bucket_def)

lemma moveToFrontLocked_ok:
  assumes "index_ok place m owner X"
  shows "index_ok place m owner (moveToFrontLocked m X i idx)" "held (moveToFrontLocked m X i idx) = held X"
proof -
  let ?X' = "moveToFrontLocked m X i idx"
  have "index_ok place m owner ?X' \<and> held ?X' = held X"
  proof (cases "0 \<le> idx \<and> idx \<le> 255")
    case False
    then show ?thesis using assms by (auto simp: moveToFrontLocked_def)
  next
    case True
    let ?k = "nat idx" and ?b = "X ! nat idx"
    have k: "?k < 256" "clamp_bucket idx = ?k" using True by (auto simp: clamp_bucket_def)
    show ?thesis
    proof (cases "indexOfEntry m ?b i")
      case (Some p)
      let ?a = "?b ! p"
      have a: "?a \<in> set ?b" "entry_id m ?a = i" using indexOfEntry_Some [OF Some] by auto
      then have own: "owner (entry_id m ?a) = Some ?a" "place ?a = ?k" "?a \<in> held X"
        using assms k by (auto simp: index_ok_def held_iff)
      have "insertIndexLocked m X ?a idx = X[?k := moveToFront ?b p]"
        using Some a k by (simp add: insertIndexLocked_def Let_def)
      then have eq: "X[?k := moveToFront ?b p] = X[?k := ?a # filter (\<lambda>x. x \<noteq> ?a) ?b]"
        using insertIndex_eq [OF assms own(1) k(2,1)] by simp
      have "?X' = X \<or> ?X' = X[?k := moveToFront ?b p]"
        using True Some by (cases p) (auto simp: moveToFrontLocked_def)
      then show ?thesis
        unfolding eq using assms own k index_ok_insert [OF assms own(1,2) k(1)]
          held_insert [of ?k X ?a] by auto
    qed (use True assms in \<open>auto simp: moveToFrontLocked_def\<close>)
  qed
  then show "index_ok place m owner ?X'" "held ?X' = held X" by auto
qed

section \<open>The invariant\<close>

abbreviation id_place :: "golib \<Rightarrow> RoutingTable \<Rightarrow> addr \<Rightarrow> nat" where
  "id_place G t a \<equiv> clamp_bucket (bucketIndex G (SelfID t) (entry_id (mem t) a))"

abbreviation name_place :: "golib \<Rightarrow> RoutingTable \<Rightarrow> addr \<Rightarrow> nat" where
  "name_place G t a \<equiv> clamp_bucket (nameBucketIndex G (SelfNameHash t) (be_Node (mem t a)))"

definition peers_ok :: "RoutingTable \<Rightarrow> bool" where
  "peers_ok t \<longleftrightarrow> (\<forall>i a. peerByID t i = Some a \<longrightarrow>
     a < next_addr t \<and> entry_id (mem t) a = i \<and> i \<noteq> [] \<and> i \<noteq> SelfID t)"

definition offline_ok :: "RoutingTable \<Rightarrow> bool" where
  "offline_ok t \<longleftrightarrow> (\<forall>i a. offline t i = Some a \<longrightarrow>
     peerByID t i = Some a \<and> a \<notin> held (Buckets t) \<and> a \<notin> held (Pending t) \<and>
     (be_SuccessCount (mem t a) \<noteq> 0 \<or> be_Pinned (mem t a)))"

definition table_ok :: "golib \<Rightarrow> RoutingTable \<Rightarrow> bool" where
  "table_ok G t \<longleftrightarrow>
     index_ok (id_place G t) (mem t) (peerByID t) (Buckets t) \<and>
     index_ok (name_place G t) (mem t) (peerByID t) (NameBuckets t) \<and>
     index_ok (id_place G t) (mem t) (peerByID t) (Pending t) \<and>
     held (NameBuckets t) \<subseteq> held (Buckets t) \<and> held (Pending t) \<inter> held (Buckets t) = {} \<and>
     peers_ok t \<and> offline_ok t \<and>
     (\<forall>a \<in> held (Buckets t). be_SuccessCount (mem t a) \<noteq> 0) \<and>
     pendingN t \<le> maxPendingCandidates \<and> pendingN t \<le> int (length (concat (Pending t)))"

lemma table_okD:
  assumes "table_ok G t"
  shows "index_ok (id_place G t) (mem t) (peerByID t) (Buckets t)"
    and "index_ok (name_place G t) (mem t) (peerByID t) (NameBuckets t)"
    and "index_ok (id_place G t) (mem t) (peerByID t) (Pending t)"
    and "held (NameBuckets t) \<subseteq> held (Buckets t)"
    and "held (Pending t) \<inter> held (Buckets t) = {}"
    and "peers_ok t" "offline_ok t"
    and "a \<in> held (Buckets t) \<Longrightarrow> be_SuccessCount (mem t a) \<noteq> 0"
    and "pendingN t \<le> 512" and "pendingN t \<le> int (length (concat (Pending t)))"
  using assms unfolding table_ok_def by blast+

lemma peer_id: "table_ok G t \<Longrightarrow> peerByID t i = Some a \<Longrightarrow> entry_id (mem t) a = i"
  by (simp add: table_ok_def peers_ok_def)

lemma peer_lt: "table_ok G t \<Longrightarrow> peerByID t i = Some a \<Longrightarrow> a < next_addr t"
  by (simp add: table_ok_def peers_ok_def)

lemma offline_peer: "table_ok G t \<Longrightarrow> offline t i = Some a \<Longrightarrow> peerByID t i = Some a"
  by (simp add: table_ok_def offline_ok_def)

lemma peer_entry: "table_ok G t \<Longrightarrow> peerByID t i = Some a \<Longrightarrow> peerByID t (entry_id (mem t) a) = Some a"
  by (simp add: peer_id)

lemma in_buckets_iff:
  "table_ok G t \<Longrightarrow> peerByID t i = Some a \<Longrightarrow> inIndexLocked (mem t) (Buckets t) i \<longleftrightarrow> a \<in> held (Buckets t)"
  by (rule inIndex_owner [OF table_okD(1)]) (simp_all add: peer_id)

lemma in_names_iff:
  "table_ok G t \<Longrightarrow> peerByID t i = Some a \<Longrightarrow> inIndexLocked (mem t) (NameBuckets t) i \<longleftrightarrow> a \<in> held (NameBuckets t)"
  by (rule inIndex_owner [OF table_okD(2)]) (simp_all add: peer_id)

lemma in_pending_iff:
  "table_ok G t \<Longrightarrow> peerByID t i = Some a \<Longrightarrow> inIndexLocked (mem t) (Pending t) i \<longleftrightarrow> a \<in> held (Pending t)"
  by (rule inIndex_owner [OF table_okD(3)]) (simp_all add: peer_id)

lemma not_indexed:
  assumes "index_ok place m owner X" "owner i = None"
  shows "\<not> inIndexLocked m X i"
  unfolding inIndex_iff using index_ok_owner [OF assms(1)] assms(2) by force

lemma remove_index_held:
  assumes "index_ok place m owner X" "owner i = Some a" "entry_id m a = i"
  shows "held (map (remove_entry m i) X) = held X - {a}"
proof -
  have "entry_id m x = i \<longleftrightarrow> x = a" if "x \<in> held X" for x
    using index_ok_owner [OF assms(1) that] assms(2,3) by (metis option.inject)
  then have "{x \<in> held X. entry_id m x \<noteq> i} = held X - {a}" by (auto simp del: assms)
  then show ?thesis by (simp only: index_ok_remove_eq [OF assms(1)] held_filter)
qed

lemma NewRoutingTable_ok: "table_ok G (NewRoutingTable G selfID)"
  by (simp add: table_ok_def NewRoutingTable_def peers_ok_def offline_ok_def)

section \<open>Preservation by the primitive changes\<close>

text \<open>A change of the fields of one entry that keeps its identifier and its name coordinate.\<close>

lemma upd_entry_ok [inv_intros]:
  assumes ok: "table_ok G t"
    and f: "ni_ID (be_Node (f (mem t a))) = entry_id (mem t) a"
      "a \<in> held (NameBuckets t) \<Longrightarrow> nodeNameHash G (be_Node (f (mem t a))) = nodeNameHash G (be_Node (mem t a))"
    and s: "a \<in> held (Buckets t) \<Longrightarrow> be_SuccessCount (f (mem t a)) \<noteq> 0"
    and o: "a \<in> ran (offline t) \<Longrightarrow> be_SuccessCount (f (mem t a)) \<noteq> 0 \<or> be_Pinned (f (mem t a))"
  shows "table_ok G (upd_entry a f t)"
proof -
  note D = table_okD [OF ok]
  let ?m = "(mem t)(a := f (mem t a))"
  have i: "entry_id ?m x = entry_id (mem t) x" for x using f(1) by simp
  have n: "nameBucketIndex G h (be_Node (?m x)) = nameBucketIndex G h (be_Node (mem t x))"
    if "x \<in> held (NameBuckets t)" for h x
    using f(2) that by (auto simp: nameBucketIndex_def)
  have "index_ok (id_place G t) (mem t) (peerByID t) X \<Longrightarrow>
      index_ok (\<lambda>x. clamp_bucket (bucketIndex G (SelfID t) (entry_id ?m x))) ?m (peerByID t) X" for X
    by (erule index_ok_cong) (simp only: i)
  moreover have "index_ok (\<lambda>x. clamp_bucket (nameBucketIndex G (SelfNameHash t) (be_Node (?m x)))) ?m
      (peerByID t) (NameBuckets t)"
    using D(2) by (rule index_ok_cong) (simp only: i n)
  moreover have "peers_ok (upd_entry a f t)"
    using D(6) f(1) by (auto simp: peers_ok_def upd_entry_def)
  moreover have "offline_ok (upd_entry a f t)"
    using D(7) o by (auto simp: offline_ok_def upd_entry_def ran_def)
  ultimately show ?thesis
    using D s by (auto simp: table_ok_def upd_entry_def)
qed

lemma drop_offline_ok [inv_intros]: "table_ok G t \<Longrightarrow> table_ok G (drop_offline i t)"
  unfolding table_ok_def by (auto simp: drop_offline_def peers_ok_def offline_ok_def)

lemma new_entry_ok:
  assumes ok: "table_ok G t"
    and new: "peerByID t i = None" "i \<noteq> []" "i \<noteq> SelfID t" "ni_ID (be_Node e) = i"
  shows "table_ok G (new_entry e t)"
    and "peerByID (new_entry e t) i = Some (next_addr t)"
    and "next_addr t \<notin> held (Buckets t)" "next_addr t \<notin> held (Pending t)"
    and "offline t i = None"
proof -
  note D = table_okD [OF ok]
  let ?n = "next_addr t" and ?o = "(peerByID t)(i \<mapsto> next_addr t)" and ?m = "(mem t)(next_addr t := e)"
  have fresh: "a \<noteq> ?n" "entry_id (mem t) a \<noteq> i" if "index_ok place (mem t) (peerByID t) X" "a \<in> held X" for place X a
    using index_ok_owner [OF that] peer_lt [OF ok] new(1) by fastforce+
  show n: "?n \<notin> held (Buckets t)" "?n \<notin> held (Pending t)" using fresh(1) D(1,3) by blast+
  show off: "offline t i = None" using offline_peer [OF ok, of i] new(1) by (cases "offline t i") auto
  have keep: "index_ok place' ?m ?o X"
    if "index_ok place (mem t) (peerByID t) X" "\<And>a. a \<noteq> ?n \<Longrightarrow> place' a = place a" for place place' X
    using that(1) by (rule index_ok_cong) (use fresh [OF that(1)] that(2) in auto)
  have "index_ok (\<lambda>x. clamp_bucket (bucketIndex G (SelfID t) (entry_id ?m x))) ?m ?o (Buckets t)"
    "index_ok (\<lambda>x. clamp_bucket (bucketIndex G (SelfID t) (entry_id ?m x))) ?m ?o (Pending t)"
    "index_ok (\<lambda>x. clamp_bucket (nameBucketIndex G (SelfNameHash t) (be_Node (?m x)))) ?m ?o (NameBuckets t)"
    by (rule keep [OF D(1)] keep [OF D(3)] keep [OF D(2)], simp)+
  moreover have "peers_ok (new_entry e t)"
    using D(6) new by (auto simp: peers_ok_def new_entry_def less_Suc_eq)
  moreover have "offline_ok (new_entry e t)"
    using D(6,7) off new by (auto simp: offline_ok_def peers_ok_def new_entry_def)
  moreover have "be_SuccessCount (?m a) \<noteq> 0" if "a \<in> held (Buckets t)" for a
    using that n D(8) by auto
  ultimately show "table_ok G (new_entry e t)"
    using D new(4) by (auto simp: table_ok_def new_entry_def)
  show "peerByID (new_entry e t) i = Some ?n" using new(4) by (simp add: new_entry_def)
qed

text \<open>Taking a candidate off its list.\<close>

lemma removePending_ok:
  assumes ok: "table_ok G t" and r: "removePendingLocked i t = (t', found)"
  shows "table_ok G t'"
    and "Buckets t' = Buckets t" "NameBuckets t' = NameBuckets t" "mem t' = mem t" "peerByID t' = peerByID t"
      "offline t' = offline t" "SelfID t' = SelfID t" "SelfNameHash t' = SelfNameHash t" "next_addr t' = next_addr t"
    and "found = inIndexLocked (mem t) (Pending t) i"
    and "held (Pending t') = {a \<in> held (Pending t). entry_id (mem t) a \<noteq> i}"
    and "pendingN t' = pendingN t - (if found then 1 else 0)"
proof -
  note D = table_okD [OF ok]
  let ?P = "map (filter (\<lambda>a. entry_id (mem t) a \<noteq> i)) (Pending t)" and ?f = "inIndexLocked (mem t) (Pending t) i"
  have rf: "remove_first (mem t) i (Pending t) = (?P, ?f)"
    using remove_first_eq [OF index_ok_distinct(2) [OF D(3)]] index_ok_remove_eq [OF D(3)]
    by (simp add: removeFromIndexLocked_def)
  have len: "length (concat (Pending t)) = length (concat ?P) + (if ?f then 1 else 0)"
    using remove_first_length [OF rf] .
  have t': "t' = (if ?f then t\<lparr>Pending := ?P, pendingN := pendingN t - 1\<rparr> else t)" and found: "found = ?f"
    using r rf by (auto simp: removePendingLocked_def)
  have idx: "index_ok (id_place G t) (mem t) (peerByID t) ?P" by (rule index_ok_filter [OF D(3)])
  show "table_ok G t'"
  proof (cases ?f)
    case True
    then have "pendingN t - 1 \<le> int (length (concat ?P))" using D(10) len by simp
    then show ?thesis
      using True t' D idx by (auto simp: table_ok_def peers_ok_def offline_ok_def)
  qed (use t' ok in simp)
  show "found = inIndexLocked (mem t) (Pending t) i" by (rule found)
  show "held (Pending t') = {a \<in> held (Pending t). entry_id (mem t) a \<noteq> i}"
    using t' by (auto simp: inIndex_iff)
qed (use r in \<open>auto simp: removePendingLocked_def split: prod.splits\<close>)

text \<open>Entering and leaving the indexes.\<close>

lemma not_offline:
  assumes ok: "table_ok G t" and p: "peerByID t i = Some a" "offline t i = None"
  shows "a \<notin> ran (offline t)"
proof
  assume "a \<in> ran (offline t)"
  then obtain j where j: "offline t j = Some a" by (auto simp: ran_def)
  then have "j = i" using offline_peer [OF ok j] peer_id [OF ok] p(1) by metis
  with j p(2) show False by simp
qed

lemma insert_active_ok:
  assumes ok: "table_ok G t" and p: "peerByID t i = Some a" "offline t i = None"
    and a: "a \<notin> held (Pending t)" "be_SuccessCount (mem t a) \<noteq> 0"
  shows "table_ok G (insert_active G a t)" "held (Buckets (insert_active G a t)) = insert a (held (Buckets t))"
proof -
  note D = table_okD [OF ok] and own = peer_entry [OF ok p(1)]
  let ?i = "id_place G t a"
  let ?X = "(Buckets t)[?i := a # filter (\<lambda>x. x \<noteq> a) (Buckets t ! ?i)]"
  have t': "insert_active G a t = t\<lparr>Buckets := ?X\<rparr>"
    unfolding insert_active_def by (simp add: insertIndex_eq [OF D(1) own refl])
  have held: "held ?X = insert a (held (Buckets t))" using D(1) by simp
  have "index_ok (id_place G t) (mem t) (peerByID t) ?X"
    by (rule index_ok_insert [OF D(1) own refl]) simp
  moreover have "offline_ok (t\<lparr>Buckets := ?X\<rparr>)"
    using D(7) not_offline [OF ok p] unfolding offline_ok_def by (simp add: held) (metis ranI)
  moreover have "held (NameBuckets t) \<subseteq> held ?X" "held (Pending t) \<inter> held ?X = {}"
    using D(4,5) a(1) by (auto simp: held)
  ultimately show "table_ok G (insert_active G a t)"
    using D a(2) unfolding t' table_ok_def by (simp add: held peers_ok_def)
  show "held (Buckets (insert_active G a t)) = insert a (held (Buckets t))" by (simp add: t' held)
qed

lemma insert_name_ok:
  assumes ok: "table_ok G t" and p: "peerByID t i = Some a" and a: "a \<in> held (Buckets t)"
  shows "table_ok G (insert_name G a t)"
proof -
  note D = table_okD [OF ok] and own = peer_entry [OF ok p(1)]
  let ?i = "name_place G t a"
  let ?X = "(NameBuckets t)[?i := a # filter (\<lambda>x. x \<noteq> a) (NameBuckets t ! ?i)]"
  have t': "insert_name G a t = t\<lparr>NameBuckets := ?X\<rparr>"
    unfolding insert_name_def by (simp add: insertIndex_eq [OF D(2) own refl])
  have held: "held ?X = insert a (held (NameBuckets t))" using D(2) by simp
  have "index_ok (name_place G t) (mem t) (peerByID t) ?X"
    by (rule index_ok_insert [OF D(2) own refl]) simp
  then show ?thesis
    using D a unfolding t' table_ok_def by (simp add: held peers_ok_def offline_ok_def)
qed

lemma append_pending_ok:
  assumes ok: "table_ok G t" and p: "peerByID t i = Some a" "offline t i = None"
    and a: "a \<notin> held (Buckets t)" "a \<notin> held (Pending t)"
    and ap: "append_pending a (bucketIndex G (SelfID t) i) t = Some t'"
    and n: "n \<le> 512" "n \<le> pendingN t + 1"
  shows "table_ok G (t'\<lparr>pendingN := n\<rparr>)"
proof -
  note D = table_okD [OF ok] and own = peer_entry [OF ok p(1)]
  let ?b = "bucketIndex G (SelfID t) i" and ?i = "id_place G t a"
  have b: "0 \<le> ?b" "?b \<le> 255" using ap by (auto simp: append_pending_def split: if_splits)
  then have i: "nat ?b = ?i" using peer_id [OF ok p(1)] by (simp add: clamp_bucket_def)
  let ?X = "(Pending t)[?i := Pending t ! ?i @ [a]]"
  have t': "t' = t\<lparr>Pending := ?X\<rparr>"
    using ap b unfolding append_pending_def i by simp
  have held: "held ?X = insert a (held (Pending t))" using D(3) by simp
  have "length (concat ?X) = Suc (length (concat (Pending t)))"
    using D(3) by (intro length_concat_append) simp
  then have len: "n \<le> int (length (concat ?X))" using n(2) D(10) by simp
  have "index_ok (id_place G t) (mem t) (peerByID t) ?X"
    by (rule index_ok_append [OF D(3) own refl]) (simp_all add: a)
  moreover have "offline_ok (t\<lparr>Pending := ?X\<rparr>)"
    using D(7) not_offline [OF ok p] unfolding offline_ok_def by (simp add: held) (metis ranI)
  ultimately show ?thesis
    using D a n(1) len unfolding t' table_ok_def by (simp add: held peers_ok_def offline_ok_def)
qed

lemma rename_entry_ok:
  assumes ok: "table_ok G t" and p: "peerByID t (ni_ID node) = Some a"
  shows "table_ok G (rename_entry G a node t)"
    and "Buckets (rename_entry G a node t) = Buckets t" "Pending (rename_entry G a node t) = Pending t"
      "peerByID (rename_entry G a node t) = peerByID t" "offline (rename_entry G a node t) = offline t"
      "SelfNameHash (rename_entry G a node t) = SelfNameHash t" "SelfID (rename_entry G a node t) = SelfID t"
      "pendingN (rename_entry G a node t) = pendingN t"
      "mem (rename_entry G a node t) = (mem t)(a := (mem t a)\<lparr>be_Node := node\<rparr>)"
proof -
  note D = table_okD [OF ok]
  let ?f = "\<lambda>e. e\<lparr>be_Node := node\<rparr>"
  have i: "entry_id (mem t) a = ni_ID node" by (rule peer_id [OF ok p])
  show "table_ok G (rename_entry G a node t)"
  proof (cases "nodeNameHash G (be_Node (mem t a)) = nodeNameHash G node")
    case True
    have "table_ok G (upd_entry a ?f t)"
      using ok by (rule upd_entry_ok) (use True i D(7) D(8) in \<open>auto simp: offline_ok_def ran_def\<close>)
    then show ?thesis using True by (simp add: rename_entry_def)
  next
    case False
    let ?X = "map (remove_entry (mem t) (ni_ID node)) (NameBuckets t)"
    let ?m = "(mem t)(a := ?f (mem t a))"
    have r: "rename_entry G a node t = upd_entry a ?f (t\<lparr>NameBuckets := ?X\<rparr>)"
      using False by (simp add: rename_entry_def removeFromIndexLocked_def)
    have held: "held ?X = held (NameBuckets t) - {a}" by (rule remove_index_held [OF D(2) p i])
    have idx: "index_ok (name_place G t) (mem t) (peerByID t) ?X"
      unfolding index_ok_remove_eq [OF D(2)] by (rule index_ok_filter [OF D(2)])
    have ids: "entry_id ?m x = entry_id (mem t) x" for x using i by simp
    have "index_ok (id_place G t) (mem t) (peerByID t) Y \<Longrightarrow>
        index_ok (\<lambda>x. clamp_bucket (bucketIndex G (SelfID t) (entry_id ?m x))) ?m (peerByID t) Y" for Y
      by (erule index_ok_cong) (simp only: ids)
    moreover have "index_ok (\<lambda>x. clamp_bucket (nameBucketIndex G (SelfNameHash t) (be_Node (?m x)))) ?m (peerByID t) ?X"
      using idx by (rule index_ok_cong) (use held ids in auto)
    moreover have "peers_ok (rename_entry G a node t)"
      using D(6) i by (auto simp: r peers_ok_def upd_entry_def)
    moreover have "offline_ok (rename_entry G a node t)"
      using D(7) by (auto simp: r offline_ok_def upd_entry_def)
    ultimately show ?thesis
      using D held unfolding r table_ok_def by (auto simp: upd_entry_def)
  qed
qed (simp_all add: rename_entry_def upd_entry_def Let_def)

lemma unindex_ok:
  assumes ok: "table_ok G t" and p: "peerByID t i = Some a"
  defines "t' \<equiv> t\<lparr>Buckets := map (remove_entry (mem t) i) (Buckets t),
    NameBuckets := map (remove_entry (mem t) i) (NameBuckets t)\<rparr>"
  shows "table_ok G t'" "a \<notin> held (Buckets t')" "held (Buckets t') \<subseteq> held (Buckets t)"
proof -
  note D = table_okD [OF ok] and i = peer_id [OF ok p]
  have held: "held (Buckets t') = held (Buckets t) - {a}" "held (NameBuckets t') = held (NameBuckets t) - {a}"
    using remove_index_held [OF D(1) p i] remove_index_held [OF D(2) p i] by (simp_all add: t'_def)
  then show "a \<notin> held (Buckets t')" "held (Buckets t') \<subseteq> held (Buckets t)" by auto
  have "index_ok (id_place G t) (mem t) (peerByID t) (Buckets t')"
    "index_ok (name_place G t) (mem t) (peerByID t) (NameBuckets t')"
    unfolding t'_def
    by (simp_all add: index_ok_remove_eq [OF D(1)] index_ok_remove_eq [OF D(2)] index_ok_filter D(1,2))
  moreover have "offline_ok t'" using D(7) held unfolding offline_ok_def by (auto simp: t'_def)
  moreover have "peers_ok t'" using D(6) by (simp add: peers_ok_def t'_def)
  ultimately show "table_ok G t'"
    using D held unfolding table_ok_def by (auto simp: t'_def)
qed

lemma set_offline_ok:
  assumes ok: "table_ok G t" and p: "peerByID t i = Some a"
    and a: "a \<notin> held (Buckets t)" "a \<notin> held (Pending t)"
      "be_SuccessCount (mem t a) \<noteq> 0 \<or> be_Pinned (mem t a)"
  shows "table_ok G (t\<lparr>offline := (offline t)(i \<mapsto> a)\<rparr>)"
proof -
  have "offline_ok (t\<lparr>offline := (offline t)(i \<mapsto> a)\<rparr>)"
    using table_okD(7) [OF ok] p a unfolding offline_ok_def by simp
  then show ?thesis using table_okD [OF ok] unfolding table_ok_def by (simp add: peers_ok_def)
qed

lemma go_offline_ok:
  assumes ok: "table_ok G t" and p: "peerByID t i = Some a"
    and a: "a \<notin> held (Buckets t)" "a \<notin> held (Pending t)"
      "be_SuccessCount (mem t a) \<noteq> 0 \<or> be_Pinned (mem t a)"
  shows "table_ok G (go_offline i a now t)"
proof -
  let ?t = "upd_entry a (\<lambda>e. if IsZero (be_OfflineSince e) then e\<lparr>be_OfflineSince := now\<rparr> else e) t"
  have "table_ok G ?t" using ok by (rule upd_entry_ok) (use a in auto)
  then show ?thesis
    unfolding go_offline_def Let_def by (rule set_offline_ok) (use p a in \<open>simp_all add: upd_entry_def\<close>)
qed

lemma forget_ok:
  assumes ok: "table_ok G t" and none: "\<not> inIndexLocked (mem t) (Buckets t) i"
      "\<not> inIndexLocked (mem t) (Pending t) i" "offline t i = None"
  shows "table_ok G (t\<lparr>peerByID := (peerByID t)(i := None)\<rparr>)"
proof -
  note D = table_okD [OF ok]
  have "index_ok place (mem t) (peerByID t) X \<Longrightarrow> \<not> inIndexLocked (mem t) X i \<Longrightarrow>
      index_ok place (mem t) ((peerByID t)(i := None)) X" for place X
    by (erule index_ok_cong) (auto simp: inIndex_iff)
  moreover have "\<not> inIndexLocked (mem t) (NameBuckets t) i" using none(1) D(4) by (auto simp: inIndex_iff)
  ultimately show ?thesis
    using D none unfolding table_ok_def by (auto simp: peers_ok_def offline_ok_def)
qed

lemma removePeerIfUnindexed_ok [inv_intros]:
  "table_ok G t \<Longrightarrow> table_ok G (removePeerIfUnindexedLocked i t)"
  unfolding removePeerIfUnindexedLocked_def by (auto intro!: forget_ok simp del: fun_upd_apply)

section \<open>Preservation by the operations\<close>

lemma mark_success_simps [simp]:
  "be_Node (mark_success G i now e) = be_Node e" "be_SuccessCount (mark_success G i now e) \<noteq> 0"
  by (simp_all add: mark_success_def sat_inc_nonzero)

text \<open>
  The end of \<^verbatim>\<open>AddNode\<close>: whatever the entry was before, a success makes it an active peer.
\<close>

lemma activate_ok:
  fixes now :: time
  assumes ok: "table_ok G t" and p: "peerByID t i = Some a"
  defines "t1 \<equiv> fst (removePendingLocked i (upd_entry a (mark_success G i now) (drop_offline i t)))"
  defines "t2 \<equiv> insert_active G a t1"
  shows "table_ok G t2" "a \<in> held (Buckets t2)" "peerByID t2 = peerByID t" "SelfNameHash t2 = SelfNameHash t"
    "mem t2 = (mem t)(a := mark_success G i now (mem t a))" "offline t2 = (offline t)(i := None)"
    "a \<notin> held (Pending t2)" "held (Buckets t2) = insert a (held (Buckets t))"
proof -
  have ok0: "table_ok G (drop_offline i t)" by (rule drop_offline_ok [OF ok])
  let ?t = "upd_entry a (mark_success G i now) (drop_offline i t)"
  have ok1: "table_ok G ?t" using ok0 by (rule upd_entry_ok) simp_all
  obtain found where r: "removePendingLocked i ?t = (t1, found)"
    unfolding t1_def by (metis prod.collapse)
  note R = removePending_ok [OF ok1 r]
  have p1: "peerByID t1 i = Some a" "offline t1 i = None"
    using R(5,6) p by (simp_all add: upd_entry_def drop_offline_def)
  have m: "mem t1 = (mem t)(a := mark_success G i now (mem t a))"
    using R(4) by (simp add: upd_entry_def drop_offline_def)
  have pend: "a \<notin> held (Pending t1)"
    using R(11) peer_id [OF ok1, of i a] p by (simp add: upd_entry_def drop_offline_def)
  have s: "be_SuccessCount (mem t1 a) \<noteq> 0" by (simp add: m)
  note I = insert_active_ok [OF R(1) p1 pend s]
  show "table_ok G t2" "a \<in> held (Buckets t2)" using I by (simp_all add: t2_def)
  show "held (Buckets t2) = insert a (held (Buckets t))"
    using I(2) R(2) by (simp add: t2_def upd_entry_def drop_offline_def)
  show "peerByID t2 = peerByID t" "SelfNameHash t2 = SelfNameHash t" "offline t2 = (offline t)(i := None)"
    "mem t2 = (mem t)(a := mark_success G i now (mem t a))" "a \<notin> held (Pending t2)"
    using R(5,6,8) m pend by (simp_all add: t2_def insert_active_def upd_entry_def drop_offline_def)
qed

lemma unusableD: "\<not> unusable node t \<Longrightarrow> ni_ID node \<noteq> [] \<and> ni_ID node \<noteq> SelfID t \<and> ni_Addr node \<noteq> []"
  by (simp add: unusable_def)

text \<open>\<^verbatim>\<open>AddNode\<close> up to its last step, for a peer that is usable.\<close>

lemma AddNode_cases:
  assumes ok: "table_ok G t" and u: "\<not> unusable node t"
  obtains a t' where "table_ok G t'" "peerByID t' (ni_ID node) = Some a" "be_Node (mem t' a) = node"
    "Buckets t' = Buckets t" "\<And>j. j \<noteq> ni_ID node \<Longrightarrow> peerByID t' j = peerByID t j" "\<And>b. b \<noteq> a \<Longrightarrow> mem t' b = mem t b"
    "AddNode G node now t = (let t2 = insert_active G a (fst (removePendingLocked (ni_ID node)
        (upd_entry a (mark_success G (ni_ID node) now) (drop_offline (ni_ID node) t'))))
       in if SelfNameHash t2 \<noteq> [] then insert_name G a t2 else t2)"
proof (cases "peerByID t (ni_ID node)")
  case None
  let ?e = "(zero_entry node)\<lparr>be_ProbationUntil := now + peerProbationPeriod\<rparr>"
  have e: "be_Node ?e = node" by (simp add: zero_entry_def)
  show thesis
  proof (rule that)
    show "table_ok G (new_entry ?e t)" "peerByID (new_entry ?e t) (ni_ID node) = Some (next_addr t)"
      using new_entry_ok(1,2) [OF ok None, of ?e] unusableD [OF u] e by auto
    show "be_Node (mem (new_entry ?e t) (next_addr t)) = node" "Buckets (new_entry ?e t) = Buckets t"
      "j \<noteq> ni_ID node \<Longrightarrow> peerByID (new_entry ?e t) j = peerByID t j"
      "b \<noteq> next_addr t \<Longrightarrow> mem (new_entry ?e t) b = mem t b" for j b
      by (simp_all add: new_entry_def e)
  qed (use None u in \<open>simp add: AddNode_def Let_def\<close>)
next
  case (Some a)
  let ?f = "\<lambda>e. if IsZero (be_ProbationUntil e) \<and> be_SuccessCount e = 0 \<and> \<not> be_Pinned e
    then e\<lparr>be_ProbationUntil := now + peerProbationPeriod\<rparr> else e"
  note R = rename_entry_ok [OF ok Some]
  show thesis
  proof (rule that)
    show "table_ok G (upd_entry a ?f (rename_entry G a node t))"
      using R(1) by (rule upd_entry_ok)
        (use table_okD(7,8) [OF R(1)] in \<open>auto simp: offline_ok_def ran_def\<close>)
    show "peerByID (upd_entry a ?f (rename_entry G a node t)) (ni_ID node) = Some a"
      "be_Node (mem (upd_entry a ?f (rename_entry G a node t)) a) = node"
      "Buckets (upd_entry a ?f (rename_entry G a node t)) = Buckets t"
      "j \<noteq> ni_ID node \<Longrightarrow> peerByID (upd_entry a ?f (rename_entry G a node t)) j = peerByID t j"
      "b \<noteq> a \<Longrightarrow> mem (upd_entry a ?f (rename_entry G a node t)) b = mem t b" for j b
      using Some R(2,4,9) by (simp_all add: upd_entry_def)
  qed (use Some u in \<open>simp add: AddNode_def Let_def\<close>)
qed

lemma AddNode_ok [inv_intros]:
  assumes ok: "table_ok G t"
  shows "table_ok G (AddNode G node now t)"
proof (cases "unusable node t")
  case False
  then obtain a t' where t': "table_ok G t'" "peerByID t' (ni_ID node) = Some a"
    and eq: "AddNode G node now t = (let t2 = insert_active G a (fst (removePendingLocked (ni_ID node)
        (upd_entry a (mark_success G (ni_ID node) now) (drop_offline (ni_ID node) t'))))
       in if SelfNameHash t2 \<noteq> [] then insert_name G a t2 else t2)"
    by (rule AddNode_cases [OF ok])
  note A = activate_ok [OF t', of now]
  show ?thesis unfolding eq Let_def using A(1) insert_name_ok [OF A(1) _ A(2), of "ni_ID node"] A(3) t'(2) by simp
qed (use ok in \<open>simp add: AddNode_def\<close>)

lemma upd_entry_keeps [inv_intros]:
  assumes ok: "table_ok G t"
    and "be_Node (f (mem t a)) = be_Node (mem t a)" "be_SuccessCount (f (mem t a)) = be_SuccessCount (mem t a)"
      "be_Pinned (f (mem t a)) = be_Pinned (mem t a)"
  shows "table_ok G (upd_entry a f t)"
  using ok by (rule upd_entry_ok) (use assms(2-) table_okD(7,8) [OF ok] in \<open>auto simp: offline_ok_def ran_def\<close>)

lemma UpdateKnownNode_ok [inv_intros]:
  assumes ok: "table_ok G t"
  shows "table_ok G (fst (UpdateKnownNode G node now t))"
proof (cases "peerByID t (ni_ID node)")
  case (Some a)
  note R = rename_entry_ok [OF ok Some]
  have "table_ok G (insert_name G a (rename_entry G a node t))"
    if "inIndexLocked (mem (rename_entry G a node t)) (Buckets (rename_entry G a node t)) (ni_ID node)"
    using that Some R(1,4) in_buckets_iff [OF R(1), of "ni_ID node" a]
    by (intro insert_name_ok [OF R(1), of "ni_ID node"]) auto
  then show ?thesis using ok Some R(1) by (simp add: UpdateKnownNode_def Let_def)
qed (use ok in \<open>simp add: UpdateKnownNode_def\<close>)

lemma AddLookupCandidate_ok [inv_intros]:
  assumes ok: "table_ok G t" and r: "AddLookupCandidate G node t = Some (t', b)"
  shows "table_ok G t'"
proof (cases "unusable node t \<or> peerByID t (ni_ID node) \<noteq> None \<or> pendingN t \<ge> 512")
  case False
  let ?e = "(zero_entry node)\<lparr>be_Transient := True\<rparr>" and ?i = "ni_ID node"
  have none: "peerByID t ?i = None" using False by simp
  have e: "be_Node ?e = node" by (simp add: zero_entry_def)
  have i: "?i \<noteq> []" "?i \<noteq> SelfID t" "ni_ID (be_Node ?e) = ?i" using unusableD [of node t] False e by auto
  note N = new_entry_ok [OF ok none i]
  obtain t'' where ap: "append_pending (next_addr t) (bucketIndex G (SelfID (new_entry ?e t)) ?i) (new_entry ?e t) = Some t''"
    and t': "t' = t''\<lparr>pendingN := pendingN t'' + 1\<rparr>"
    using r False by (auto simp: AddLookupCandidate_def Let_def new_entry_def)
  have n: "pendingN t'' = pendingN (new_entry ?e t)" "pendingN (new_entry ?e t) = pendingN t"
    using ap by (auto simp: append_pending_def new_entry_def split: if_splits)
  show ?thesis unfolding t'
    by (rule append_pending_ok [OF N(1,2) _ _ _ ap])
      (use N n False in \<open>simp_all add: new_entry_def\<close>)
qed (use ok r in \<open>auto simp: AddLookupCandidate_def Let_def split: if_splits\<close>)

text \<open>What \<^verbatim>\<open>addCandidate\<close> leaves alone.\<close>

lemma append_pending_frame:
  "append_pending a idx t = Some t' \<Longrightarrow>
     Buckets t' = Buckets t \<and> NameBuckets t' = NameBuckets t \<and> offline t' = offline t \<and> pendingN t' = pendingN t \<and>
     peerByID t' = peerByID t \<and> mem t' = mem t \<and> SelfID t' = SelfID t"
  by (auto simp: append_pending_def split: if_splits)

lemma removePending_frame:
  "removePendingLocked i t = (t', b) \<Longrightarrow>
     Buckets t' = Buckets t \<and> NameBuckets t' = NameBuckets t \<and> offline t' = offline t \<and>
     peerByID t' = peerByID t \<and> mem t' = mem t \<and> SelfID t' = SelfID t"
  by (auto simp: removePendingLocked_def split: prod.splits if_splits)

text \<open>The common end of the three ways a candidate is listed.\<close>

lemma list_candidate_ok:
  assumes ok: "table_ok G t" and p: "peerByID t (ni_ID node) = Some a" "a \<notin> held (Buckets t)" "a \<notin> held (Pending t)"
    and f: "be_Node (f (mem t a)) = node" "be_SuccessCount (f (mem t a)) = be_SuccessCount (mem t a)"
      "be_Pinned (f (mem t a)) = be_Pinned (mem t a)"
    and ap: "append_pending a (bucketIndex G (SelfID t) (ni_ID node))
      (drop_offline (ni_ID node) (upd_entry a f t)) = Some t'"
    and n: "n \<le> 512" "n \<le> pendingN t + 1"
  shows "table_ok G (t'\<lparr>pendingN := n\<rparr>)"
proof -
  have "a \<notin> held (NameBuckets t)" using table_okD(4) [OF ok] p(2) by blast
  then have "table_ok G (upd_entry a f t)"
    using ok by (intro upd_entry_ok)
      (use f p peer_id [OF ok p(1)] table_okD(7) [OF ok] in \<open>auto simp: offline_ok_def ran_def\<close>)
  then have "table_ok G (drop_offline (ni_ID node) (upd_entry a f t))" by (rule drop_offline_ok)
  then show "table_ok G (t'\<lparr>pendingN := n\<rparr>)"
    by (rule append_pending_ok [where i = "ni_ID node" and a = a])
      (use p n ap in \<open>simp_all add: drop_offline_def upd_entry_def\<close>)
qed

lemma list_candidate_frame:
  assumes "append_pending a idx (drop_offline i (upd_entry a f t)) = Some t'"
  shows "Buckets t' = Buckets t" "offline t' = (offline t)(i := None)" "pendingN t' = pendingN t"
  using append_pending_frame [OF assms] by (simp_all add: drop_offline_def upd_entry_def)

text \<open>A candidate that is listed already, one that is known but not listed, and a new one.\<close>

abbreviation blocked :: "NodeInfo \<Rightarrow> RoutingTable \<Rightarrow> bool" where
  "blocked node t \<equiv> unusable node t \<or> inIndexLocked (mem t) (Buckets t) (ni_ID node) \<or>
     inIndexLocked (mem t) (NameBuckets t) (ni_ID node)"

definition same_active :: "RoutingTable \<Rightarrow> RoutingTable \<Rightarrow> bool" where
  "same_active t t' \<longleftrightarrow> Buckets t' = Buckets t \<and> offline t' \<subseteq>\<^sub>m offline t"

lemma addCandidate_listed:
  assumes ok: "table_ok G t" and b: "\<not> blocked node t" and p: "peerByID t (ni_ID node) = Some a"
    and listed: "inIndexLocked (mem t) (Pending t) (ni_ID node)"
    and r: "addCandidate G node t = Some t'"
  shows "table_ok G t'" "same_active t t'" "pendingN t' = pendingN t - 1"
    and "Pending t' = (let X = map (remove_entry (mem t) (ni_ID node)) (Pending t); i = id_place G t a
      in X[i := X ! i @ [a]])"
proof -
  let ?i = "ni_ID node"
  obtain t1 found where rp: "removePendingLocked ?i t = (t1, found)" by fastforce
  note R = removePending_ok [OF ok rp]
  have found using R(10) listed by simp
  then have ap: "append_pending a (bucketIndex G (SelfID t1) ?i)
      (drop_offline ?i (upd_entry a (\<lambda>e. e\<lparr>be_Node := node\<rparr>) t1)) = Some t'"
    using r rp b p R(7) by (simp add: addCandidate_def Let_def)
  note F = list_candidate_frame [OF ap]
  have "table_ok G (t'\<lparr>pendingN := pendingN t'\<rparr>)"
    by (rule list_candidate_ok [OF R(1) _ _ _ _ _ _ ap])
      (use b p R(2,5,11) F(3) table_okD(9) [OF R(1)] peer_id [OF ok p] in_buckets_iff [OF ok p] in simp_all)
  then show "table_ok G t'" by simp
  show "same_active t t'" using F R(2,6) by (simp add: same_active_def map_le_def)
  show "pendingN t' = pendingN t - 1" using F(3) R(12) \<open>found\<close> by simp
  have b': "0 \<le> bucketIndex G (SelfID t1) ?i" "bucketIndex G (SelfID t1) ?i \<le> 255"
    using ap by (auto simp: append_pending_def split: if_splits)
  then have i: "nat (bucketIndex G (SelfID t1) ?i) = id_place G t a"
    using peer_id [OF ok p] R(7) by (simp add: clamp_bucket_def)
  have P1: "Pending t1 = map (remove_entry (mem t) ?i) (Pending t)"
    using rp listed remove_first_eq [OF index_ok_distinct(2) [OF table_okD(3) [OF ok]], of ?i]
    by (auto simp: removePendingLocked_def removeFromIndexLocked_def)
  show "Pending t' = (let X = map (remove_entry (mem t) ?i) (Pending t); i = id_place G t a
      in X[i := X ! i @ [a]])"
    using ap b' i P1 by (auto simp: append_pending_def drop_offline_def upd_entry_def Let_def)
qed

lemma addCandidate_known:
  assumes ok: "table_ok G t" and b: "\<not> blocked node t" and p: "peerByID t (ni_ID node) = Some a"
    and listed: "\<not> inIndexLocked (mem t) (Pending t) (ni_ID node)"
    and r: "addCandidate G node t = Some t'"
  shows "table_ok G t' \<and> same_active t t'"
proof (cases "pendingN t \<ge> 512")
  case full: True
  obtain t1 where "removePendingLocked (ni_ID node) t = (t1, False)"
    using removePending_ok(10) [OF ok] listed by (metis surj_pair)
  then show ?thesis using ok r b p full by (auto simp: addCandidate_def Let_def same_active_def)
next
  case room: False
  let ?i = "ni_ID node"
  obtain t1 where rp: "removePendingLocked ?i t = (t1, False)"
    using removePending_ok(10) [OF ok] listed by (metis surj_pair)
  obtain t2 where ap: "append_pending a (bucketIndex G (SelfID t) ?i)
      (drop_offline ?i (upd_entry a (\<lambda>e. e\<lparr>be_Node := node, be_Transient := False\<rparr>) t)) = Some t2"
    and t': "t' = t2\<lparr>pendingN := pendingN t2 + 1\<rparr>"
    using r rp b p room by (auto simp: addCandidate_def Let_def)
  note F = list_candidate_frame [OF ap]
  have "table_ok G t'" unfolding t'
    by (rule list_candidate_ok [OF ok p _ _ _ _ _ ap])
      (use b listed in_buckets_iff [OF ok p] in_pending_iff [OF ok p] F(3) room in simp_all)
  then show ?thesis using F by (simp add: t' same_active_def map_le_def)
qed

lemma addCandidate_new:
  assumes ok: "table_ok G t" and b: "\<not> blocked node t" and p: "peerByID t (ni_ID node) = None"
    and r: "addCandidate G node t = Some t'"
  shows "table_ok G t' \<and> same_active t t'"
proof (cases "pendingN t \<ge> 512")
  case full: True
  then show ?thesis using ok r b p by (auto simp: addCandidate_def Let_def same_active_def)
next
  case room: False
  let ?i = "ni_ID node" and ?t1 = "new_entry (zero_entry node) t" and ?n = "next_addr t"
  have e: "be_Node (zero_entry node) = node" by (simp add: zero_entry_def)
  have i: "?i \<noteq> []" "?i \<noteq> SelfID t" using unusableD [of node t] b by auto
  note N = new_entry_ok [OF ok p i arg_cong [OF e, of ni_ID]]
  have id_upd: "upd_entry ?n (\<lambda>e. e) ?t1 = ?t1" by (simp add: upd_entry_def)
  obtain t2 where ap: "append_pending ?n (bucketIndex G (SelfID ?t1) ?i)
      (drop_offline ?i (upd_entry ?n (\<lambda>e. e) ?t1)) = Some t2"
    and t': "t' = t2\<lparr>pendingN := pendingN t2 + 1\<rparr>"
    using r b p room unfolding id_upd by (auto simp: addCandidate_def Let_def new_entry_def)
  note F = list_candidate_frame [OF ap]
  have "table_ok G t'" unfolding t'
    by (rule list_candidate_ok [OF N(1,2) _ _ _ _ _ ap])
      (use F(3) room N(3,4) in \<open>simp_all add: new_entry_def e\<close>)
  then show ?thesis using F by (simp add: t' same_active_def map_le_def new_entry_def)
qed

lemma addCandidate_ok:
  assumes ok: "table_ok G t" and r: "addCandidate G node t = Some t'"
  shows "table_ok G t' \<and> same_active t t'"
proof (cases "blocked node t")
  case True
  then show ?thesis using ok r by (auto simp: addCandidate_def Let_def same_active_def split: if_splits)
next
  case False
  then show ?thesis
    using addCandidate_new [OF ok False _ r] addCandidate_known [OF ok False _ _ r]
      addCandidate_listed(1,2) [OF ok False _ _ r]
    by (cases "peerByID t (ni_ID node)") blast+
qed

end
