(* ===== verification/TableRuns.thy ===== *)
theory TableRuns
  imports TableInvariant
begin

text \<open>
  Runs of the routing table: the remaining operations preserve the invariant, so every sequence of
  calls does, and the behaviour of the table that rests on it: activation, liveness, lookup of the
  closest peers, enumeration, snapshots and refresh targets.
\<close>

section \<open>The remaining operations\<close>

lemma PromoteCandidate_ok [inv_intros]:
  assumes ok: "table_ok G t"
  shows "table_ok G (PromoteCandidate G i now t)"
proof -
  obtain t1 found where r: "removePendingLocked i t = (t1, found)" by fastforce
  note R = removePending_ok [OF ok r]
  show ?thesis
    using ok R(1) r by (auto simp: PromoteCandidate_def Let_def intro: inv_intros split: option.splits)
qed

lemma take_candidate_ok [inv_intros]: "table_ok G t \<Longrightarrow> table_ok G (fst (removePendingLocked i t))"
  by (metis removePending_ok(1) prod.collapse)

lemma DiscardCandidate_ok [inv_intros]:
  assumes ok: "table_ok G t"
  shows "table_ok G (DiscardCandidate i t)"
proof -
  obtain t1 found where r: "removePendingLocked i t = (t1, found)" by fastforce
  show ?thesis using removePending_ok(1) [OF ok r] r by (simp add: DiscardCandidate_def removePeerIfUnindexed_ok)
qed

lemma NoteFailureAt_ok [inv_intros]: "table_ok G t \<Longrightarrow> table_ok G (fst (NoteFailureAt i now t))"
  by (auto simp: NoteFailureAt_def intro: upd_entry_keeps split: option.splits)

lemma BeginLivenessProbe_ok [inv_intros]: "table_ok G t \<Longrightarrow> table_ok G (fst (BeginLivenessProbe ids now t))"
  by (auto simp: BeginLivenessProbe_def intro: upd_entry_keeps split: option.splits)

lemma SetFriend_ok [inv_intros]: "table_ok G t \<Longrightarrow> table_ok G (fst (SetFriend i friend t))"
  by (auto simp: SetFriend_def intro: upd_entry_keeps split: option.splits)

lemma SetPinned_ok [inv_intros]:
  assumes ok: "table_ok G t"
    and guard: "pinned \<or> (\<forall>a. offline t i = Some a \<longrightarrow> be_SuccessCount (mem t a) \<noteq> 0)"
  shows "table_ok G (fst (SetPinned i pinned t))"
proof (cases "peerByID t i")
  case (Some a)
  have off: "offline t j = Some a \<Longrightarrow> j = i" for j
    using offline_peer [OF ok, of j a] peer_id [OF ok] Some by metis
  have "table_ok G (upd_entry a (\<lambda>e. e\<lparr>be_Pinned := pinned\<rparr>) t)"
    using ok by (rule upd_entry_ok) (use guard off table_okD(8) [OF ok] in \<open>auto simp: ran_def\<close>)
  then show ?thesis using Some by (cases pinned) (simp_all add: SetPinned_def Let_def removePeerIfUnindexed_ok)
qed (use ok in \<open>simp add: SetPinned_def\<close>)

lemma expire_peer_ok:
  assumes ok: "table_ok G t" and p: "peerByID t i = Some a"
  shows "table_ok G (fst (expire_peer i a now t))"
proof -
  let ?t = "t\<lparr>Buckets := map (remove_entry (mem t) i) (Buckets t), NameBuckets := map (remove_entry (mem t) i) (NameBuckets t)\<rparr>"
  note D = table_okD [OF ok] and U = unindex_ok [OF ok p]
  have p': "peerByID ?t i = Some a" using p by simp
  show ?thesis
  proof (cases "inIndexLocked (mem t) (Buckets t) i \<or> inIndexLocked (mem t) (NameBuckets t) i")
    case True
    then have a: "a \<in> held (Buckets t)" using in_buckets_iff [OF ok p] in_names_iff [OF ok p] D(4) by auto
    have "table_ok G (go_offline i a now ?t)"
      by (rule go_offline_ok [OF U(1) p' U(2)]) (use a D(5) D(8) [OF a] in auto)
    then show ?thesis using True
      by (simp add: expire_peer_def removeFromIndexLocked_def Let_def removePeerIfUnindexed_ok)
  next
    case False
    obtain t1 found where r: "removePendingLocked i ?t = (t1, found)" by fastforce
    note R = removePending_ok [OF U(1) r]
    have p1: "peerByID t1 i = Some a" using R(5) p by simp
    have a1: "a \<notin> held (Buckets t1)" "a \<notin> held (Pending t1)"
      using R(2,11) U(2) peer_id [OF ok p] by simp_all
    have "table_ok G (if be_SuccessCount (mem t1 a) > 0 \<or> be_Pinned (mem t1 a) then go_offline i a now t1
        else t1\<lparr>peerByID := (peerByID t1)(i := None)\<rparr>)"
    proof (cases "be_SuccessCount (mem t1 a) > 0 \<or> be_Pinned (mem t1 a)")
      case True
      then have "be_SuccessCount (mem t1 a) \<noteq> 0 \<or> be_Pinned (mem t1 a)" by auto
      then show ?thesis using True go_offline_ok [OF R(1) p1 a1] by simp
    next
      case weak: False
      then have "offline t1 i = None"
        using table_okD(7) [OF R(1)] p1 by (cases "offline t1 i") (auto simp: offline_ok_def word_gt_0)
      then have "table_ok G (t1\<lparr>peerByID := (peerByID t1)(i := None)\<rparr>)"
        by (intro forget_ok [OF R(1)])
          (use in_buckets_iff [OF R(1) p1] in_pending_iff [OF R(1) p1] a1 in simp_all)
      then show ?thesis using weak by simp
    qed
    then show ?thesis using False r
      by (simp add: expire_peer_def removeFromIndexLocked_def Let_def)
  qed
qed

lemma RecordLivenessResult_ok [inv_intros]:
  assumes ok: "table_ok G t"
  shows "table_ok G (fst (RecordLivenessResult i now alive t))"
proof (cases "peerByID t i")
  case (Some a)
  have alive: "table_ok G (upd_entry a (probe_alive now) t)"
    using ok by (rule upd_entry_keeps) (simp_all add: probe_alive_def)
  have missed: "table_ok G (upd_entry a (probe_missed now) t)"
    using ok by (rule upd_entry_keeps) (simp_all add: probe_missed_def)
  have seen: "table_ok G (upd_entry a (\<lambda>e. e\<lparr>be_LastProbe := now, be_NextProbeAt := now + livenessProbeInterval\<rparr>) t)"
    using ok by (rule upd_entry_keeps) simp_all
  have "peerByID (upd_entry a (probe_missed now) t) i = Some a" using Some by (simp add: upd_entry_def)
  from expire_peer_ok [OF missed this, of now] alive missed seen Some show ?thesis
    unfolding RecordLivenessResult_def by (simp add: Let_def)
qed (use ok in \<open>simp add: RecordLivenessResult_def\<close>)

lemma move_buckets_ok:
  "table_ok G t \<Longrightarrow> table_ok G (t\<lparr>Buckets := moveToFrontLocked (mem t) (Buckets t) i idx\<rparr>)"
  using moveToFrontLocked_ok [OF table_okD(1), of G t i idx]
  unfolding table_ok_def by (simp add: peers_ok_def offline_ok_def)

lemma move_names_ok:
  "table_ok G t \<Longrightarrow> table_ok G (t\<lparr>NameBuckets := moveToFrontLocked (mem t) (NameBuckets t) i idx\<rparr>)"
  using moveToFrontLocked_ok [OF table_okD(2), of G t i idx]
  unfolding table_ok_def by (simp add: peers_ok_def offline_ok_def)

lemma fill_name_hash_simps [simp]:
  "ni_ID (be_Node (fill_name_hash G e)) = ni_ID (be_Node e)"
  "nodeNameHash G (be_Node (fill_name_hash G e)) = nodeNameHash G (be_Node e)"
  "be_SuccessCount (fill_name_hash G e) = be_SuccessCount e" "be_Pinned (fill_name_hash G e) = be_Pinned e"
  by (simp_all add: fill_name_hash_def nodeNameHash_def)

lemma RecordUse_ok [inv_intros]:
  assumes ok: "table_ok G t"
  shows "table_ok G (RecordUse G i now rtt t)"
proof (cases "peerByID t i")
  case (Some a)
  let ?t1 = "upd_entry a (use_entry now rtt) t"
  let ?t2 = "?t1\<lparr>Buckets := moveToFrontLocked (mem ?t1) (Buckets ?t1) i (bucketIndex G (SelfID ?t1) i)\<rparr>"
  let ?t3 = "upd_entry a (fill_name_hash G) ?t2"
  have "table_ok G ?t1" using ok by (rule upd_entry_keeps) (simp_all add: use_entry_def)
  then have t2: "table_ok G ?t2" by (rule move_buckets_ok)
  then have t3: "table_ok G ?t3"
    by (rule upd_entry_ok) (use table_okD(7,8) [OF t2] in \<open>auto simp: offline_ok_def ran_def\<close>)
  show ?thesis
    using t2 move_names_ok [OF t3] Some by (simp add: RecordUse_def Let_def)
qed (use ok in \<open>simp add: RecordUse_def\<close>)

lemma PruneOffline_ok [inv_intros]:
  assumes ok: "table_ok G t"
  shows "table_ok G (PruneOffline now t)"
proof -
  note D = table_okD [OF ok]
  let ?stale = "\<lambda>i. case offline t i of Some a \<Rightarrow> prunable now (mem t a) | None \<Rightarrow> False"
  let ?p = "\<lambda>i. if ?stale i then None else peerByID t i"
  have live: "\<not> ?stale (entry_id (mem t) a)" if "a \<in> held (Buckets t) \<union> held (Pending t)" for a
  proof -
    have own: "peerByID t (entry_id (mem t) a) = Some a"
      using that index_ok_owner [OF D(1)] index_ok_owner [OF D(3)] by blast
    then have "offline t (entry_id (mem t) a) = None"
      using that D(7) by (cases "offline t (entry_id (mem t) a)") (auto simp: offline_ok_def)
    then show ?thesis by simp
  qed
  have keep: "index_ok place (mem t) (peerByID t) X \<Longrightarrow> held X \<subseteq> held (Buckets t) \<union> held (Pending t) \<Longrightarrow>
      index_ok place (mem t) ?p X" for place X
    by (erule index_ok_cong) (use live in auto)
  have "offline_ok (PruneOffline now t)"
    using D(7) by (auto simp: PruneOffline_def offline_ok_def Let_def)
  moreover have "peers_ok (PruneOffline now t)" using D(6) by (auto simp: PruneOffline_def peers_ok_def Let_def)
  ultimately show ?thesis
    using D keep [OF D(1)] keep [OF D(2)] keep [OF D(3)] unfolding table_ok_def
    by (auto simp: PruneOffline_def Let_def)
qed

text \<open>
  Restoring the persisted peers happens once, before any peer is active. A row that says its peer is
  offline was written for a peer that had answered or was pinned.
\<close>

definition restorable :: "PeerObservation \<Rightarrow> bool" where
  "restorable p \<longleftrightarrow> IsZero (po_OfflineSince p) \<or> po_SuccessCount p \<noteq> 0 \<or> po_Pinned p"

lemma restore_entry_simps [simp]:
  "be_Node (restore_entry p e) = be_Node e" "be_SuccessCount (restore_entry p e) = po_SuccessCount p"
  "be_Pinned (restore_entry p e) = po_Pinned p"
  by (simp_all add: restore_entry_def)

lemma restore_peer_ok:
  assumes ok: "table_ok G t" and idle: "held (Buckets t) = {}" and off: "offline t (po_ID p) = None"
    and p: "restorable p" and r: "restore_peer G now p t = Some t'"
  shows "table_ok G t' \<and> held (Buckets t') = {} \<and> (\<forall>j. j \<noteq> po_ID p \<longrightarrow> offline t j = None \<longrightarrow> offline t' j = None)"
proof (cases "po_ID p = [] \<or> ni_Addr (po_Node p) = [] \<or> po_expired p now")
  case False
  obtain t1 where c: "addCandidate G (po_Node p) t = Some t1"
    using r False by (auto simp: restore_peer_def split: option.splits)
  have ok1: "table_ok G t1" and b1: "held (Buckets t1) = {}" and o1: "offline t1 \<subseteq>\<^sub>m offline t"
    using addCandidate_ok [OF ok c] idle by (auto simp: same_active_def)
  have o1': "offline t j = None \<Longrightarrow> offline t1 j = None" for j
    using o1 by (metis domIff map_le_def)
  show ?thesis
  proof (cases "peerByID t1 (po_ID p)")
    case None
    then show ?thesis using r c False ok1 b1 o1' by (auto simp: restore_peer_def)
  next
    case (Some a)
    let ?t2 = "upd_entry a (restore_entry p) t1"
    have noff: "a \<notin> ran (offline t1)" by (rule not_offline [OF ok1 Some o1' [OF off]])
    have ok2: "table_ok G ?t2" using ok1 by (rule upd_entry_ok) (use b1 noff in simp_all)
    obtain t3 found where rp: "removePendingLocked (po_ID p) ?t2 = (t3, found)" by fastforce
    note R = removePending_ok [OF ok2 rp]
    have p3: "peerByID t3 (po_ID p) = Some a" using R(5) Some by (simp add: upd_entry_def)
    have "a \<notin> held (Pending t3)"
      using R(11) peer_id [OF ok2, of "po_ID p" a] Some by (simp add: upd_entry_def)
    then have off3: "table_ok G (t3\<lparr>offline := (offline t3)(po_ID p \<mapsto> a)\<rparr>)" if "\<not> IsZero (po_OfflineSince p)"
      using that p R(2,4) b1
      by (intro set_offline_ok [OF R(1) p3]) (auto simp: restorable_def upd_entry_def)
    have t': "t' = (if \<not> IsZero (po_OfflineSince p) then t3\<lparr>offline := (offline t3)(po_ID p \<mapsto> a)\<rparr> else ?t2)"
      using r c False Some rp by (auto simp: restore_peer_def Let_def)
    show ?thesis
      using off3 ok2 R(2,6) b1 o1' unfolding t' by (auto simp: upd_entry_def)
  qed
qed (use r ok idle in \<open>simp add: restore_peer_def\<close>)

lemma restore_peers_ok:
  assumes "table_ok G t" "held (Buckets t) = {}" "distinct (map po_ID ps)"
    and "\<forall>p \<in> set ps. restorable p \<and> offline t (po_ID p) = None" "restore_peers G now ps t = Some t'"
  shows "table_ok G t'"
  using assms
proof (induction ps arbitrary: t)
  case (Cons p ps)
  obtain t1 where r: "restore_peer G now p t = Some t1" "restore_peers G now ps t1 = Some t'"
    using Cons.prems(5) by (auto split: option.splits)
  from restore_peer_ok [OF Cons.prems(1,2) _ _ r(1)] Cons.prems(3,4)
  have "table_ok G t1" "held (Buckets t1) = {}" "\<forall>q \<in> set ps. restorable q \<and> offline t1 (po_ID q) = None"
    by (auto simp: image_iff)
  then show ?case using Cons.IH [OF _ _ _ _ r(2)] Cons.prems(3) by simp
qed simp

lemma RestoreCandidates_ok [inv_intros]:
  assumes "table_ok G t" "held (Buckets t) = {}" "offline t = Map.empty"
    and "distinct (map po_ID peers)" "\<forall>p \<in> set peers. restorable p"
    and r: "RestoreCandidates G peers now t = Some t'"
  shows "table_ok G t'"
proof -
  let ?s = "sort_slice (\<lambda>a b. po_LastSuccess a > po_LastSuccess b) peers"
  have "distinct (map po_ID ?s)"
    using assms(4) mset_eq_imp_distinct_iff [of "map po_ID ?s" "map po_ID peers"]
    by (simp add: insertion.srt_perm)
  then have "distinct (map po_ID (take n ?s))" for n
    unfolding take_map [symmetric] by (rule distinct_take)
  moreover have "set (take n ?s) \<subseteq> set peers" for n
    using set_take_subset [of n ?s] by (simp add: insertion.srt_set)
  moreover from this assms(3,5) have "\<forall>p \<in> set (take n ?s). restorable p \<and> offline t (po_ID p) = None" for n
    by auto
  ultimately show ?thesis
    using assms(3-5)
    by (intro restore_peers_ok [OF assms(1,2) _ _ r [unfolded RestoreCandidates_def]]) simp_all
qed

lemma refresh_pass_frame:
  "snd (refresh_pass G draw now limit byName (targets, t)) =
     t\<lparr>lastIDRefresh := lastIDRefresh (snd (refresh_pass G draw now limit byName (targets, t))),
       lastNameRefresh := lastNameRefresh (snd (refresh_pass G draw now limit byName (targets, t)))\<rparr>"
  by (simp add: refresh_pass_def split: prod.splits)

lemma table_ok_refresh [simp]:
  "table_ok G (t\<lparr>lastIDRefresh := x, lastNameRefresh := y\<rparr>) = table_ok G t"
  "table_ok G (t\<lparr>refreshNameNext := b\<rparr>) = table_ok G t"
  by (simp_all add: table_ok_def peers_ok_def offline_ok_def)

lemma refresh_pass_ok: "table_ok G t \<Longrightarrow> table_ok G (snd (refresh_pass G draw now limit byName (targets, t)))"
  by (subst refresh_pass_frame) simp

lemma RefreshTargets_ok [inv_intros]:
  "table_ok G t \<Longrightarrow> table_ok G (snd (RefreshTargets G draw now limit t))"
  unfolding RefreshTargets_def
  by (auto split: prod.splits) (metis refresh_pass_ok prod.collapse snd_conv)

lemma insert_names_ok:
  assumes "table_ok G t" "\<forall>a \<in> set as. \<exists>i. peerByID t i = Some a"
  shows "table_ok G (foldl (\<lambda>t a. if inIndexLocked (mem t) (Buckets t) (entry_id (mem t) a)
      then insert_name G a t else t) t as)"
  using assms
proof (induction as arbitrary: t)
  case (Cons a as)
  let ?t = "if inIndexLocked (mem t) (Buckets t) (entry_id (mem t) a) then insert_name G a t else t"
  obtain i where i: "peerByID t i = Some a" using Cons.prems(2) by auto
  have "table_ok G ?t"
    using Cons.prems(1) i in_buckets_iff [OF Cons.prems(1) i] peer_id [OF Cons.prems(1) i]
    by (auto intro: insert_name_ok)
  moreover have "\<forall>a \<in> set as. \<exists>i. peerByID ?t i = Some a" using Cons.prems(2) by (simp add: insert_name_def)
  ultimately show ?case using Cons.IH by simp
qed simp

lemma SetSelfNameHash_ok [inv_intros]:
  assumes ok: "table_ok G t"
  shows "table_ok G (SetSelfNameHash G ids h t)"
proof -
  have "table_ok G (t\<lparr>SelfNameHash := h, NameBuckets := no_buckets\<rparr>)"
    using ok by (simp add: table_ok_def peers_ok_def offline_ok_def)
  then show ?thesis unfolding SetSelfNameHash_def Let_def
    by (rule insert_names_ok) (auto simp: insertion.srt_set List.map_filter_def)
qed

section \<open>Runs\<close>

text \<open>
  Every method runs under the lock of the table and is one step. \<^verbatim>\<open>PromoteCandidate\<close> gives the lock up between
  taking the candidate off the list and \<^verbatim>\<open>AddNode\<close>; \<open>ETakeCandidate\<close> is the part before, so that runs in
  which other calls come in between are covered too. \<^verbatim>\<open>RestoreCandidates\<close> takes the lock anew for every row; it is one
  step because the node calls it once, while it starts and before it serves anything.

  Two calls have a condition here that the methods do not check. \<^verbatim>\<open>RestoreCandidates\<close> is called on a table with
  no active and no offline peer, with at most one row for a peer and rows as the table itself writes them (\<open>restorable\<close>).
  \<^verbatim>\<open>SetPinned\<close> does not release the pin of an offline peer that never answered; what happens otherwise is
  \<open>unpinned_peer_left_offline\<close> in \<open>TableFacts\<close>.
\<close>

datatype table_event =
    EAddNode NodeInfo time
  | EUpdateKnownNode NodeInfo time
  | EAddCandidate NodeInfo
  | EAddLookupCandidate NodeInfo
  | ERestoreCandidates "PeerObservation list" time
  | EPromoteCandidate string time
  | ETakeCandidate string
  | EDiscardCandidate string
  | ENoteFailure string time
  | EBeginLivenessProbe "string list" time
  | ERecordLivenessResult string time bool
  | ERecordUse string time duration
  | ESetPinned string bool
  | ESetFriend string bool
  | EPruneOffline time
  | ERefreshTargets "bool \<Rightarrow> nat \<Rightarrow> nat option" time int
  | ESetSelfNameHash "string list" string

inductive table_step :: "golib \<Rightarrow> RoutingTable \<Rightarrow> table_event \<Rightarrow> RoutingTable \<Rightarrow> bool" for G where
  "table_step G t (EAddNode node now) (AddNode G node now t)"
| "table_step G t (EUpdateKnownNode node now) (fst (UpdateKnownNode G node now t))"
| "addCandidate G node t = Some t' \<Longrightarrow> table_step G t (EAddCandidate node) t'"
| "AddLookupCandidate G node t = Some (t', b) \<Longrightarrow> table_step G t (EAddLookupCandidate node) t'"
| "RestoreCandidates G peers now t = Some t' \<Longrightarrow> held (Buckets t) = {} \<Longrightarrow> offline t = Map.empty \<Longrightarrow>
     distinct (map po_ID peers) \<Longrightarrow> \<forall>p \<in> set peers. restorable p \<Longrightarrow>
     table_step G t (ERestoreCandidates peers now) t'"
| "table_step G t (EPromoteCandidate i now) (PromoteCandidate G i now t)"
| "table_step G t (ETakeCandidate i) (fst (removePendingLocked i t))"
| "table_step G t (EDiscardCandidate i) (DiscardCandidate i t)"
| "table_step G t (ENoteFailure i now) (fst (NoteFailureAt i now t))"
| "table_step G t (EBeginLivenessProbe ids now) (fst (BeginLivenessProbe ids now t))"
| "table_step G t (ERecordLivenessResult i now alive) (fst (RecordLivenessResult i now alive t))"
| "table_step G t (ERecordUse i now rtt) (RecordUse G i now rtt t)"
| "pinned \<or> (\<forall>a. offline t i = Some a \<longrightarrow> be_SuccessCount (mem t a) \<noteq> 0) \<Longrightarrow>
     table_step G t (ESetPinned i pinned) (fst (SetPinned i pinned t))"
| "table_step G t (ESetFriend i friend) (fst (SetFriend i friend t))"
| "table_step G t (EPruneOffline now) (PruneOffline now t)"
| "table_step G t (ERefreshTargets draw now limit) (snd (RefreshTargets G draw now limit t))"
| "table_step G t (ESetSelfNameHash ids h) (SetSelfNameHash G ids h t)"

lemma table_step_ok: "table_step G t e t' \<Longrightarrow> table_ok G t \<Longrightarrow> table_ok G t'"
  by (induction rule: table_step.induct)
    (blast intro: inv_intros addCandidate_ok [THEN conjunct1])+

interpretation routing: event_system "table_step G" "table_ok G" for G
  by unfold_locales (rule table_step_ok)

end
