(* ===== verification/TableFacts.thy ===== *)
theory TableFacts
  imports TableRuns
begin

text \<open>
  What callers rely on: an authenticated exchange activates exactly one peer, only spaced failed
  probes deactivate one, the closest peers are the closest active ones, enumerating the table never
  dereferences a missing entry, and refresh targets lie in populated buckets.
\<close>

section \<open>Active peers\<close>

lemma ActiveNode_iff:
  assumes ok: "table_ok G t"
  shows "ActiveNode i t = Some n \<longleftrightarrow> (\<exists>a \<in> held (Buckets t). peerByID t i = Some a \<and> be_Node (mem t a) = n)"
proof (cases "peerByID t i")
  case (Some a)
  then show ?thesis
    using in_buckets_iff [OF ok Some] in_names_iff [OF ok Some] table_okD(4) [OF ok]
    by (auto simp: ActiveNode_def)
qed (simp add: ActiveNode_def)

lemma ActiveNode_cong:
  assumes "table_ok G t" "table_ok G t'" "peerByID t' i = peerByID t i"
    and "\<And>a. peerByID t i = Some a \<Longrightarrow>
      be_Node (mem t' a) = be_Node (mem t a) \<and> (a \<in> held (Buckets t') \<longleftrightarrow> a \<in> held (Buckets t))"
  shows "ActiveNode i t' = ActiveNode i t"
proof -
  have "ActiveNode i t' = Some n \<longleftrightarrow> ActiveNode i t = Some n" for n
    unfolding ActiveNode_iff [OF assms(1)] ActiveNode_iff [OF assms(2)] using assms(3,4) by auto
  then show ?thesis by (metis option.exhaust)
qed

text \<open>
  C31: the routing table stays consistent. Start from a new table and make any sequence of calls, with two exceptions: persisted
  peers are restored only into a table without active and offline peers, at most one row for a peer, a row with an offline time
  only for a peer that had answered or was pinned; and the pin of an offline peer that never answered is not released. Then every
  active peer, every name-indexed peer and every candidate is the one entry its identifier maps to and
  stands in the bucket of its XOR coordinate; no peer is listed twice, none is active and candidate
  or active and offline at once, no entry is filed under the node's own identifier, and the
  candidate counter stays within its limit.
\<close>

theorem routing_table_consistent:
  assumes "steps (table_step G) (NewRoutingTable G self) es t"
  shows "table_ok G t \<and> distinct (map (entry_id (mem t)) (concat (Buckets t))) \<and>
    distinct (map (entry_id (mem t)) (concat (Pending t))) \<and> peerByID t (SelfID t) = None"
proof -
  have ok: "table_ok G t" using routing.steps_inv [OF assms NewRoutingTable_ok] .
  then have "peerByID t (SelfID t) = None"
    using table_okD(6) [OF ok] by (cases "peerByID t (SelfID t)") (auto simp: peers_ok_def)
  then show ?thesis
    using ok index_ok_distinct(2) [OF table_okD(1) [OF ok]] index_ok_distinct(2) [OF table_okD(3) [OF ok]] by blast
qed

lemma sat_inc_less_3: "sat_inc (x :: byte) < 3 \<longleftrightarrow> x < 2"
proof (cases "x < NOT 0")
  case True
  then have "unat x + 1 < 256" by (simp add: word_less_nat_alt unsigned_minus_1_eq_mask mask_eq_exp_minus_1)
  then have "unat (x + 1) = unat x + 1" by (simp add: unat_word_ariths)
  then show ?thesis using True by (simp add: sat_inc_def word_less_nat_alt)
next
  case False
  then have "x = - 1" by (simp add: not_less word_order.extremum_unique)
  then show ?thesis by (simp add: sat_inc_def)
qed

text \<open>
  The exception for pins is needed: release the pin of an offline peer that never answered and report one more failed probe,
  and the peer is forgotten but stays in the offline map.
\<close>

lemma unpinned_peer_left_offline:
  assumes ok: "table_ok G t" and p: "peerByID t i = Some a" and off: "offline t i = Some a"
    and e: "be_SuccessCount (mem t a) = 0" "2 \<le> be_ProbeMisses (mem t a)"
      "Sub now (be_LastProbeFailure (mem t a)) \<ge> livenessProbeInterval"
  defines "t' \<equiv> fst (RecordLivenessResult i now False (fst (SetPinned i False t)))"
  shows "peerByID t' i = None \<and> offline t' i = Some a"
proof -
  let ?f = "\<lambda>e. e\<lparr>be_Pinned := False\<rparr>"
  define t1 where "t1 = upd_entry a ?f t"
  define t2 where "t2 = upd_entry a (probe_missed now) t1"
  have id: "entry_id (mem t) a = i" by (rule peer_id [OF ok p])
  have t1: "fst (SetPinned i False t) = t1"
    using p off by (simp add: SetPinned_def Let_def t1_def removePeerIfUnindexedLocked_def upd_entry_def)
  have ids: "entry_id (mem t2) x = entry_id (mem t) x" for x
    by (simp add: t2_def t1_def upd_entry_def probe_missed_def)
  have idx: "Buckets t2 = Buckets t" "NameBuckets t2 = NameBuckets t" by (simp_all add: t2_def t1_def upd_entry_def)
  have "a \<notin> held (Buckets t)" "a \<notin> held (NameBuckets t)"
    using table_okD(4,7) [OF ok] off by (auto simp: offline_ok_def)
  then have "\<not> inIndexLocked (mem t) (Buckets t) i" "\<not> inIndexLocked (mem t) (NameBuckets t) i"
    using in_buckets_iff [OF ok p] in_names_iff [OF ok p] by simp_all
  then have n: "\<not> inIndexLocked (mem t2) (Buckets t2) i" "\<not> inIndexLocked (mem t2) (NameBuckets t2) i"
    by (simp_all add: inIndex_iff ids idx)
  have a2: "be_SuccessCount (mem t2 a) = 0" "\<not> be_Pinned (mem t2 a)" "be_ProbeMisses (mem t2 a) = sat_inc (be_ProbeMisses (mem t a))"
    using e(1) by (simp_all add: t2_def t1_def upd_entry_def probe_missed_def)
  have misses: "\<not> be_ProbeMisses (mem t2 a) < 3" using e(2) by (simp add: a2 sat_inc_less_3 not_less)
  have same: "peerByID t2 = peerByID t" "offline t2 = offline t" by (simp_all add: t2_def t1_def upd_entry_def)
  have "peerByID t1 i = Some a" "be_LastProbeFailure (mem t1 a) = be_LastProbeFailure (mem t a)"
    using p by (simp_all add: t1_def upd_entry_def)
  then have "RecordLivenessResult i now False t1 = expire_peer i a now t2"
    using e(3) misses unfolding RecordLivenessResult_def t2_def by (simp add: Let_def)
  then show ?thesis
    using n a2 same off unfolding t'_def t1
    by (simp add: expire_peer_def removeFromIndexLocked_def removePendingLocked_def Let_def split: prod.splits)
qed

definition demo_self :: string where
  "demo_self = ''vx6_'' @ replicate 64 CHR ''0''"

definition demo_node :: NodeInfo where
  "demo_node = zero_node\<lparr>ni_ID := ''vx6_'' @ replicate 63 CHR ''0'' @ ''1'', ni_Addr := ''[::1]:4242''\<rparr>"

abbreviation demo_table :: RoutingTable where
  "demo_table \<equiv> NewRoutingTable demo_lib demo_self"

lemma demo_usable: "\<not> unusable demo_node demo_table"
proof -
  have "replicate 63 CHR ''0'' @ ''1'' \<noteq> replicate 64 CHR ''0''" by code_simp
  then show ?thesis by (simp add: unusable_def demo_node_def demo_self_def NewRoutingTable_def zero_node_def)
qed

theorem routing_table_consistent_witness:
  "table_ok demo_lib (fst (RecordLivenessResult (ni_ID demo_node) 9 False (AddNode demo_lib demo_node 5 demo_table)))"
proof -
  have "steps (table_step demo_lib) demo_table
      [EAddNode demo_node 5, ERecordLivenessResult (ni_ID demo_node) 9 False]
      (fst (RecordLivenessResult (ni_ID demo_node) 9 False (AddNode demo_lib demo_node 5 demo_table)))"
    by (rule steps_cons, rule table_step.intros, rule steps_cons, rule table_step.intros, rule steps_nil)
  then show ?thesis using routing_table_consistent by blast
qed

lemma AddNode_active:
  fixes now :: time
  assumes ok: "table_ok G t" and u: "\<not> unusable node t"
  defines "t' \<equiv> AddNode G node now t"
  shows "ActiveNode (ni_ID node) t' = Some node" "offline t' (ni_ID node) = None"
    "\<not> inIndexLocked (mem t') (Pending t') (ni_ID node)"
    "j \<noteq> ni_ID node \<Longrightarrow> ActiveNode j t' = ActiveNode j t"
proof -
  obtain a t1 where t1: "table_ok G t1" "peerByID t1 (ni_ID node) = Some a" "be_Node (mem t1 a) = node"
    "Buckets t1 = Buckets t" "\<And>j. j \<noteq> ni_ID node \<Longrightarrow> peerByID t1 j = peerByID t j" "\<And>b. b \<noteq> a \<Longrightarrow> mem t1 b = mem t b"
    and eq: "AddNode G node now t = (let t2 = insert_active G a (fst (removePendingLocked (ni_ID node)
        (upd_entry a (mark_success G (ni_ID node) now) (drop_offline (ni_ID node) t1))))
       in if SelfNameHash t2 \<noteq> [] then insert_name G a t2 else t2)"
    using AddNode_cases [OF ok u] by blast
  note A = activate_ok [OF t1(1,2), of now]
  have ok': "table_ok G t'" unfolding t'_def by (rule AddNode_ok [OF ok])
  have m: "mem t' = (mem t1)(a := mark_success G (ni_ID node) now (mem t1 a))"
    and b: "held (Buckets t') = insert a (held (Buckets t))"
    and p: "peerByID t' = peerByID t1" and o: "offline t' = (offline t1)(ni_ID node := None)"
    and pend: "a \<notin> held (Pending t')"
    unfolding t'_def eq Let_def using A t1(4) by (simp_all add: insert_name_def)
  show "ActiveNode (ni_ID node) t' = Some node"
    unfolding ActiveNode_iff [OF ok'] using b p t1(2,3) m by auto
  show "offline t' (ni_ID node) = None" using o by simp
  show "\<not> inIndexLocked (mem t') (Pending t') (ni_ID node)"
    using in_pending_iff [OF ok', of "ni_ID node" a] p t1(2) pend by simp
  assume j: "j \<noteq> ni_ID node"
  show "ActiveNode j t' = ActiveNode j t"
  proof (rule ActiveNode_cong [OF ok ok'])
    show "peerByID t' j = peerByID t j" using p t1(5) [OF j] by simp
    fix c assume "peerByID t j = Some c"
    then have c: "peerByID t1 j = Some c" using t1(5) [OF j] by simp
    then have "c \<noteq> a" using t1(2) peer_id [OF t1(1)] j by metis
    then show "be_Node (mem t' c) = be_Node (mem t c) \<and> (c \<in> held (Buckets t') \<longleftrightarrow> c \<in> held (Buckets t))"
      using m b t1(6) by simp
  qed
qed

text \<open>
  C32: an authenticated exchange activates its peer and nothing else. After \<^verbatim>\<open>AddNode\<close> of a usable
  description, looking the identifier up yields exactly this description, the peer is no longer a
  candidate or offline, and the lookup of every other identifier is what it was.
\<close>

theorem AddNode_activates:
  assumes "steps (table_step G) (NewRoutingTable G self) es t" "\<not> unusable node t"
  shows "ActiveNode (ni_ID node) (AddNode G node now t) = Some node \<and>
    offline (AddNode G node now t) (ni_ID node) = None \<and>
    \<not> inIndexLocked (mem (AddNode G node now t)) (Pending (AddNode G node now t)) (ni_ID node) \<and>
    (\<forall>j. j \<noteq> ni_ID node \<longrightarrow> ActiveNode j (AddNode G node now t) = ActiveNode j t)"
proof -
  have ok: "table_ok G t" using routing.steps_inv [OF assms(1) NewRoutingTable_ok] .
  show ?thesis using AddNode_active [OF ok assms(2)] by blast
qed

theorem AddNode_activates_witness:
  "ActiveNode (ni_ID demo_node) (AddNode demo_lib demo_node 5 demo_table) = Some demo_node"
  using AddNode_activates [OF steps_nil demo_usable] by blast

section \<open>Liveness\<close>

lemma probe_interval: "Sub t u < livenessProbeInterval \<longleftrightarrow> t - u < livenessProbeInterval"
  by (rule Sub_less_iff) (simp_all add: minute_def second_def)

abbreviation third_miss :: "time \<Rightarrow> bucketEntry \<Rightarrow> bool" where
  "third_miss now e \<equiv> (IsZero (be_LastProbeFailure e) \<or> now - be_LastProbeFailure e \<ge> livenessProbeInterval) \<and>
     be_ProbeMisses e \<ge> 2"

lemma expire_active:
  assumes ok: "table_ok G t" and p: "peerByID t i = Some a" and a: "a \<in> held (Buckets t)"
  shows "snd (expire_peer i a now t)" "ActiveNode i (fst (expire_peer i a now t)) = None"
    "offline (fst (expire_peer i a now t)) i = Some a"
proof -
  let ?t = "t\<lparr>Buckets := map (remove_entry (mem t) i) (Buckets t), NameBuckets := map (remove_entry (mem t) i) (NameBuckets t)\<rparr>"
  have e: "expire_peer i a now t = (removePeerIfUnindexedLocked i (go_offline i a now ?t), True)"
    using a in_buckets_iff [OF ok p] by (simp add: expire_peer_def removeFromIndexLocked_def)
  have off: "offline (go_offline i a now ?t) i = Some a" by (simp add: go_offline_def Let_def)
  have keep: "removePeerIfUnindexedLocked i (go_offline i a now ?t) = go_offline i a now ?t"
    by (simp add: removePeerIfUnindexedLocked_def off)
  show "snd (expire_peer i a now t)" "offline (fst (expire_peer i a now t)) i = Some a"
    unfolding e keep by (simp_all add: off)
  have "a \<notin> held (Buckets (go_offline i a now ?t))" "peerByID (go_offline i a now ?t) i = Some a"
    using unindex_ok(2) [OF ok p] p by (simp_all add: go_offline_def upd_entry_def Let_def)
  then show "ActiveNode i (fst (expire_peer i a now t)) = None"
    using ActiveNode_iff [OF expire_peer_ok [OF ok p, of now], of i] unfolding e keep
    by (cases "ActiveNode i (go_offline i a now ?t)") auto
qed

lemma upd_entry_active:
  assumes ok: "table_ok G t" "table_ok G (upd_entry a f t)" and n: "be_Node (f (mem t a)) = be_Node (mem t a)"
  shows "ActiveNode i (upd_entry a f t) = ActiveNode i t"
  by (rule ActiveNode_cong [OF ok]) (use n in \<open>auto simp: upd_entry_def\<close>)

lemma RecordLivenessResult_active:
  fixes now :: time and alive :: bool
  assumes ok: "table_ok G t" and p: "peerByID t i = Some a" "ActiveNode i t = Some node"
  defines "r \<equiv> RecordLivenessResult i now alive t"
  shows "snd r \<longleftrightarrow> \<not> alive \<and> third_miss now (mem t a)"
    "ActiveNode i (fst r) = (if snd r then None else Some node)" "snd r \<Longrightarrow> offline (fst r) i = Some a"
proof -
  have a: "a \<in> held (Buckets t)" using p ActiveNode_iff [OF ok] by auto
  let ?m = "upd_entry a (probe_missed now) t"
  have okm: "table_ok G ?m" using ok by (rule upd_entry_keeps) (simp_all add: probe_missed_def)
  have pm: "peerByID ?m i = Some a" "a \<in> held (Buckets ?m)" using p a by (simp_all add: upd_entry_def)
  note E = expire_active [OF okm pm, of now]
  have okr: "table_ok G (fst r)" unfolding r_def by (rule RecordLivenessResult_ok [OF ok])
  have misses: "be_ProbeMisses (mem ?m a) < 3 \<longleftrightarrow> \<not> be_ProbeMisses (mem t a) \<ge> 2"
    by (simp add: upd_entry_def probe_missed_def sat_inc_less_3 not_le)
  have cases: "(\<not> snd r \<and> (\<exists>f. fst r = upd_entry a f t \<and> be_Node (f (mem t a)) = be_Node (mem t a)) \<and>
        \<not> (\<not> alive \<and> third_miss now (mem t a))) \<or>
      (r = expire_peer i a now ?m \<and> \<not> alive \<and> third_miss now (mem t a))"
    unfolding r_def RecordLivenessResult_def using p(1) misses
    by (auto simp: Let_def probe_interval probe_alive_def probe_missed_def)
  show "snd r \<longleftrightarrow> \<not> alive \<and> third_miss now (mem t a)" using cases E(1) by auto
  show "snd r \<Longrightarrow> offline (fst r) i = Some a" using cases E(3) by auto
  show "ActiveNode i (fst r) = (if snd r then None else Some node)"
    using cases E(1,2) okr upd_entry_active [OF ok, of a _ i] p(2) by auto
qed

text \<open>
  C34: only the third spaced failed probe takes an active peer out of routing. A liveness result
  deactivates its peer exactly if it is a failure, the previous counted failure is at least one probe
  interval old, and at least two misses were counted before; then the peer is remembered as offline.
  In every other case, and after any number of failed lookups, the peer stays active.
\<close>

theorem peer_goes_offline_iff:
  assumes "steps (table_step G) (NewRoutingTable G self) es t" "peerByID t i = Some a" "ActiveNode i t = Some node"
  shows "(snd (RecordLivenessResult i now alive t) \<longleftrightarrow> \<not> alive \<and> third_miss now (mem t a)) \<and>
    ActiveNode i (fst (RecordLivenessResult i now alive t)) =
      (if snd (RecordLivenessResult i now alive t) then None else Some node) \<and>
    (snd (RecordLivenessResult i now alive t) \<longrightarrow> offline (fst (RecordLivenessResult i now alive t)) i = Some a) \<and>
    ActiveNode i (fst (NoteFailureAt j now t)) = Some node"
proof -
  have ok: "table_ok G t" using routing.steps_inv [OF assms(1) NewRoutingTable_ok] .
  have note_failure: "ActiveNode i (fst (NoteFailureAt j now t)) = ActiveNode i t"
    using NoteFailureAt_ok [OF ok, of j now] upd_entry_active [OF ok]
    by (auto simp: NoteFailureAt_def split: option.splits if_splits)
  note A = RecordLivenessResult_active [OF ok assms(2,3), of now alive]
  show ?thesis
    by (intro conjI impI) (rule A(1), rule A(2), erule A(3), simp only: note_failure assms(3))
qed

theorem peer_goes_offline_iff_witness:
  "\<exists>a. peerByID (AddNode demo_lib demo_node 5 demo_table) (ni_ID demo_node) = Some a \<and>
     ActiveNode (ni_ID demo_node) (fst (RecordLivenessResult (ni_ID demo_node) 9 True (AddNode demo_lib demo_node 5 demo_table)))
       = Some demo_node"
proof -
  let ?t = "AddNode demo_lib demo_node 5 demo_table"
  have run: "steps (table_step demo_lib) demo_table [EAddNode demo_node 5] ?t"
    by (rule steps_cons, rule table_step.intros, rule steps_nil)
  have act: "ActiveNode (ni_ID demo_node) ?t = Some demo_node"
    by (rule AddNode_active(1) [OF NewRoutingTable_ok demo_usable])
  then obtain a where "peerByID ?t (ni_ID demo_node) = Some a"
    unfolding ActiveNode_iff [OF AddNode_ok [OF NewRoutingTable_ok]] by blast
  with peer_goes_offline_iff [OF run this act, of 9 True] show ?thesis by auto
qed

section \<open>Finding the closest peers\<close>

lemma strict_weak_closer: "strict_weak (\<lambda>a b. closer G target byName (be_Node (m a)) (be_Node (m b)))"
  unfolding closer_def Let_def
  by (rule strict_weak_key2 [of "\<lambda>a. xorDistance G (closest_key G byName (be_Node (m a))) target"])

lemma ActivePeerCount_concat: "ActivePeerCount t = length (concat (Buckets t))"
  by (simp add: ActivePeerCount_def length_concat)

lemma active_entries:
  assumes ok: "table_ok G t"
  shows "ActiveNode i t = Some n \<longleftrightarrow> (\<exists>a \<in> set (concat (Buckets t)). entry_id (mem t) a = i \<and> be_Node (mem t a) = n)"
  unfolding ActiveNode_iff [OF ok] held_def [symmetric]
  using index_ok_owner [OF table_okD(1) [OF ok]] peer_id [OF ok] by metis

lemma ClosestNodes_split:
  assumes ok: "table_ok G t" and pos: "cnt > 0"
  obtains near far where "mset (near @ far) = mset (concat (Buckets t))" "ClosestNodes G target cnt t = map (\<lambda>a. be_Node (mem t a)) near"
    "length near = min (nat cnt) (length (concat (Buckets t)))"
    "sorted_wrt (\<lambda>a b. \<not> closer G target False (be_Node (mem t b)) (be_Node (mem t a))) (near @ far)"
proof -
  let ?lt = "\<lambda>a b. closer G target False (be_Node (mem t a)) (be_Node (mem t b))"
  let ?l = "sort_slice ?lt (concat (Buckets t))"
  have len: "length ?l = length (concat (Buckets t))"
    using insertion.srt_perm [of ?lt "concat (Buckets t)"] by (metis size_mset)
  show thesis
  proof (rule that [of "take (nat cnt) ?l" "drop (nat cnt) ?l"])
    show "mset (take (nat cnt) ?l @ drop (nat cnt) ?l) = mset (concat (Buckets t))"
      by (simp add: insertion.srt_perm)
    show "ClosestNodes G target cnt t = map (\<lambda>a. be_Node (mem t a)) (take (nat cnt) ?l)"
      using pos by (auto simp: ClosestNodes_def closestFrom_def sortClosestEntries_def Let_def)
    show "length (take (nat cnt) ?l) = min (nat cnt) (length (concat (Buckets t)))"
      unfolding length_take len by simp
    show "sorted_wrt (\<lambda>a b. \<not> ?lt b a) (take (nat cnt) ?l @ drop (nat cnt) ?l)"
      using insertion.srt_sorted [OF strict_weak_closer] by (simp add: in_order_def)
  qed
qed

lemma closer_distance:
  "\<not> closer G target False m n \<Longrightarrow> xorDistance G (ni_ID n) target \<le> xorDistance G (ni_ID m) target"
  by (auto simp: closer_def closest_key_def Let_def split: if_splits)

lemma ClosestNodes_spec:
  fixes cnt :: int and target :: string
  assumes ok: "table_ok G t"
  defines "ns \<equiv> ClosestNodes G target cnt t"
  shows "length ns = min (nat cnt) (ActivePeerCount t)" "distinct (map ni_ID ns)"
    "\<forall>n \<in> set ns. ActiveNode (ni_ID n) t = Some n"
    "sorted (map (\<lambda>n. xorDistance G (ni_ID n) target) ns)"
    "n \<in> set ns \<Longrightarrow> ActiveNode i t = Some m \<Longrightarrow> m \<notin> set ns \<Longrightarrow>
       xorDistance G (ni_ID n) target \<le> xorDistance G i target"
proof -
  have "length ns = min (nat cnt) (ActivePeerCount t) \<and> distinct (map ni_ID ns) \<and>
    (\<forall>n \<in> set ns. ActiveNode (ni_ID n) t = Some n) \<and> sorted (map (\<lambda>n. xorDistance G (ni_ID n) target) ns) \<and>
    (n \<in> set ns \<longrightarrow> ActiveNode i t = Some m \<longrightarrow> m \<notin> set ns \<longrightarrow> xorDistance G (ni_ID n) target \<le> xorDistance G i target)"
  proof (cases "cnt > 0")
    case False
    then show ?thesis by (simp add: ns_def ClosestNodes_def closestFrom_def)
  next
    case True
    obtain near far where nf: "mset (near @ far) = mset (concat (Buckets t))"
      and ns: "ns = map (\<lambda>a. be_Node (mem t a)) near"
      and len: "length near = min (nat cnt) (length (concat (Buckets t)))"
      and srt: "sorted_wrt (\<lambda>a b. \<not> closer G target False (be_Node (mem t b)) (be_Node (mem t a))) (near @ far)"
      unfolding ns_def using ClosestNodes_split [OF ok True] by blast
    have set: "set near \<union> set far = set (concat (Buckets t))" using mset_eq_setD [OF nf] by simp
    have "distinct (map (entry_id (mem t)) (near @ far))"
      using index_ok_distinct(2) [OF table_okD(1) [OF ok]] arg_cong [OF nf, of "image_mset (entry_id (mem t))"]
      by (metis mset_eq_imp_distinct_iff mset_map)
    then have d: "distinct (map ni_ID ns)" by (simp add: ns comp_def)
    have act: "\<forall>n \<in> set ns. ActiveNode (ni_ID n) t = Some n"
      using set unfolding ns active_entries [OF ok] by fastforce
    have s: "sorted (map (\<lambda>n. xorDistance G (ni_ID n) target) ns)"
      using srt closer_distance unfolding ns sorted_wrt_append
      by (auto simp: sorted_wrt_map elim!: sorted_wrt_mono_rel [rotated])
    have far: "xorDistance G (ni_ID n) target \<le> xorDistance G i target"
      if h: "n \<in> set ns" "ActiveNode i t = Some m" "m \<notin> set ns"
    proof -
      obtain b where b: "b \<in> set near \<union> set far" "entry_id (mem t) b = i" "be_Node (mem t b) = m"
        using h(2) unfolding active_entries [OF ok] set by blast
      then have "b \<in> set far" using h(3) by (auto simp: ns)
      then show ?thesis using h(1) srt closer_distance b unfolding ns sorted_wrt_append by fastforce
    qed
    show ?thesis using len d act s far by (simp add: ns ActivePeerCount_concat)
  qed
  then show "length ns = min (nat cnt) (ActivePeerCount t)" "distinct (map ni_ID ns)"
    "\<forall>n \<in> set ns. ActiveNode (ni_ID n) t = Some n" "sorted (map (\<lambda>n. xorDistance G (ni_ID n) target) ns)"
    "n \<in> set ns \<Longrightarrow> ActiveNode i t = Some m \<Longrightarrow> m \<notin> set ns \<Longrightarrow> xorDistance G (ni_ID n) target \<le> xorDistance G i target"
    by blast+
qed

text \<open>
  C33: \<^verbatim>\<open>ClosestNodes\<close> returns the closest active peers. In every table a run reaches, the answer has
  as many peers as asked for (or all, if there are fewer), every one of them is active with its
  current description, none occurs twice, they are ordered by XOR distance to the target, and no
  active peer left out is closer than one returned.
\<close>

theorem ClosestNodes_closest:
  assumes "steps (table_step G) (NewRoutingTable G self) es t"
  shows "length (ClosestNodes G target cnt t) = min (nat cnt) (ActivePeerCount t) \<and>
    distinct (map ni_ID (ClosestNodes G target cnt t)) \<and>
    (\<forall>n \<in> set (ClosestNodes G target cnt t). ActiveNode (ni_ID n) t = Some n) \<and>
    sorted (map (\<lambda>n. xorDistance G (ni_ID n) target) (ClosestNodes G target cnt t)) \<and>
    (\<forall>n \<in> set (ClosestNodes G target cnt t). \<forall>i m. ActiveNode i t = Some m \<longrightarrow>
       m \<notin> set (ClosestNodes G target cnt t) \<longrightarrow> xorDistance G (ni_ID n) target \<le> xorDistance G i target)"
proof -
  have ok: "table_ok G t" using routing.steps_inv [OF assms NewRoutingTable_ok] .
  show ?thesis by (intro conjI ballI allI impI) (use ClosestNodes_spec [OF ok] in \<open>blast\<close>)+
qed

theorem ClosestNodes_closest_witness:
  "length (ClosestNodes demo_lib ''x'' 7 (AddNode demo_lib demo_node 5 demo_table)) =
     min 7 (ActivePeerCount (AddNode demo_lib demo_node 5 demo_table))"
proof -
  have "steps (table_step demo_lib) demo_table [EAddNode demo_node 5] (AddNode demo_lib demo_node 5 demo_table)"
    by (rule steps_cons, rule table_step.intros, rule steps_nil)
  from ClosestNodes_closest [OF this, of "''x''" 7] show ?thesis by simp
qed

section \<open>Enumerating the table\<close>

lemma collect_nodes_eq:
  assumes "distinct is" "lastID \<notin> set is" "\<forall>i \<in> set is. peerByID t i \<noteq> None"
  shows "collect_nodes t lastID is = Some (map (\<lambda>i. be_Node (mem t (the (peerByID t i)))) is)"
  using assms
proof (induction "is" arbitrary: lastID)
  case (Cons i "is")
  then show ?case by (auto split: option.splits)
qed simp

lemma Nodes_active:
  assumes ok: "table_ok G t"
  obtains ns where "Nodes t = Some ns" "sorted_wrt (<) (map ni_ID ns)"
    "\<And>n. n \<in> set ns \<longleftrightarrow> ActiveNode (ni_ID n) t = Some n" "length ns = ActivePeerCount t"
proof -
  let ?as = "concat (Buckets t)"
  let ?ids = "sort (map (entry_id (mem t)) ?as)" and ?node = "\<lambda>i. be_Node (mem t (the (peerByID t i)))"
  have d: "distinct ?ids" using index_ok_distinct(2) [OF table_okD(1) [OF ok]] by simp
  have own: "peerByID t (entry_id (mem t) a) = Some a" if "a \<in> set ?as" for a
    using index_ok_owner [OF table_okD(1) [OF ok]] that by (simp add: held_def)
  then have ids: "\<forall>i \<in> set ?ids. peerByID t i \<noteq> None" by auto
  then have "[] \<notin> set ?ids" using table_okD(6) [OF ok] by (force simp: peers_ok_def)
  from collect_nodes_eq [OF d this ids] have "Nodes t = Some (map ?node ?ids)" by (simp add: Nodes_def)
  moreover have node: "ni_ID (?node i) = i" if "i \<in> set ?ids" for i
    using that ids peer_id [OF ok, of i] by auto
  then have "map ni_ID (map ?node ?ids) = ?ids" unfolding map_map comp_def by (rule map_idI)
  then have "sorted_wrt (<) (map ni_ID (map ?node ?ids))"
    using d sorted_sort strict_sorted_iff by metis
  moreover have "n \<in> set (map ?node ?ids) \<longleftrightarrow> ActiveNode (ni_ID n) t = Some n" for n
    unfolding active_entries [OF ok] using own by force
  moreover have "length (map ?node ?ids) = ActivePeerCount t" by (simp add: ActivePeerCount_concat)
  ultimately show thesis by (rule that)
qed

text \<open>
  Listing the table cannot fail. \<^verbatim>\<open>Nodes\<close> looks every identifier of the buckets up in the peer
  map; in every table a run reaches all of them are there, and the result is the active peers, each
  once, in order of their identifiers.
\<close>

theorem Nodes_lists_active:
  assumes "steps (table_step G) (NewRoutingTable G self) es t"
  shows "\<exists>ns. Nodes t = Some ns \<and> sorted_wrt (<) (map ni_ID ns) \<and> length ns = ActivePeerCount t \<and>
    (\<forall>n. n \<in> set ns \<longleftrightarrow> ActiveNode (ni_ID n) t = Some n)"
  using Nodes_active [OF routing.steps_inv [OF assms NewRoutingTable_ok]] by metis

section \<open>Candidates\<close>

lemma append_pending_total: "0 \<le> idx \<Longrightarrow> idx \<le> 255 \<Longrightarrow> append_pending a idx t \<noteq> None"
  by (simp add: append_pending_def)

lemma addCandidate_total:
  assumes "0 \<le> bucketIndex G (SelfID t) (ni_ID node)" "bucketIndex G (SelfID t) (ni_ID node) \<le> 255"
  shows "addCandidate G node t \<noteq> None" "AddLookupCandidate G node t \<noteq> None"
  using append_pending_total [OF assms]
  by (auto simp: addCandidate_def AddLookupCandidate_def Let_def simp del: not_None_eq split: option.splits prod.splits bool.splits)

lemma VerifyNodeInfo_NodeID:
  "VerifyNodeInfo G node now = Inr () \<Longrightarrow> \<exists>k. ni_ID node = NodeIDFromPublicKey G k"
  by (auto simp: VerifyNodeInfo_def VerifyEndpointRecord_def VerifyEndpoint_iff endpointRecordFromNodeInfo_def
      split: if_splits sum.splits)

lemma VerifyNodeInfo_record:
  assumes v: "VerifyEndpoint G r now = Inr v" and times: "er_IssuedAt r \<noteq> []" "er_ExpiresAt r \<noteq> []"
  shows "VerifyNodeInfo G (NodeInfoFromEndpointRecord G r) now = Inr ()"
proof -
  have inv: "endpointRecordFromNodeInfo (NodeInfoFromEndpointRecord G r) = r"
    by (simp add: endpointRecordFromNodeInfo_def NodeInfoFromEndpointRecord_def)
  have "er_PublicKey r \<noteq> []" "er_Signature r \<noteq> []"
    using v by (auto simp: VerifyEndpoint_iff b64_decode_def)
  moreover have "er_NodeID r \<noteq> []" "er_NodeName r \<noteq> []" "er_Address r \<noteq> []"
    using v by (auto simp: VerifyEndpoint_iff)
  ultimately show ?thesis
    using times v unfolding VerifyNodeInfo_def inv
    by (simp add: NodeInfoFromEndpointRecord_def VerifyEndpointRecord_def)
qed

text \<open>
  A verified peer can always be offered as a candidate. If the node's own identifier is made from
  a key, then for every description that passes \<^verbatim>\<open>VerifyNodeInfo\<close> the candidate operations index a
  bucket that exists; they panic only on descriptions nobody verified.
\<close>

theorem candidates_never_panic:
  assumes sha: "sha256_ok G" and self: "SelfID t = NodeIDFromPublicKey G k"
    and v: "VerifyNodeInfo G node now = Inr ()"
  shows "addCandidate G node t \<noteq> None \<and> AddLookupCandidate G node t \<noteq> None"
proof (cases "ni_ID node = SelfID t")
  case True
  then show ?thesis by (simp add: addCandidate_def AddLookupCandidate_def unusable_def)
next
  case False
  obtain k' where "ni_ID node = NodeIDFromPublicKey G k'" using VerifyNodeInfo_NodeID [OF v] by blast
  then have "0 \<le> bucketIndex G (SelfID t) (ni_ID node)"
    using bucketIndex_NodeIDs [OF sha, of k k'] False self by simp
  then show ?thesis using addCandidate_total bucketIndex_range [OF sha] by blast
qed

text \<open>
  C35: offering a listed candidate again loses a count. \<^verbatim>\<open>addCandidate\<close> takes the candidate off its list,
  which decrements \<^verbatim>\<open>pendingN\<close>, and puts it back without incrementing it: every refresh lowers the
  counter by one while the number of listed candidates stays the same. The limit on candidates is
  checked against this counter, so it bounds the counter and not the lists.
\<close>

theorem candidate_refresh_undercounts:
  assumes "steps (table_step G) (NewRoutingTable G self) es t" "\<not> blocked node t"
    and listed: "inIndexLocked (mem t) (Pending t) (ni_ID node)"
    and r: "addCandidate G node t = Some t'"
  shows "pendingN t' = pendingN t - 1 \<and> length (concat (Pending t')) = length (concat (Pending t))"
proof -
  have ok: "table_ok G t" using routing.steps_inv [OF assms(1) NewRoutingTable_ok] .
  note D = table_okD(3) [OF ok]
  obtain a where p: "peerByID t (ni_ID node) = Some a"
    using not_indexed [OF D, of "ni_ID node"] listed by blast
  note L = addCandidate_listed [OF ok assms(2) p listed r]
  let ?X = "map (remove_entry (mem t) (ni_ID node)) (Pending t)"
  have "remove_first (mem t) (ni_ID node) (Pending t) = (?X, True)"
    using remove_first_eq [OF index_ok_distinct(2) [OF D]] listed by (simp add: removeFromIndexLocked_def)
  then have "length (concat (Pending t)) = length (concat ?X) + 1" using remove_first_length by fastforce
  moreover have "length (concat (Pending t')) = length (concat ?X) + 1"
    using L(4) length_concat_append [of "id_place G t a" ?X a] D by (simp add: Let_def)
  ultimately show ?thesis using L(3) by simp
qed

lemma demo_bucket: "bucketIndex demo_lib demo_self (ni_ID demo_node) = 0"
proof -
  have s: "routingIDBytes demo_lib demo_self = replicate 32 0" by code_simp
  have n: "routingIDBytes demo_lib (ni_ID demo_node) = replicate 31 0 @ [1]" by code_simp
  have "SetBytes (replicate 32 0) = 0" "SetBytes (replicate 31 0 @ [1]) = 1" by code_simp+
  moreover have "BitLen 1 = 1" by code_simp
  ultimately show ?thesis unfolding bucketIndex_def xorDistance_def s n by simp
qed

definition demo_listed :: RoutingTable where
  "demo_listed = demo_table\<lparr>mem := (mem demo_table)(0 := zero_entry demo_node), next_addr := 1,
     peerByID := [ni_ID demo_node \<mapsto> 0], Pending := no_buckets[0 := [0]], pendingN := 1\<rparr>"

lemma demo_added: "addCandidate demo_lib demo_node demo_table = Some demo_listed"
  using demo_usable demo_bucket
  by (simp add: addCandidate_def Let_def inIndex_iff NewRoutingTable_def append_pending_def drop_offline_def
      new_entry_def demo_listed_def zero_entry_def fun_upd_idem)

theorem candidate_refresh_undercounts_witness:
  "\<exists>t'. addCandidate demo_lib demo_node demo_listed = Some t' \<and> pendingN t' = 0 \<and> length (concat (Pending t')) = 1"
proof -
  have run: "steps (table_step demo_lib) demo_table [EAddCandidate demo_node] demo_listed"
    by (rule steps_cons, rule table_step.intros, rule demo_added, rule steps_nil)
  have fields: "Buckets demo_listed = no_buckets" "NameBuckets demo_listed = no_buckets" "SelfID demo_listed = demo_self"
    "pendingN demo_listed = 1" "mem demo_listed 0 = zero_entry demo_node" "Pending demo_listed = no_buckets[0 := no_buckets ! 0 @ [0]]"
    by (simp_all add: demo_listed_def NewRoutingTable_def)
  have b: "\<not> blocked demo_node demo_listed"
    using demo_usable by (simp add: inIndex_iff fields unusable_def NewRoutingTable_def)
  have l: "inIndexLocked (mem demo_listed) (Pending demo_listed) (ni_ID demo_node)"
    unfolding inIndex_iff fields(6) by (subst held_append) (simp_all add: fields(5) zero_entry_def)
  obtain t' where t': "addCandidate demo_lib demo_node demo_listed = Some t'"
    using addCandidate_total(1) [of demo_lib demo_listed demo_node] demo_bucket fields(3) by auto
  have "length (concat (Pending demo_listed)) = 1"
    unfolding fields(6) by (subst length_concat_append) (simp_all add: concat_replicate_trivial)
  with candidate_refresh_undercounts [OF run b l t'] t' fields(4) show ?thesis by simp
qed

section \<open>Refresh targets\<close>

definition good_target :: "golib \<Rightarrow> (nat \<Rightarrow> nat option) \<Rightarrow> bool \<Rightarrow> string \<Rightarrow> index \<Rightarrow> RefreshTarget \<Rightarrow> bool" where
  "good_target G draw byName self X r \<longleftrightarrow> rf_NameHash r = byName \<and> rf_Bucket r < 256 \<and> X ! rf_Bucket r \<noteq> [] \<and>
     (\<exists>rnd. draw (rf_Bucket r) = Some rnd \<and>
        rf_Key r = (if byName then ''node/name/'' else ''vx6_'') @ randomTargetInBucket G rnd self (int (rf_Bucket r)))"

lemma refresh_loop_targets:
  assumes "refresh_loop G draw byName self now limit X is (ts, ref) = (ts', ref')" "set is \<subseteq> {..<256}"
  shows "\<exists>new. ts' = ts @ new \<and> (\<forall>r \<in> set new. good_target G draw byName self X r) \<and>
     int (length ts') \<le> max limit (int (length ts))"
  using assms
proof (induction "is" arbitrary: ts ref)
  case (Cons i "is")
  show ?case
  proof (cases "refresh_loop G draw byName self now limit X (i # is) (ts, ref) =
      refresh_loop G draw byName self now limit X is (ts, ref) \<or> int (length ts) \<ge> limit")
    case True
    then show ?thesis using Cons.IH [of ts ref] Cons.prems by (auto split: if_splits)
  next
    case False
    then obtain rnd where rnd: "draw i = Some rnd" and ne: "X ! i \<noteq> []" and room: "int (length ts) < limit"
      by (auto simp del: not_None_eq split: if_splits option.splits)
    let ?r = "\<lparr>rf_Key = (if byName then ''node/name/'' else ''vx6_'') @ randomTargetInBucket G rnd self (int i),
      rf_NameHash = byName, rf_Bucket = i\<rparr>"
    have step: "refresh_loop G draw byName self now limit X is (ts @ [?r], ref[i := now]) = (ts', ref')"
      using False rnd Cons.prems(1) by (auto simp: Let_def split: if_splits)
    have good: "good_target G draw byName self X ?r" using rnd ne Cons.prems(2) by (simp add: good_target_def)
    from Cons.IH [OF step] Cons.prems(2) obtain new where "ts' = ts @ [?r] @ new"
      "\<forall>r \<in> set new. good_target G draw byName self X r" "int (length ts') \<le> max limit (int (length (ts @ [?r])))"
      by auto
    then show ?thesis using good room by (intro exI [of _ "?r # new"]) auto
  qed
qed simp

lemma refresh_pass_targets:
  assumes "refresh_pass G draw now limit byName (ts, t) = (ts', t')"
  shows "\<exists>new. ts' = ts @ new \<and> int (length ts') \<le> max limit (int (length ts)) \<and>
     (\<forall>r \<in> set new. good_target G (draw byName) byName (if byName then SelfNameHash t else SelfID t)
        (if byName then NameBuckets t else Buckets t) r)"
proof -
  have all: "set (rev [0..<256]) \<subseteq> {..<256}" by auto
  show ?thesis
  proof (cases byName)
    case True
    then show ?thesis
      using assms refresh_loop_targets [OF _ all, of G "draw True" True "SelfNameHash t" now limit "NameBuckets t" ts "lastNameRefresh t"]
      by (fastforce simp: refresh_pass_def split: if_splits prod.splits)
  next
    case False
    then show ?thesis
      using assms refresh_loop_targets [OF _ all, of G "draw False" False "SelfID t" now limit "Buckets t" ts "lastIDRefresh t"]
      by (fastforce simp: refresh_pass_def split: if_splits prod.splits)
  qed
qed

text \<open>
  Refreshing stays within its limit and asks for populated ranges. At most \<^verbatim>\<open>limit\<close> targets are
  returned, each for a bucket that holds a peer, and a target made for an identity bucket lies in
  exactly this bucket, whatever the random source draws.
\<close>

theorem RefreshTargets_in_buckets:
  assumes sha: "sha256_ok G" and draws: "\<forall>i rnd. draw False i = Some rnd \<longrightarrow> rnd < 2 ^ i"
  shows "int (length (fst (RefreshTargets G draw now limit t))) \<le> max 0 limit \<and>
    (\<forall>r \<in> set (fst (RefreshTargets G draw now limit t)). rf_Bucket r < 256 \<and>
       (if rf_NameHash r then NameBuckets t ! rf_Bucket r \<noteq> []
        else Buckets t ! rf_Bucket r \<noteq> [] \<and> bucketIndex G (SelfID t) (rf_Key r) = int (rf_Bucket r)))"
proof (cases "limit \<le> 0")
  case False
  define good where "good b r \<longleftrightarrow> good_target G (draw b) b (if b then SelfNameHash t else SelfID t)
    (if b then NameBuckets t else Buckets t) r" for b r
  obtain ts1 t1 where p1: "refresh_pass G draw now limit (refreshNameNext t) ([], t) = (ts1, t1)" by fastforce
  obtain ts2 t2 where p2: "refresh_pass G draw now limit (\<not> refreshNameNext t) (ts1, t1) = (ts2, t2)" by fastforce
  have res: "fst (RefreshTargets G draw now limit t) = ts2" using False p1 p2 by (simp add: RefreshTargets_def)
  note frame = refresh_pass_frame [of G draw now limit "refreshNameNext t" "[]" t, unfolded p1 snd_conv]
  have self: "SelfNameHash t1 = SelfNameHash t" "SelfID t1 = SelfID t" "NameBuckets t1 = NameBuckets t" "Buckets t1 = Buckets t"
    by (subst frame, simp)+
  obtain n1 where n1: "ts1 = [] @ n1" "int (length ts1) \<le> max limit (int (length ([] :: RefreshTarget list)))"
    "\<forall>r \<in> set n1. good (refreshNameNext t) r"
    using refresh_pass_targets [OF p1] unfolding good_def by blast
  obtain n2 where n2: "ts2 = ts1 @ n2" "int (length ts2) \<le> max limit (int (length ts1))"
    "\<forall>r \<in> set n2. good (\<not> refreshNameNext t) r"
    using refresh_pass_targets [OF p2] unfolding good_def self by blast
  have len: "int (length ts2) \<le> limit" using n1(2) n2(2) False by simp
  have "rf_Bucket r < 256 \<and> (if rf_NameHash r then NameBuckets t ! rf_Bucket r \<noteq> []
      else Buckets t ! rf_Bucket r \<noteq> [] \<and> bucketIndex G (SelfID t) (rf_Key r) = int (rf_Bucket r))" if "good b r" for b r
    using that random_target_at [OF sha, THEN conjunct1] draws by (cases b) (auto simp: good_def good_target_def)
  then show ?thesis unfolding res using n1(1,3) n2(1,3) len by auto
qed (simp add: RefreshTargets_def)

text \<open>
  The coordinate of a name. A bare name hash has none of the prefixes \<^verbatim>\<open>routingIDBytes\<close> decodes, so it
  is hashed once more, whereas the key \<^verbatim>\<open>node/name/...\<close> of the same hash is decoded. Targets for name
  buckets are built from the former and looked up by the latter's text.
\<close>

lemma name_coordinates_differ:
  assumes "length bs = 32"
  shows "routingIDBytes G (''node/name/'' @ EncodeToString bs) = bs"
    and "routingIDBytes G (EncodeToString bs) = sha256 G (bytes_of (EncodeToString bs))"
proof -
  have p: "HasPrefix (''node/name/'' @ EncodeToString bs) ''node/name/''"
    "TrimPrefix (''node/name/'' @ EncodeToString bs) ''node/name/'' = EncodeToString bs"
    by (rule HasPrefix_append TrimPrefix_append)+
  have "\<not> HasPrefix (''node/name/'' @ EncodeToString bs) ''vx6_''" by (simp add: HasPrefix_def)
  then show "routingIDBytes G (''node/name/'' @ EncodeToString bs) = bs"
    using p assms by (simp add: routingIDBytes_def codec_simps)
  obtain c cs where e: "EncodeToString bs = c # cs" using assms length_Encode [of bs] by (cases "EncodeToString bs") auto
  then have "hex_val c \<noteq> None" using Encode_hex_digits [of c bs] by simp
  moreover have "hex_val CHR ''v'' = None" "hex_val CHR ''n'' = None" by code_simp+
  ultimately have "\<not> HasPrefix (EncodeToString bs) (CHR ''v'' # x)" "\<not> HasPrefix (EncodeToString bs) (CHR ''n'' # x)" for x
    by (auto simp: e HasPrefix_def)
  then show "routingIDBytes G (EncodeToString bs) = sha256 G (bytes_of (EncodeToString bs))"
    by (simp add: routingIDBytes_def)
qed

end
