(* ===== verification/Envelope.thy ===== *)
theory Envelope
  imports Service Metric GoSort StrictJson
begin

text \<open>
  The values the DHT stores and their signed wrapping: \<^verbatim>\<open>internal/dht/envelope.go\<close>,
  \<^verbatim>\<open>internal/dht/private_catalog.go\<close> and the data types of \<^verbatim>\<open>internal/dht/value.go\<close> and
  \<^verbatim>\<open>internal/dht/hidden_descriptor.go\<close>. The code of \<^verbatim>\<open>encoding/json\<close> is the parameter \<open>jsonlib\<close>; a
  failed \<^verbatim>\<open>Unmarshal\<close> is \<open>None\<close>.
\<close>

section \<open>Data\<close>

record SignedEnvelope =
  se_Key :: string
  se_Value :: string
  se_OriginNodeID :: string
  se_PublisherNodeID :: string
  se_PublisherPublicKey :: string
  se_Version :: u64
  se_IssuedAt :: string
  se_ExpiresAt :: string
  se_ObservedAt :: string
  se_Signature :: string

record validatedValue =
  vv_storedRaw :: string
  vv_raw :: string
  vv_verified :: bool
  vv_family :: string
  vv_fingerprint :: string
  vv_issuedAt :: time
  vv_expiresAt :: time
  vv_version :: u64
  vv_sequenceBased :: bool
  vv_originNodeID :: string
  vv_publisherNodeID :: string
  vv_enveloped :: bool
  vv_authoritativePublisher :: bool

record PrivateServiceCatalog =
  pc_NodeID :: string
  pc_NodeName :: string
  pc_PublicKey :: string
  pc_Services :: "ServiceRecord list"
  pc_IssuedAt :: string
  pc_ExpiresAt :: string
  pc_Signature :: string

record HiddenDescriptor =
  hd_NodeID :: string
  hd_ServiceTag :: string
  hd_IssuedAt :: string
  hd_ExpiresAt :: string
  hd_Nonce :: string
  hd_Ciphertext :: string

record hiddenDescriptorPayload =
  hp_Record :: ServiceRecord
  hp_Padding :: string

text \<open>
  \<^verbatim>\<open>js_tokens\<close> and \<^verbatim>\<open>js_endpoint\<close> are the two decoders \<^verbatim>\<open>strictjson.Decode\<close> runs, the other fields
  \<^verbatim>\<open>json.Unmarshal\<close> and \<^verbatim>\<open>json.Marshal\<close> at the types they are used with.
\<close>

record jsonlib =
  js_tokens :: "string \<Rightarrow> decoder"
  js_endpoint :: "string \<Rightarrow> json_error + (EndpointRecord \<times> (json_error + unit))"
  js_service :: "string \<Rightarrow> ServiceRecord option"
  js_marshal_services :: "ServiceRecord list \<Rightarrow> string"
  js_envelope :: "string \<Rightarrow> SignedEnvelope option"
  js_marshal_envelope :: "SignedEnvelope \<Rightarrow> string"
  js_catalog :: "string \<Rightarrow> PrivateServiceCatalog option"
  js_descriptor :: "string \<Rightarrow> HiddenDescriptor option"
  js_marshal_descriptor :: "HiddenDescriptor \<Rightarrow> string"
  js_payload :: "bytes \<Rightarrow> hiddenDescriptorPayload option"
  js_marshal_payload :: "hiddenDescriptorPayload \<Rightarrow> bytes"

datatype value_error =
    IncompleteEnvelope
  | EnvelopeKeyMismatch string string
  | ValueRecord record_error
  | ObservedBeforeIssued
  | ParseObservedAt
  | WrapUnverified string
  | CatalogOwner string
  | CatalogHidden string
  | CatalogNotPrivate string
  | CatalogDuplicate string
  | DecodeCatalog
  | DecodeValue
  | DecodeEndpoint json_error
  | KeyMismatch string string
  | PrivateInPublic string
  | EnvelopeOrigin string string
  | EnvelopeVersion u64 u64
  | EnvelopeIssuedAt
  | EnvelopeExpiresAt
  | BadDescriptorKey string
  | BadDescriptorEpoch string
  | DescriptorFields
  | DescriptorBase64
  | DescriptorNeedsAlias
  | DescriptorDecrypt
  | DescriptorMismatch
  | RefEmpty
  | SecretEmpty
  | SecretChars
  | SecretTooShort
  | ConflictingValues string string

section \<open>Signed envelopes\<close>

definition maybeDecodeEnvelope :: "jsonlib \<Rightarrow> string \<Rightarrow> value_error + SignedEnvelope option" where
  "maybeDecodeEnvelope J raw = (case js_envelope J raw of
     None \<Rightarrow> Inr None
   | Some env \<Rightarrow>
       if se_Key env = [] \<and> se_Value env = [] \<and> se_PublisherNodeID env = [] \<and> se_Signature env = [] then Inr None
       else if se_Key env = [] \<or> se_Value env = [] \<or> se_PublisherNodeID env = [] \<or> se_PublisherPublicKey env = [] \<or>
         se_Signature env = [] \<or> se_IssuedAt env = [] \<or> se_ExpiresAt env = [] \<or> se_ObservedAt env = [] \<or>
         se_Version env = 0 then Inl IncompleteEnvelope
       else Inr (Some env))"

definition envelopeSigningPayload :: "SignedEnvelope \<Rightarrow> bytes" where
  "envelopeSigningPayload env = bytes_of (lines
     [se_Key env, se_Value env, se_OriginNodeID env, se_PublisherNodeID env, se_PublisherPublicKey env,
      Itoa (unat (se_Version env)), se_IssuedAt env, se_ExpiresAt env, se_ObservedAt env])"

definition signEnvelope :: "golib \<Rightarrow> Identity \<Rightarrow> SignedEnvelope \<Rightarrow> string" where
  "signEnvelope G i env = b64_encode StdEncoding (ed25519_sign G (id_PrivateKey i) (envelopeSigningPayload env))"

definition wrapSignedEnvelope ::
  "golib \<Rightarrow> jsonlib \<Rightarrow> Identity \<Rightarrow> string \<Rightarrow> string \<Rightarrow> validatedValue \<Rightarrow> time \<Rightarrow> value_error + string" where
  "wrapSignedEnvelope G J i key val info now =
     (case Identity_Validate G i of Inl e \<Rightarrow> Inl (ValueRecord e) | Inr _ \<Rightarrow>
      if \<not> vv_verified info then Inl (WrapUnverified key)
      else let observedAt = (if now < vv_issuedAt info then vv_issuedAt info else now);
               env = \<lparr>se_Key = key, se_Value = val, se_OriginNodeID = vv_originNodeID info,
                 se_PublisherNodeID = id_NodeID i,
                 se_PublisherPublicKey = b64_encode StdEncoding (id_PublicKey i),
                 se_Version = vv_version info,
                 se_IssuedAt = rfc3339_format G (vv_issuedAt info),
                 se_ExpiresAt = rfc3339_format G (vv_expiresAt info),
                 se_ObservedAt = rfc3339_format G observedAt, se_Signature = []\<rparr>
           in Inr (js_marshal_envelope J (env\<lparr>se_Signature := signEnvelope G i env\<rparr>)))"

definition verifyEnvelope :: "golib \<Rightarrow> string \<Rightarrow> SignedEnvelope \<Rightarrow> time \<Rightarrow> value_error + unit" where
  "verifyEnvelope G key env now =
     (if se_Key env \<noteq> key then Inl (EnvelopeKeyMismatch (se_Key env) key)
      else case b64_decode StdEncoding (se_PublisherPublicKey env) of None \<Rightarrow> Inl (ValueRecord DecodePublicKey) | Some publicKey \<Rightarrow>
      (case b64_decode StdEncoding (se_Signature env) of None \<Rightarrow> Inl (ValueRecord DecodeSignature) | Some signature \<Rightarrow>
       if length publicKey \<noteq> 32 then Inl (ValueRecord InvalidPublicKey)
       else if length signature \<noteq> 64 then Inl (ValueRecord InvalidSignature)
       else if NodeIDFromPublicKey G publicKey \<noteq> se_PublisherNodeID env then Inl (ValueRecord NodeIDMismatch)
       else case rfc3339_parse G (se_IssuedAt env) of None \<Rightarrow> Inl (ValueRecord ParseIssuedAt) | Some issuedAt \<Rightarrow>
       (case rfc3339_parse G (se_ExpiresAt env) of None \<Rightarrow> Inl (ValueRecord ParseExpiresAt) | Some expiresAt \<Rightarrow>
       (case rfc3339_parse G (se_ObservedAt env) of None \<Rightarrow> Inl ParseObservedAt | Some observedAt \<Rightarrow>
        if \<not> expiresAt > issuedAt then Inl (ValueRecord ExpiryNotAfterIssue)
        else if observedAt < issuedAt then Inl ObservedBeforeIssued
        else if now > expiresAt then Inl (ValueRecord Expired)
        else if \<not> ed25519_verify G publicKey (envelopeSigningPayload env) signature then
          Inl (ValueRecord SignatureFailed)
        else Inr ()))))"

section \<open>Private service catalogs\<close>

definition PrivateCatalogKey :: "golib \<Rightarrow> string \<Rightarrow> string" where
  "PrivateCatalogKey G nodeName = ''private-catalog/'' @
     (case NormalizeNodeName G nodeName of Inr canonical \<Rightarrow> canonical | Inl _ \<Rightarrow> ToUpper G nodeName)"

definition service_key :: "golib \<Rightarrow> ServiceRecord \<Rightarrow> string" where
  "service_key G svc = FullServiceName G (sv_NodeName svc) (sv_ServiceName svc)"

fun check_catalog_services ::
  "golib \<Rightarrow> string \<Rightarrow> string \<Rightarrow> time \<Rightarrow> string set \<Rightarrow> ServiceRecord list \<Rightarrow> value_error + ServiceRecord list" where
  "check_catalog_services G nodeName nodeID now seen [] = Inr []"
| "check_catalog_services G nodeName nodeID now seen (svc # services) =
     (case VerifyServiceRecord G svc now of Inl e \<Rightarrow> Inl (ValueRecord e) | Inr _ \<Rightarrow>
      if sv_NodeName svc \<noteq> nodeName \<or> sv_NodeID svc \<noteq> nodeID then Inl (CatalogOwner (sv_ServiceName svc))
      else if sv_IsHidden svc then Inl (CatalogHidden (sv_ServiceName svc))
      else if \<not> sv_IsPrivate svc then Inl (CatalogNotPrivate (sv_ServiceName svc))
      else if service_key G svc \<in> seen then Inl (CatalogDuplicate (service_key G svc))
      else (case check_catalog_services G nodeName nodeID now (insert (service_key G svc) seen) services of
          Inl e \<Rightarrow> Inl e
        | Inr out \<Rightarrow> Inr (svc # out)))"

definition normalizePrivateCatalogServices ::
  "golib \<Rightarrow> string \<Rightarrow> string \<Rightarrow> ServiceRecord list \<Rightarrow> time \<Rightarrow> value_error + ServiceRecord list" where
  "normalizePrivateCatalogServices G nodeName nodeID services now =
     (case check_catalog_services G nodeName nodeID now {} services of
        Inl e \<Rightarrow> Inl e
      | Inr out \<Rightarrow> Inr (sort_slice (\<lambda>a b. service_key G a < service_key G b) out))"

definition privateCatalogSigningPayload :: "jsonlib \<Rightarrow> PrivateServiceCatalog \<Rightarrow> bytes" where
  "privateCatalogSigningPayload J cat = bytes_of (lines
     [pc_NodeID cat, pc_NodeName cat, pc_PublicKey cat, js_marshal_services J (pc_Services cat),
      pc_IssuedAt cat, pc_ExpiresAt cat])"

definition signPrivateCatalog :: "golib \<Rightarrow> jsonlib \<Rightarrow> Identity \<Rightarrow> PrivateServiceCatalog \<Rightarrow> string" where
  "signPrivateCatalog G J i cat =
     b64_encode StdEncoding (ed25519_sign G (id_PrivateKey i) (privateCatalogSigningPayload J cat))"

definition NewPrivateServiceCatalog ::
  "golib \<Rightarrow> jsonlib \<Rightarrow> Identity \<Rightarrow> string \<Rightarrow> ServiceRecord list \<Rightarrow> duration \<Rightarrow> time \<Rightarrow> value_error + PrivateServiceCatalog" where
  "NewPrivateServiceCatalog G J i nodeName services ttl now =
     (case NormalizeNodeName G nodeName of Inl e \<Rightarrow> Inl (ValueRecord e) | Inr canonicalName \<Rightarrow>
      if ttl \<le> 0 then Inl (ValueRecord TtlNotPositive)
      else (case Identity_Validate G i of Inl e \<Rightarrow> Inl (ValueRecord e) | Inr _ \<Rightarrow>
      (case normalizePrivateCatalogServices G canonicalName (id_NodeID i) services now of Inl e \<Rightarrow> Inl e | Inr normalized \<Rightarrow>
        let cat = \<lparr>pc_NodeID = id_NodeID i, pc_NodeName = canonicalName,
              pc_PublicKey = b64_encode StdEncoding (id_PublicKey i), pc_Services = normalized,
              pc_IssuedAt = rfc3339_format G now, pc_ExpiresAt = rfc3339_format G (now + ttl), pc_Signature = []\<rparr>
        in Inr (cat\<lparr>pc_Signature := signPrivateCatalog G J i cat\<rparr>))))"

definition VerifyPrivateServiceCatalog :: "golib \<Rightarrow> jsonlib \<Rightarrow> PrivateServiceCatalog \<Rightarrow> time \<Rightarrow> value_error + unit" where
  "VerifyPrivateServiceCatalog G J cat now =
     (if pc_NodeID cat = [] \<or> pc_NodeName cat = [] \<or> pc_PublicKey cat = [] \<or> pc_IssuedAt cat = [] \<or>
        pc_ExpiresAt cat = [] \<or> pc_Signature cat = [] then Inl (ValueRecord MissingFields)
      else case ValidateCanonicalNodeName G (pc_NodeName cat) of Inl e \<Rightarrow> Inl (ValueRecord e) | Inr _ \<Rightarrow>
      (case b64_decode StdEncoding (pc_PublicKey cat) of None \<Rightarrow> Inl (ValueRecord DecodePublicKey) | Some publicKey \<Rightarrow>
      (case b64_decode StdEncoding (pc_Signature cat) of None \<Rightarrow> Inl (ValueRecord DecodeSignature) | Some signature \<Rightarrow>
       if length publicKey \<noteq> 32 then Inl (ValueRecord InvalidPublicKey)
       else if length signature \<noteq> 64 then Inl (ValueRecord InvalidSignature)
       else if NodeIDFromPublicKey G publicKey \<noteq> pc_NodeID cat then Inl (ValueRecord NodeIDMismatch)
       else case rfc3339_parse G (pc_IssuedAt cat) of None \<Rightarrow> Inl (ValueRecord ParseIssuedAt) | Some issuedAt \<Rightarrow>
       (case rfc3339_parse G (pc_ExpiresAt cat) of None \<Rightarrow> Inl (ValueRecord ParseExpiresAt) | Some expiresAt \<Rightarrow>
        if \<not> expiresAt > issuedAt then Inl (ValueRecord ExpiryNotAfterIssue)
        else if now > expiresAt then Inl (ValueRecord Expired)
        else case normalizePrivateCatalogServices G (pc_NodeName cat) (pc_NodeID cat) (pc_Services cat) now of
          Inl e \<Rightarrow> Inl e
        | Inr _ \<Rightarrow>
            if \<not> ed25519_verify G publicKey (privateCatalogSigningPayload J cat) signature then
              Inl (ValueRecord SignatureFailed)
            else Inr ()))))"

definition DecodePrivateServiceCatalog :: "golib \<Rightarrow> jsonlib \<Rightarrow> string \<Rightarrow> time \<Rightarrow> value_error + PrivateServiceCatalog" where
  "DecodePrivateServiceCatalog G J raw now = (case js_catalog J raw of
     None \<Rightarrow> Inl DecodeCatalog
   | Some cat \<Rightarrow>
       (case VerifyPrivateServiceCatalog G J cat now of Inl e \<Rightarrow> Inl e | Inr _ \<Rightarrow> Inr cat))"

end
