(* ===== verification/Descriptor.thy ===== *)
theory Descriptor
  imports Envelope
begin

text \<open>
  Hidden service descriptors: \<^verbatim>\<open>internal/dht/hidden_descriptor.go\<close> and the blinded lookup keys and
  invites of \<^verbatim>\<open>internal/dht/dht.go\<close>. AES-GCM with associated data is the parameter \<open>aadlib\<close>;
  \<^verbatim>\<open>Open\<close> panics on a nonce that has not 12 bytes, which is the result \<open>None\<close>. \<^verbatim>\<open>clock\<close> is what
  \<^verbatim>\<open>time.Now\<close> returns where the code falls back to it.
\<close>

section \<open>\<^verbatim>\<open>strconv\<close>\<close>

definition is_digit :: "char \<Rightarrow> bool" where
  "is_digit c \<longleftrightarrow> 48 \<le> (of_char c :: nat) \<and> (of_char c :: nat) \<le> 57"

definition FormatInt :: "int \<Rightarrow> string" where
  "FormatInt n = (if n < 0 then CHR ''-'' # Itoa (nat (- n)) else Itoa (nat n))"

text \<open>\<^verbatim>\<open>strconv.ParseInt(s, 10, 64)\<close>; the range is that of \<^verbatim>\<open>int64\<close>.\<close>

definition ParseInt :: "string \<Rightarrow> int option" where
  "ParseInt s =
     (let (neg, ds) = (case s of
          [] \<Rightarrow> (False, [])
        | c # cs \<Rightarrow> if c = CHR ''+'' then (False, cs) else if c = CHR ''-'' then (True, cs) else (False, s));
          v = int (dec_value ds)
      in if ds = [] \<or> \<not> list_all is_digit ds then None
         else if neg then (if v \<le> 2 ^ 63 then Some (- v) else None)
         else if v < 2 ^ 63 then Some v else None)"

section \<open>Invites and blinded keys\<close>

record HiddenLookupRef =
  hr_Alias :: string
  hr_Secret :: string

definition ValidateHiddenLookupSecret :: "golib \<Rightarrow> string \<Rightarrow> value_error + unit" where
  "ValidateHiddenLookupSecret G secret =
     (if TrimSpace G secret = [] then Inl SecretEmpty
      else if ContainsAny secret [CHR '' '', CHR 0x09, CHR 0x0D, CHR 0x0A, CHR ''/'', CHR ''#''] then Inl SecretChars
      else if length secret < 16 then Inl SecretTooShort
      else Inr ())"

definition ParseHiddenLookupRef :: "golib \<Rightarrow> string \<Rightarrow> value_error + HiddenLookupRef" where
  "ParseHiddenLookupRef G input0 =
     (let input = TrimSpace G input0 in
      if input = [] then Inl RefEmpty
      else let (alias, rest) = (case Cut input (CHR ''#'') of
                 None \<Rightarrow> (input, None)
               | Some (a, b) \<Rightarrow> (a, Some b))
           in case ValidateHiddenAlias alias of Inl e \<Rightarrow> Inl (ValueRecord e) | Inr _ \<Rightarrow>
              (case rest of
                 None \<Rightarrow> Inr \<lparr>hr_Alias = alias, hr_Secret = []\<rparr>
               | Some s \<Rightarrow> let secret = TrimSpace G s in
                   (case ValidateHiddenLookupSecret G secret of
                      Inl e \<Rightarrow> Inl e
                    | Inr _ \<Rightarrow> Inr \<lparr>hr_Alias = alias, hr_Secret = secret\<rparr>)))"

definition ComposeHiddenLookupInvite :: "golib \<Rightarrow> string \<Rightarrow> string \<Rightarrow> string" where
  "ComposeHiddenLookupInvite G alias secret =
     (if TrimSpace G secret = [] then alias else alias @ ''#'' @ secret)"

text \<open>\<^verbatim>\<open>NewHiddenLookupSecret\<close>, from the 18 random bytes it draws.\<close>

definition NewHiddenLookupSecret :: "bytes \<Rightarrow> string" where
  "NewHiddenLookupSecret buf = b64_encode RawURLEncoding buf"

definition hiddenDescriptorEpoch :: "time \<Rightarrow> time \<Rightarrow> int" where
  "hiddenDescriptorEpoch clock now =
     (let u = Unix (if IsZero now then clock else now) in if u < 0 then - ((- u) div 3600) else u div 3600)"

definition hiddenServiceKeyForRefEpoch :: "golib \<Rightarrow> HiddenLookupRef \<Rightarrow> int \<Rightarrow> string" where
  "hiddenServiceKeyForRefEpoch G ref epoch =
     (let lookupSecret = (if TrimSpace G (hr_Secret ref) \<noteq> [] then hr_Secret ref else hr_Alias ref);
          sum = sha256 G (bytes_of (''vx6-hidden-desc-v1'' @ [CHR 0x0A] @ hr_Alias ref @ [CHR 0x0A] @ lookupSecret @
            [CHR 0x0A] @ FormatInt epoch))
      in ''hidden-desc/v1/'' @ FormatInt epoch @ ''/'' @ b64_encode RawURLEncoding (take 20 sum))"

definition hiddenServiceLookupKeysForRef :: "golib \<Rightarrow> time \<Rightarrow> HiddenLookupRef \<Rightarrow> time \<Rightarrow> string list" where
  "hiddenServiceLookupKeysForRef G clock ref now =
     (let current = hiddenDescriptorEpoch clock now; previous = current - 1
      in hiddenServiceKeyForRefEpoch G ref current #
         (if previous \<ge> 0 then [hiddenServiceKeyForRefEpoch G ref previous] else []))"

text \<open>A reference that does not parse is the zero \<^verbatim>\<open>HiddenLookupRef\<close>: the error is dropped.\<close>

definition parsed_ref :: "golib \<Rightarrow> string \<Rightarrow> HiddenLookupRef" where
  "parsed_ref G alias = (case ParseHiddenLookupRef G alias of
     Inr ref \<Rightarrow> ref | Inl _ \<Rightarrow> \<lparr>hr_Alias = [], hr_Secret = []\<rparr>)"

definition HiddenServiceKeyAt :: "golib \<Rightarrow> time \<Rightarrow> string \<Rightarrow> time \<Rightarrow> string" where
  "HiddenServiceKeyAt G clock alias now =
     hiddenServiceKeyForRefEpoch G (parsed_ref G alias) (hiddenDescriptorEpoch clock now)"

definition HiddenServiceLookupKeys :: "golib \<Rightarrow> time \<Rightarrow> string \<Rightarrow> time \<Rightarrow> string list" where
  "HiddenServiceLookupKeys G clock alias now =
     (let ref = parsed_ref G alias; current = hiddenDescriptorEpoch clock now; previous = current - 1
      in hiddenServiceKeyForRefEpoch G ref current #
         (if previous \<ge> 0 then [hiddenServiceKeyForRefEpoch G ref previous] else []))"

fun dedup_keys :: "string set \<Rightarrow> string list \<Rightarrow> string list" where
  "dedup_keys seen [] = []"
| "dedup_keys seen (key # keys) =
     (if key \<in> seen then dedup_keys seen keys else key # dedup_keys (insert key seen) keys)"

definition HiddenServicePublishKeys :: "golib \<Rightarrow> time \<Rightarrow> string \<Rightarrow> string \<Rightarrow> time \<Rightarrow> string list" where
  "HiddenServicePublishKeys G clock alias secret now =
     dedup_keys {} (hiddenServiceLookupKeysForRef G clock \<lparr>hr_Alias = alias, hr_Secret = secret\<rparr> now)"

definition parseHiddenDescriptorEpoch :: "string \<Rightarrow> value_error + int" where
  "parseHiddenDescriptorEpoch key =
     (let parts = Split key (CHR ''/'') in
      if length parts \<noteq> 4 \<or> parts ! 0 \<noteq> ''hidden-desc'' \<or> parts ! 1 \<noteq> ''v1'' \<or> parts ! 2 = [] \<or> parts ! 3 = [] then
        Inl (BadDescriptorKey key)
      else (case ParseInt (parts ! 2) of
          None \<Rightarrow> Inl (BadDescriptorEpoch key)
        | Some epoch \<Rightarrow> if epoch < 0 then Inl (BadDescriptorEpoch key) else Inr epoch))"

definition stringsHasHiddenDescriptorKey :: "string \<Rightarrow> bool" where
  "stringsHasHiddenDescriptorKey key \<longleftrightarrow>
     length key \<ge> length ''hidden-desc/v1/'' \<and> take (length ''hidden-desc/v1/'') key = ''hidden-desc/v1/''"

section \<open>Descriptors\<close>

record aadlib =
  gcm_seal_aad :: "bytes \<Rightarrow> bytes \<Rightarrow> bytes \<Rightarrow> bytes \<Rightarrow> bytes"          \<comment> \<open>key, nonce, plaintext, data\<close>
  gcm_open_aad :: "bytes \<Rightarrow> bytes \<Rightarrow> bytes \<Rightarrow> bytes \<Rightarrow> bytes option"   \<comment> \<open>key, nonce, ciphertext, data\<close>

definition hiddenDescriptorCipherKey :: "golib \<Rightarrow> string \<Rightarrow> string \<Rightarrow> int \<Rightarrow> bytes" where
  "hiddenDescriptorCipherKey G alias secret epoch =
     (let lookupSecret = (if secret \<noteq> [] then secret else alias) in
      sha256 G (bytes_of (''vx6-hidden-desc-v1-key'' @ [CHR 0x0A] @ alias @ [CHR 0x0A] @ lookupSecret @
        [CHR 0x0A] @ FormatInt epoch)))"

definition hiddenServiceTag :: "golib \<Rightarrow> ServiceRecord \<Rightarrow> string" where
  "hiddenServiceTag G rec = b64_encode RawURLEncoding (take 16 (sha256 G (bytes_of
     (''vx6-hidden-service-tag'' @ [CHR 0x0A] @ sv_NodeID rec @ [CHR 0x0A] @ sv_ServiceName rec @ [CHR 0x0A] @ sv_Alias rec))))"

definition hiddenDescriptorFingerprint :: "golib \<Rightarrow> HiddenDescriptor \<Rightarrow> string" where
  "hiddenDescriptorFingerprint G desc = b64_encode RawURLEncoding (take 12 (sha256 G (bytes_of
     (Join [hd_NodeID desc, hd_ServiceTag desc, hd_IssuedAt desc, hd_ExpiresAt desc, hd_Nonce desc, hd_Ciphertext desc]
       [CHR 0x0A]))))"

definition hiddenDescriptorAAD :: "string \<Rightarrow> string \<Rightarrow> string \<Rightarrow> bytes" where
  "hiddenDescriptorAAD lookupKey serviceTag nodeID =
     bytes_of (lines [''vx6-hidden-desc-v1'', lookupKey, serviceTag, nodeID])"

text \<open>The loop of \<^verbatim>\<open>marshalHiddenDescriptorPayload\<close> that finds the padded size.\<close>

function pad_target :: "nat \<Rightarrow> nat \<Rightarrow> nat" where
  "pad_target len target = (if len > target then pad_target len (target + 256) else target)"
  by pat_completeness auto
termination by (relation "measure (\<lambda>(len, target). len - target)") auto

declare pad_target.simps [simp del]

definition marshalHiddenDescriptorPayload :: "jsonlib \<Rightarrow> ServiceRecord \<Rightarrow> bytes" where
  "marshalHiddenDescriptorPayload J rec =
     (let raw = js_marshal_payload J \<lparr>hp_Record = rec, hp_Padding = []\<rparr>;
          target = pad_target (length raw) 1024;
          padding = replicate (target - length raw) (CHR ''x'');
          raw1 = js_marshal_payload J \<lparr>hp_Record = rec, hp_Padding = padding\<rparr>
      in if length raw1 < target then
           js_marshal_payload J \<lparr>hp_Record = rec,
             hp_Padding = padding @ replicate (target - length raw1) (CHR ''x'')\<rparr>
         else raw1)"

definition decodeHiddenDescriptorPayload :: "jsonlib \<Rightarrow> bytes \<Rightarrow> hiddenDescriptorPayload option" where
  "decodeHiddenDescriptorPayload J plaintext = (case js_payload J plaintext of
     None \<Rightarrow> None
   | Some payload \<Rightarrow>
       if sv_NodeID (hp_Record payload) = [] \<or> sv_ServiceName (hp_Record payload) = [] then None else Some payload)"

text \<open>\<^verbatim>\<open>EncodeHiddenServiceDescriptor\<close>, from the 12 random bytes of the nonce.\<close>

definition EncodeHiddenServiceDescriptor ::
  "golib \<Rightarrow> jsonlib \<Rightarrow> aadlib \<Rightarrow> bytes \<Rightarrow> ServiceRecord \<Rightarrow> string \<Rightarrow> string \<Rightarrow> value_error + string" where
  "EncodeHiddenServiceDescriptor G J A nonce rec lookupKey lookupSecret =
     (if \<not> sv_IsHidden rec \<or> sv_Alias rec = [] then Inl DescriptorNeedsAlias
      else case parseHiddenDescriptorEpoch lookupKey of Inl e \<Rightarrow> Inl e | Inr epoch \<Rightarrow>
        let key = hiddenDescriptorCipherKey G (sv_Alias rec) lookupSecret epoch;
            plaintext = marshalHiddenDescriptorPayload J rec;
            serviceTag = hiddenServiceTag G rec;
            ciphertext = gcm_seal_aad A key nonce plaintext (hiddenDescriptorAAD lookupKey serviceTag (sv_NodeID rec))
        in Inr (js_marshal_descriptor J \<lparr>hd_NodeID = sv_NodeID rec, hd_ServiceTag = serviceTag,
             hd_IssuedAt = sv_IssuedAt rec, hd_ExpiresAt = sv_ExpiresAt rec,
             hd_Nonce = b64_encode RawURLEncoding nonce, hd_Ciphertext = b64_encode RawURLEncoding ciphertext\<rparr>))"

definition parseHiddenDescriptor :: "golib \<Rightarrow> jsonlib \<Rightarrow> string \<Rightarrow> value_error + HiddenDescriptor" where
  "parseHiddenDescriptor G J raw = (case js_descriptor J raw of
     None \<Rightarrow> Inl DecodeValue
   | Some desc \<Rightarrow>
       if hd_NodeID desc = [] \<or> hd_ServiceTag desc = [] \<or> hd_IssuedAt desc = [] \<or> hd_ExpiresAt desc = [] \<or>
         hd_Nonce desc = [] \<or> hd_Ciphertext desc = [] then Inl DescriptorFields
       else if rfc3339_parse G (hd_IssuedAt desc) = None then Inl (ValueRecord ParseIssuedAt)
       else if rfc3339_parse G (hd_ExpiresAt desc) = None then Inl (ValueRecord ParseExpiresAt)
       else if b64_decode RawURLEncoding (hd_Nonce desc) = None then Inl DescriptorBase64
       else if b64_decode RawURLEncoding (hd_Ciphertext desc) = None then Inl DescriptorBase64
       else Inr desc)"

definition extractLookupPayload :: "golib \<Rightarrow> jsonlib \<Rightarrow> string \<Rightarrow> string \<Rightarrow> time \<Rightarrow> value_error + string" where
  "extractLookupPayload G J lookupKey storedValue now = (case maybeDecodeEnvelope J storedValue of
     Inl e \<Rightarrow> Inl e
   | Inr None \<Rightarrow> Inr storedValue
   | Inr (Some env) \<Rightarrow>
       (case verifyEnvelope G lookupKey env now of Inl e \<Rightarrow> Inl e | Inr _ \<Rightarrow> Inr (se_Value env)))"

definition extractHiddenDescriptor :: "golib \<Rightarrow> jsonlib \<Rightarrow> string \<Rightarrow> string \<Rightarrow> time \<Rightarrow> value_error + HiddenDescriptor" where
  "extractHiddenDescriptor G J lookupKey storedValue now =
     (case extractLookupPayload G J lookupKey storedValue now of
        Inl e \<Rightarrow> Inl e
      | Inr payload \<Rightarrow> parseHiddenDescriptor G J payload)"

definition decodeLegacyHiddenServiceRecord ::
  "golib \<Rightarrow> jsonlib \<Rightarrow> string \<Rightarrow> string \<Rightarrow> string \<Rightarrow> time \<Rightarrow> value_error + ServiceRecord" where
  "decodeLegacyHiddenServiceRecord G J lookupKey storedValue alias now =
     (case extractLookupPayload G J lookupKey storedValue now of Inl e \<Rightarrow> Inl e | Inr payload \<Rightarrow>
      (case js_service J payload of None \<Rightarrow> Inl DecodeValue | Some rec \<Rightarrow>
      (case VerifyServiceRecord G rec now of Inl e \<Rightarrow> Inl (ValueRecord e) | Inr _ \<Rightarrow>
       if \<not> sv_IsHidden rec \<or> sv_Alias rec \<noteq> alias then Inl (KeyMismatch (sv_Alias rec) alias)
       else if stringsHasHiddenDescriptorKey lookupKey then
         (case parseHiddenDescriptorEpoch lookupKey of Inl e \<Rightarrow> Inl e | Inr epoch \<Rightarrow>
          let expected = hiddenServiceKeyForRefEpoch G \<lparr>hr_Alias = sv_Alias rec, hr_Secret = []\<rparr> epoch in
          if expected \<noteq> lookupKey then Inl (KeyMismatch lookupKey expected) else Inr rec)
       else Inr rec)))"

text \<open>The part of \<^verbatim>\<open>DecodeHiddenServiceRecord\<close> after the decryption.\<close>

definition check_decrypted ::
  "golib \<Rightarrow> jsonlib \<Rightarrow> HiddenDescriptor \<Rightarrow> HiddenLookupRef \<Rightarrow> bytes \<Rightarrow> time \<Rightarrow> value_error + ServiceRecord" where
  "check_decrypted G J desc ref plaintext now =
     (case (case decodeHiddenDescriptorPayload J plaintext of
              Some payload \<Rightarrow> Some (hp_Record payload)
            | None \<Rightarrow> js_service J (string_of plaintext)) of
        None \<Rightarrow> Inl DecodeValue
      | Some rec \<Rightarrow>
       (case VerifyServiceRecord G rec now of Inl e \<Rightarrow> Inl (ValueRecord e) | Inr _ \<Rightarrow>
        if \<not> sv_IsHidden rec \<or> sv_Alias rec \<noteq> hr_Alias ref then Inl (KeyMismatch (sv_Alias rec) (hr_Alias ref))
        else if sv_NodeID rec \<noteq> hd_NodeID desc then Inl DescriptorMismatch
        else if sv_IssuedAt rec \<noteq> hd_IssuedAt desc \<or> sv_ExpiresAt rec \<noteq> hd_ExpiresAt desc then Inl DescriptorMismatch
        else if hiddenServiceTag G rec \<noteq> hd_ServiceTag desc then Inl DescriptorMismatch
        else Inr rec))"

definition DecodeHiddenServiceRecord ::
  "golib \<Rightarrow> jsonlib \<Rightarrow> aadlib \<Rightarrow> string \<Rightarrow> string \<Rightarrow> string \<Rightarrow> time \<Rightarrow> (value_error + ServiceRecord) option" where
  "DecodeHiddenServiceRecord G J A lookupKey storedValue alias now =
     (case extractHiddenDescriptor G J lookupKey storedValue now of
        Inl e \<Rightarrow> Some (case decodeLegacyHiddenServiceRecord G J lookupKey storedValue alias now of
            Inr legacy \<Rightarrow> Inr legacy
          | Inl _ \<Rightarrow> Inl e)
      | Inr desc \<Rightarrow>
       (case ParseHiddenLookupRef G alias of Inl e \<Rightarrow> Some (Inl e) | Inr ref \<Rightarrow>
       (case parseHiddenDescriptorEpoch lookupKey of Inl e \<Rightarrow> Some (Inl e) | Inr epoch \<Rightarrow>
       (case b64_decode RawURLEncoding (hd_Nonce desc) of None \<Rightarrow> Some (Inl DescriptorBase64) | Some nonce \<Rightarrow>
       (case b64_decode RawURLEncoding (hd_Ciphertext desc) of None \<Rightarrow> Some (Inl DescriptorBase64) | Some ciphertext \<Rightarrow>
        if length nonce \<noteq> 12 then None
        else (case gcm_open_aad A (hiddenDescriptorCipherKey G (hr_Alias ref) (hr_Secret ref) epoch) nonce ciphertext
               (hiddenDescriptorAAD lookupKey (hd_ServiceTag desc) (hd_NodeID desc)) of
            None \<Rightarrow> Some (Inl DescriptorDecrypt)
          | Some plaintext \<Rightarrow> Some (check_decrypted G J desc ref plaintext now)))))))"

end
