(* ===== verification/LookupValue.thy ===== *)
theory LookupValue
  imports Descriptor
begin

text \<open>
  Validation and choice of DHT values: \<^verbatim>\<open>validateLookupValue\<close>, \<^verbatim>\<open>chooseStoredValue\<close> and their helpers
  of \<^verbatim>\<open>internal/dht/value.go\<close>. Strings are compared bytewise.
\<close>

section \<open>Definitions\<close>

definition zero_value :: validatedValue where
  "zero_value = \<lparr>vv_storedRaw = [], vv_raw = [], vv_verified = False, vv_family = [], vv_fingerprint = [],
     vv_issuedAt = 0, vv_expiresAt = 0, vv_version = 0, vv_sequenceBased = False, vv_originNodeID = [],
     vv_publisherNodeID = [], vv_enveloped = False, vv_authoritativePublisher = False\<rparr>"

definition recordTimes :: "golib \<Rightarrow> string \<Rightarrow> string \<Rightarrow> value_error + (time \<times> time \<times> u64)" where
  "recordTimes G issuedAtRaw expiresAtRaw =
     (case rfc3339_parse G issuedAtRaw of None \<Rightarrow> Inl (ValueRecord ParseIssuedAt) | Some issuedAt \<Rightarrow>
      (case rfc3339_parse G expiresAtRaw of None \<Rightarrow> Inl (ValueRecord ParseExpiresAt) | Some expiresAt \<Rightarrow>
       Inr (issuedAt, expiresAt, word_of_int (Unix issuedAt))))"

definition rawFingerprint :: "golib \<Rightarrow> string \<Rightarrow> string" where
  "rawFingerprint G raw = b64_encode RawURLEncoding (take 12 (sha256 G (bytes_of raw)))"

definition serviceFingerprint :: "golib \<Rightarrow> ServiceRecord \<Rightarrow> string" where
  "serviceFingerprint G rec = b64_encode RawURLEncoding (take 12 (sha256 G (bytes_of
     (sv_Signature rec @ [CHR 0x0A] @ sv_IssuedAt rec @ [CHR 0x0A] @ sv_ExpiresAt rec))))"

text \<open>The value every branch of \<^verbatim>\<open>validateInnerLookupValue\<close> for a signed record builds.\<close>

definition verified_value ::
  "string \<Rightarrow> string \<Rightarrow> string \<Rightarrow> time \<times> time \<times> u64 \<Rightarrow> string \<Rightarrow> validatedValue" where
  "verified_value raw family fingerprint ts origin = (case ts of (issuedAt, expiresAt, version) \<Rightarrow>
     zero_value\<lparr>vv_storedRaw := raw, vv_raw := raw, vv_verified := True, vv_family := family,
       vv_fingerprint := fingerprint, vv_issuedAt := issuedAt, vv_expiresAt := expiresAt, vv_version := version,
       vv_originNodeID := origin\<rparr>)"

definition endpoint_value :: "golib \<Rightarrow> string \<Rightarrow> EndpointRecord \<Rightarrow> value_error + validatedValue" where
  "endpoint_value G raw rec = (case recordTimes G (er_IssuedAt rec) (er_ExpiresAt rec) of
     Inl e \<Rightarrow> Inl e
   | Inr (issuedAt, expiresAt, _) \<Rightarrow>
       Inr ((verified_value raw (''endpoint:'' @ er_NodeID rec) (Fingerprint G rec)
           (issuedAt, expiresAt, EndpointRecordSequenceVersion G rec) (er_NodeID rec))
         \<lparr>vv_sequenceBased := er_Version rec \<ge> 2\<rparr>))"

definition decode_verified_endpoint :: "golib \<Rightarrow> jsonlib \<Rightarrow> string \<Rightarrow> time \<Rightarrow> value_error + EndpointRecord" where
  "decode_verified_endpoint G J raw now =
     (case Decode (js_tokens J) (js_endpoint J) raw of Inl e \<Rightarrow> Inl (DecodeEndpoint e) | Inr rec \<Rightarrow>
      (case VerifyEndpointRecord G rec now of Inl e \<Rightarrow> Inl (ValueRecord e) | Inr _ \<Rightarrow> Inr rec))"

definition decode_verified_service :: "golib \<Rightarrow> jsonlib \<Rightarrow> string \<Rightarrow> time \<Rightarrow> value_error + ServiceRecord" where
  "decode_verified_service G J raw now =
     (case js_service J raw of None \<Rightarrow> Inl DecodeValue | Some rec \<Rightarrow>
      (case VerifyServiceRecord G rec now of Inl e \<Rightarrow> Inl (ValueRecord e) | Inr _ \<Rightarrow> Inr rec))"

definition service_value :: "golib \<Rightarrow> string \<Rightarrow> string \<Rightarrow> ServiceRecord \<Rightarrow> value_error + validatedValue" where
  "service_value G raw family rec = (case recordTimes G (sv_IssuedAt rec) (sv_ExpiresAt rec) of
     Inl e \<Rightarrow> Inl e
   | Inr ts \<Rightarrow> Inr (verified_value raw family (serviceFingerprint G rec) ts (sv_NodeID rec)))"

definition validate_name :: "golib \<Rightarrow> jsonlib \<Rightarrow> string \<Rightarrow> string \<Rightarrow> time \<Rightarrow> value_error + validatedValue" where
  "validate_name G J key raw now =
     (case decode_verified_endpoint G J raw now of Inl e \<Rightarrow> Inl e | Inr rec \<Rightarrow>
      if NodeNameKey G (er_NodeName rec) \<noteq> key then Inl (KeyMismatch (er_NodeName rec) key)
      else endpoint_value G raw rec)"

definition validate_id :: "golib \<Rightarrow> jsonlib \<Rightarrow> string \<Rightarrow> string \<Rightarrow> time \<Rightarrow> value_error + validatedValue" where
  "validate_id G J key raw now =
     (case decode_verified_endpoint G J raw now of Inl e \<Rightarrow> Inl e | Inr rec \<Rightarrow>
      if er_NodeID rec \<noteq> TrimPrefix key ''node/id/'' then Inl (KeyMismatch (er_NodeID rec) key)
      else endpoint_value G raw rec)"

definition validate_service :: "golib \<Rightarrow> jsonlib \<Rightarrow> string \<Rightarrow> string \<Rightarrow> time \<Rightarrow> value_error + validatedValue" where
  "validate_service G J key raw now =
     (let want = TrimPrefix key ''service/'' in
      case decode_verified_service G J raw now of Inl e \<Rightarrow> Inl e | Inr rec \<Rightarrow>
      if sv_IsPrivate rec then Inl (PrivateInPublic want)
      else if service_key G rec \<noteq> want then Inl (KeyMismatch (service_key G rec) want)
      else service_value G raw (''service:'' @ sv_NodeID rec @ '':'' @ want) rec)"

definition validate_catalog :: "golib \<Rightarrow> jsonlib \<Rightarrow> string \<Rightarrow> string \<Rightarrow> time \<Rightarrow> value_error + validatedValue" where
  "validate_catalog G J key raw now =
     (let want = TrimPrefix key ''private-catalog/'' in
      case DecodePrivateServiceCatalog G J raw now of Inl e \<Rightarrow> Inl e | Inr cat \<Rightarrow>
      if pc_NodeName cat \<noteq> want then Inl (KeyMismatch (pc_NodeName cat) want)
      else (case recordTimes G (pc_IssuedAt cat) (pc_ExpiresAt cat) of
          Inl e \<Rightarrow> Inl e
        | Inr ts \<Rightarrow> Inr (verified_value raw (''private-catalog:'' @ pc_NodeID cat @ '':'' @ want)
            (rawFingerprint G (pc_Signature cat @ [CHR 0x0A] @ pc_IssuedAt cat @ [CHR 0x0A] @ pc_ExpiresAt cat))
            ts (pc_NodeID cat))))"

definition validate_hidden :: "golib \<Rightarrow> jsonlib \<Rightarrow> string \<Rightarrow> string \<Rightarrow> time \<Rightarrow> value_error + validatedValue" where
  "validate_hidden G J key raw now =
     (let want = TrimPrefix key ''hidden/'' in
      case decode_verified_service G J raw now of Inl e \<Rightarrow> Inl e | Inr rec \<Rightarrow>
      if \<not> sv_IsHidden rec \<or> sv_Alias rec \<noteq> want then Inl (KeyMismatch (sv_Alias rec) want)
      else service_value G raw (''hidden:'' @ sv_NodeID rec @ '':'' @ want) rec)"

definition validate_descriptor :: "golib \<Rightarrow> jsonlib \<Rightarrow> string \<Rightarrow> string \<Rightarrow> time \<Rightarrow> value_error + validatedValue" where
  "validate_descriptor G J key raw now =
     (case parseHiddenDescriptorEpoch key of Inl e \<Rightarrow> Inl e | Inr epoch \<Rightarrow>
      (case parseHiddenDescriptor G J raw of
         Inr desc \<Rightarrow>
           (case recordTimes G (hd_IssuedAt desc) (hd_ExpiresAt desc) of
              Inl e \<Rightarrow> Inl e
            | Inr ts \<Rightarrow> Inr (verified_value raw (''hidden:'' @ hd_NodeID desc @ '':'' @ hd_ServiceTag desc)
                (hiddenDescriptorFingerprint G desc) ts (hd_NodeID desc)))
       | Inl _ \<Rightarrow>
           (case decode_verified_service G J raw now of Inl e \<Rightarrow> Inl e | Inr rec \<Rightarrow>
            if \<not> sv_IsHidden rec \<or> sv_Alias rec = [] then Inl DescriptorNeedsAlias
            else let expected = hiddenServiceKeyForRefEpoch G \<lparr>hr_Alias = sv_Alias rec, hr_Secret = []\<rparr> epoch in
              if expected \<noteq> key then Inl (KeyMismatch key expected)
              else service_value G raw (''hidden:'' @ sv_NodeID rec @ '':'' @ hiddenServiceTag G rec) rec)))"

definition validateInnerLookupValue ::
  "golib \<Rightarrow> jsonlib \<Rightarrow> string \<Rightarrow> string \<Rightarrow> time \<Rightarrow> value_error + validatedValue" where
  "validateInnerLookupValue G J key raw now =
     (if HasPrefix key ''node/name/'' then validate_name G J key raw now
      else if HasPrefix key ''node/id/'' then validate_id G J key raw now
      else if HasPrefix key ''service/'' then validate_service G J key raw now
      else if HasPrefix key ''private-catalog/'' then validate_catalog G J key raw now
      else if HasPrefix key ''hidden/'' then validate_hidden G J key raw now
      else if HasPrefix key ''hidden-desc/v1/'' then validate_descriptor G J key raw now
      else Inr (zero_value\<lparr>vv_storedRaw := raw, vv_raw := raw, vv_fingerprint := rawFingerprint G raw\<rparr>))"

definition validateLookupValue ::
  "golib \<Rightarrow> jsonlib \<Rightarrow> string \<Rightarrow> string \<Rightarrow> time \<Rightarrow> value_error + validatedValue" where
  "validateLookupValue G J key raw now = (case maybeDecodeEnvelope J raw of
     Inl e \<Rightarrow> Inl e
   | Inr None \<Rightarrow> validateInnerLookupValue G J key raw now
   | Inr (Some env) \<Rightarrow>
      (case verifyEnvelope G key env now of Inl e \<Rightarrow> Inl e | Inr _ \<Rightarrow>
      (case validateInnerLookupValue G J key (se_Value env) now of Inl e \<Rightarrow> Inl e | Inr v \<Rightarrow>
       if vv_verified v \<and> se_OriginNodeID env \<noteq> vv_originNodeID v then
         Inl (EnvelopeOrigin (se_OriginNodeID env) (vv_originNodeID v))
       else if vv_verified v \<and> se_Version env \<noteq> vv_version v then
         Inl (EnvelopeVersion (se_Version env) (vv_version v))
       else if vv_verified v \<and> se_IssuedAt env \<noteq> rfc3339_format G (vv_issuedAt v) then Inl EnvelopeIssuedAt
       else if vv_verified v \<and> se_ExpiresAt env \<noteq> rfc3339_format G (vv_expiresAt v) then Inl EnvelopeExpiresAt
       else Inr (v\<lparr>vv_storedRaw := raw, vv_publisherNodeID := se_PublisherNodeID env, vv_enveloped := True,
              vv_authoritativePublisher :=
                vv_originNodeID v \<noteq> [] \<and> se_PublisherNodeID env = vv_originNodeID v\<rparr>))))"

definition isNewerValue :: "validatedValue \<Rightarrow> validatedValue \<Rightarrow> bool" where
  "isNewerValue candidate current =
     (if vv_version candidate > vv_version current then True
      else if vv_version candidate < vv_version current then False
      else if vv_sequenceBased candidate \<and> vv_sequenceBased current then
        vv_fingerprint candidate > vv_fingerprint current
      else if vv_issuedAt candidate > vv_issuedAt current then True
      else if vv_issuedAt candidate < vv_issuedAt current then False
      else vv_fingerprint candidate > vv_fingerprint current)"

text \<open>
  \<^verbatim>\<open>chooseStoredValue\<close> returns five values: the stored string, whether it changed, the validated
  existing and incoming values and the error.
\<close>

record stored_choice =
  ch_stored :: string
  ch_changed :: bool
  ch_existing :: validatedValue
  ch_incoming :: validatedValue
  ch_err :: "value_error option"

definition chooseStoredValue ::
  "golib \<Rightarrow> jsonlib \<Rightarrow> string \<Rightarrow> string \<Rightarrow> string \<Rightarrow> time \<Rightarrow> stored_choice" where
  "chooseStoredValue G J key existing incoming now =
     (let choice = (\<lambda>s c ev iv e. \<lparr>ch_stored = s, ch_changed = c, ch_existing = ev, ch_incoming = iv, ch_err = e\<rparr>) in
      case validateLookupValue G J key incoming now of
        Inl e \<Rightarrow> choice [] False zero_value zero_value (Some e)
      | Inr iv \<Rightarrow>
          if existing = [] then choice incoming True zero_value iv None
          else (case validateLookupValue G J key existing now of
             Inl _ \<Rightarrow> choice incoming True zero_value iv None
           | Inr ev \<Rightarrow>
               if \<not> vv_verified iv then
                 (if existing = incoming then choice existing False ev iv None else choice incoming True ev iv None)
               else if \<not> vv_verified ev then choice incoming True ev iv None
               else if vv_family ev \<noteq> vv_family iv then
                 choice existing False ev iv (Some (ConflictingValues (vv_family ev) (vv_family iv)))
               else if vv_fingerprint iv = vv_fingerprint ev then choice existing False ev iv None
               else if isNewerValue iv ev then choice incoming True ev iv None
               else choice existing False ev iv None))"

end
