(* ===== verification/JsonLaws.thy ===== *)
theory JsonLaws
  imports Descriptor
begin

text \<open>
  What the proofs about DHT values assume of \<^verbatim>\<open>encoding/json\<close> and of AES-GCM with associated data,
  and concrete instances of these parameters (\<open>demo_jsonlib\<close>, \<open>demo_aad\<close>). JSON keeps every string
  whose bytes are ASCII; \<^verbatim>\<open>Unmarshal\<close> ignores unknown fields, so a descriptor read as an envelope
  has only the two fields the types share; padding characters are printed as they are.
\<close>

section \<open>Laws\<close>

definition se_fields :: "SignedEnvelope \<Rightarrow> string list" where
  "se_fields e = [se_Key e, se_Value e, se_OriginNodeID e, se_PublisherNodeID e, se_PublisherPublicKey e,
     se_IssuedAt e, se_ExpiresAt e, se_ObservedAt e, se_Signature e]"

definition envelope_json_ok :: "jsonlib \<Rightarrow> bool" where
  "envelope_json_ok J \<longleftrightarrow>
     (\<forall>e. list_all is_ascii (se_fields e) \<longrightarrow> js_envelope J (js_marshal_envelope J e) = Some e)"

definition hd_fields :: "HiddenDescriptor \<Rightarrow> string list" where
  "hd_fields d = [hd_NodeID d, hd_ServiceTag d, hd_IssuedAt d, hd_ExpiresAt d, hd_Nonce d, hd_Ciphertext d]"

definition descriptor_json_ok :: "jsonlib \<Rightarrow> bool" where
  "descriptor_json_ok J \<longleftrightarrow> (\<forall>d. list_all is_ascii (hd_fields d) \<longrightarrow>
     js_descriptor J (js_marshal_descriptor J d) = Some d \<and>
     js_envelope J (js_marshal_descriptor J d) = Some \<lparr>se_Key = [], se_Value = [], se_OriginNodeID = [],
       se_PublisherNodeID = [], se_PublisherPublicKey = [], se_Version = 0, se_IssuedAt = hd_IssuedAt d,
       se_ExpiresAt = hd_ExpiresAt d, se_ObservedAt = [], se_Signature = []\<rparr>)"

definition sv_strings :: "ServiceRecord \<Rightarrow> string list" where
  "sv_strings r = [sv_NodeID r, sv_NodeName r, sv_ServiceName r, sv_Alias r, sv_Address r, sv_HiddenProfile r,
     sv_PublicKey r, sv_IssuedAt r, sv_ExpiresAt r, sv_Signature r] @ sv_IntroPoints r @ sv_StandbyIntroPoints r"

definition payload_json_ok :: "jsonlib \<Rightarrow> bool" where
  "payload_json_ok J \<longleftrightarrow> (\<forall>r n. list_all is_ascii (sv_strings r) \<longrightarrow>
     (let m = (\<lambda>n. js_marshal_payload J \<lparr>hp_Record = r, hp_Padding = replicate n (CHR ''x'')\<rparr>) in
      js_payload J (m n) = Some \<lparr>hp_Record = r, hp_Padding = replicate n (CHR ''x'')\<rparr> \<and>
      length (m n) = length (m 0) + n))"

definition aad_ok :: "aadlib \<Rightarrow> bool" where
  "aad_ok A \<longleftrightarrow> (\<forall>k n p d. length n = 12 \<longrightarrow> gcm_open_aad A k n (gcm_seal_aad A k n p d) d = Some p \<and>
     length (gcm_seal_aad A k n p d) = length p + 16)"

definition rfc3339_ascii :: "golib \<Rightarrow> bool" where
  "rfc3339_ascii G \<longleftrightarrow> (\<forall>t. is_ascii (rfc3339_format G t))"

lemma demo_rfc3339_ascii: "rfc3339_ascii demo_lib"
  by (simp add: rfc3339_ascii_def demo_lib_def)

lemma ascii_NodeID [simp]: "is_ascii (NodeIDFromPublicKey G k)"
  unfolding NodeIDFromPublicKey_def using ascii_Encode [of "sha256 G k"] by (simp add: is_ascii_def)

section \<open>A concrete JSON library\<close>

definition pack1 :: "string \<Rightarrow> string" where
  "pack1 s = replicate (length s) (CHR ''1'') @ CHR ''0'' # s"

definition unpack1 :: "string \<Rightarrow> string \<times> string" where
  "unpack1 t = (let n = length (takeWhile ((=) (CHR ''1'')) t); r = drop (Suc n) t in (take n r, drop n r))"

definition pack :: "string list \<Rightarrow> string" where
  "pack ss = concat (map pack1 ss)"

fun unpack :: "nat \<Rightarrow> string \<Rightarrow> string list" where
  "unpack 0 t = []"
| "unpack (Suc n) t = fst (unpack1 t) # unpack n (snd (unpack1 t))"

lemma unpack1_pack1 [simp]: "unpack1 (pack1 s @ t) = (s, t)"
proof -
  have "takeWhile ((=) (CHR ''1'')) (pack1 s @ t) = replicate (length s) (CHR ''1'')"
    by (simp add: pack1_def takeWhile_append)
  then show ?thesis by (simp add: unpack1_def pack1_def Let_def)
qed

lemma unpack_pack: "length ss = n \<Longrightarrow> unpack n (pack ss @ t) = ss"
  by (induction ss arbitrary: n) (auto simp: pack_def)

lemmas unpack_pack_all = unpack_pack [where t = "[]", simplified]

definition pack_list :: "string list \<Rightarrow> string" where
  "pack_list ss = pack1 (Itoa (length ss)) @ pack ss"

definition unpack_list :: "string \<Rightarrow> string list" where
  "unpack_list t = unpack (dec_value (fst (unpack1 t))) (snd (unpack1 t))"

lemma unpack_pack_list [simp]: "unpack_list (pack_list ss) = ss"
  by (simp add: unpack_list_def pack_list_def unpack_pack_all)

definition demo_bool :: "bool \<Rightarrow> string" where
  "demo_bool b = (if b then ''1'' else [])"

definition demo_service_text :: "ServiceRecord \<Rightarrow> string" where
  "demo_service_text r = CHR ''S'' # pack [sv_NodeID r, sv_NodeName r, sv_ServiceName r, sv_Alias r, sv_Address r,
     demo_bool (sv_IsHidden r), demo_bool (sv_IsPrivate r), sv_HiddenProfile r, pack_list (sv_IntroPoints r),
     pack_list (sv_StandbyIntroPoints r), sv_PublicKey r, sv_IssuedAt r, sv_ExpiresAt r, sv_Signature r]"

definition demo_service_of :: "string \<Rightarrow> ServiceRecord option" where
  "demo_service_of t = (if t = [] \<or> hd t \<noteq> CHR ''S'' then None
     else let f = unpack 14 (tl t) in Some \<lparr>sv_NodeID = f ! 0, sv_NodeName = f ! 1, sv_ServiceName = f ! 2,
       sv_Alias = f ! 3, sv_Address = f ! 4, sv_IsHidden = (f ! 5 \<noteq> []), sv_IsPrivate = (f ! 6 \<noteq> []),
       sv_HiddenProfile = f ! 7, sv_IntroPoints = unpack_list (f ! 8), sv_StandbyIntroPoints = unpack_list (f ! 9),
       sv_PublicKey = f ! 10, sv_IssuedAt = f ! 11, sv_ExpiresAt = f ! 12, sv_Signature = f ! 13\<rparr>)"

definition demo_endpoint_text :: "EndpointRecord \<Rightarrow> string" where
  "demo_endpoint_text r = CHR ''P'' # pack [Itoa (unat (er_Version r)), Itoa (unat (er_Sequence r)), er_NodeID r,
     er_NodeName r, er_Address r, er_PublicKey r, er_IssuedAt r, er_ExpiresAt r, er_Signature r]"

definition demo_endpoint_of :: "string \<Rightarrow> json_error + (EndpointRecord \<times> (json_error + unit))" where
  "demo_endpoint_of t = (if t = [] \<or> hd t \<noteq> CHR ''P'' then Inl SyntaxError
     else let f = unpack 9 (tl t) in Inr (\<lparr>er_Version = of_nat (dec_value (f ! 0)), er_Sequence = of_nat (dec_value (f ! 1)),
       er_NodeID = f ! 2, er_NodeName = f ! 3, er_Address = f ! 4, er_PublicKey = f ! 5, er_IssuedAt = f ! 6,
       er_ExpiresAt = f ! 7, er_Signature = f ! 8\<rparr>, Inl IoEOF))"

definition demo_envelope_text :: "SignedEnvelope \<Rightarrow> string" where
  "demo_envelope_text e = CHR ''E'' # pack (Itoa (unat (se_Version e)) # se_fields e)"

definition demo_descriptor_text :: "HiddenDescriptor \<Rightarrow> string" where
  "demo_descriptor_text d = CHR ''D'' # pack (hd_fields d)"

definition demo_envelope_of :: "string \<Rightarrow> SignedEnvelope option" where
  "demo_envelope_of t =
     (if t = [] then None
      else if hd t = CHR ''E'' then let f = unpack 10 (tl t) in Some \<lparr>se_Key = f ! 1, se_Value = f ! 2,
        se_OriginNodeID = f ! 3, se_PublisherNodeID = f ! 4, se_PublisherPublicKey = f ! 5,
        se_Version = of_nat (dec_value (f ! 0)), se_IssuedAt = f ! 6, se_ExpiresAt = f ! 7, se_ObservedAt = f ! 8,
        se_Signature = f ! 9\<rparr>
      else if hd t = CHR ''D'' then let f = unpack 6 (tl t) in Some \<lparr>se_Key = [], se_Value = [], se_OriginNodeID = [],
        se_PublisherNodeID = [], se_PublisherPublicKey = [], se_Version = 0, se_IssuedAt = f ! 2, se_ExpiresAt = f ! 3,
        se_ObservedAt = [], se_Signature = []\<rparr>
      else None)"

definition demo_descriptor_of :: "string \<Rightarrow> HiddenDescriptor option" where
  "demo_descriptor_of t = (if t = [] \<or> hd t \<noteq> CHR ''D'' then None
     else let f = unpack 6 (tl t) in Some \<lparr>hd_NodeID = f ! 0, hd_ServiceTag = f ! 1, hd_IssuedAt = f ! 2,
       hd_ExpiresAt = f ! 3, hd_Nonce = f ! 4, hd_Ciphertext = f ! 5\<rparr>)"

definition demo_payload_of :: "bytes \<Rightarrow> hiddenDescriptorPayload option" where
  "demo_payload_of bs = (let (s, pad) = unpack1 (string_of bs) in
     case demo_service_of s of None \<Rightarrow> None | Some r \<Rightarrow> Some \<lparr>hp_Record = r, hp_Padding = pad\<rparr>)"

definition demo_catalog_text :: "PrivateServiceCatalog \<Rightarrow> string" where
  "demo_catalog_text c = CHR ''C'' # pack [pc_NodeID c, pc_NodeName c, pc_PublicKey c,
     pack_list (map demo_service_text (pc_Services c)), pc_IssuedAt c, pc_ExpiresAt c, pc_Signature c]"

definition demo_catalog_of :: "string \<Rightarrow> PrivateServiceCatalog option" where
  "demo_catalog_of t = (if t = [] \<or> hd t \<noteq> CHR ''C'' then None
     else let f = unpack 7 (tl t) in Some \<lparr>pc_NodeID = f ! 0, pc_NodeName = f ! 1, pc_PublicKey = f ! 2,
       pc_Services = map (\<lambda>s. the (demo_service_of s)) (unpack_list (f ! 3)), pc_IssuedAt = f ! 4,
       pc_ExpiresAt = f ! 5, pc_Signature = f ! 6\<rparr>)"

definition demo_jsonlib :: jsonlib where
  "demo_jsonlib = \<lparr>
     js_tokens = (\<lambda>_. \<lparr>toks = [NullTok], tail_err = IoEOF\<rparr>),
     js_endpoint = demo_endpoint_of,
     js_service = demo_service_of,
     js_marshal_services = (\<lambda>rs. pack_list (map demo_service_text rs)),
     js_envelope = demo_envelope_of,
     js_marshal_envelope = demo_envelope_text,
     js_catalog = demo_catalog_of,
     js_descriptor = demo_descriptor_of,
     js_marshal_descriptor = demo_descriptor_text,
     js_payload = demo_payload_of,
     js_marshal_payload = (\<lambda>p. bytes_of (pack1 (demo_service_text (hp_Record p)) @ hp_Padding p))\<rparr>"

definition demo_aad :: aadlib where
  "demo_aad = \<lparr>gcm_seal_aad = (\<lambda>k n p d. replicate 16 0 @ p),
     gcm_open_aad = (\<lambda>k n c d. if length c \<ge> 16 then Some (drop 16 c) else None)\<rparr>"

lemma demo_service_of_text [simp]: "demo_service_of (demo_service_text r) = Some r"
  by (simp add: demo_service_of_def demo_service_text_def unpack_pack_all Let_def demo_bool_def)

lemma demo_endpoint_of_text [simp]: "demo_endpoint_of (demo_endpoint_text r) = Inr (r, Inl IoEOF)"
  by (simp add: demo_endpoint_of_def demo_endpoint_text_def unpack_pack_all Let_def)

lemma demo_catalog_of_text [simp]: "demo_catalog_of (demo_catalog_text c) = Some c"
  by (simp add: demo_catalog_of_def demo_catalog_text_def unpack_pack_all Let_def comp_def)

lemma demo_jsonlib_ok: "envelope_json_ok demo_jsonlib" "descriptor_json_ok demo_jsonlib" "payload_json_ok demo_jsonlib"
  by (simp_all add: envelope_json_ok_def descriptor_json_ok_def payload_json_ok_def demo_jsonlib_def demo_envelope_of_def
      demo_envelope_text_def demo_descriptor_of_def demo_descriptor_text_def demo_payload_of_def se_fields_def hd_fields_def
      unpack_pack_all Let_def del: bytes_of_append)

lemma demo_aad_ok: "aad_ok demo_aad"
  by (simp add: aad_ok_def demo_aad_def)

end
