(* ===== verification/ValueFacts.thy ===== *)
theory ValueFacts
  imports LookupValue JsonLaws
begin

text \<open>
  What validation and choice of DHT values guarantee: signed key spaces, the order of values, the
  stored value never going back, and envelopes that validate.
\<close>

section \<open>Signed key spaces\<close>

definition signed_key :: "string \<Rightarrow> bool" where
  "signed_key key \<longleftrightarrow> list_ex (HasPrefix key)
     [''node/name/'', ''node/id/'', ''service/'', ''private-catalog/'', ''hidden/'', ''hidden-desc/v1/'']"

lemma verified_value_sel [simp]:
  "vv_verified (verified_value raw f fp ts o')"
  "vv_raw (verified_value raw f fp ts o') = raw" "vv_storedRaw (verified_value raw f fp ts o') = raw"
  "vv_family (verified_value raw f fp ts o') = f" "vv_fingerprint (verified_value raw f fp ts o') = fp"
  "vv_originNodeID (verified_value raw f fp ts o') = o'"
  "vv_issuedAt (verified_value raw f fp ts o') = fst ts" "vv_expiresAt (verified_value raw f fp ts o') = fst (snd ts)"
  "vv_version (verified_value raw f fp ts o') = snd (snd ts)"
  "\<not> vv_enveloped (verified_value raw f fp ts o')" "\<not> vv_sequenceBased (verified_value raw f fp ts o')"
  by (simp_all add: verified_value_def zero_value_def split: prod.splits)

lemma endpoint_value_sel:
  assumes "endpoint_value G raw rec = Inr v"
  shows "vv_verified v" "vv_raw v = raw" "vv_family v = ''endpoint:'' @ er_NodeID rec"
    "vv_fingerprint v = Fingerprint G rec" "vv_originNodeID v = er_NodeID rec"
    "vv_version v = EndpointRecordSequenceVersion G rec" "vv_sequenceBased v \<longleftrightarrow> er_Version rec \<ge> 2"
    "\<not> vv_enveloped v" "recordTimes G (er_IssuedAt rec) (er_ExpiresAt rec) = Inr (vv_issuedAt v, vv_expiresAt v, word_of_int (Unix (vv_issuedAt v)))"
  using assms by (auto simp: endpoint_value_def recordTimes_def split: sum.splits option.splits)

lemma service_value_sel:
  assumes "service_value G raw f rec = Inr v"
  shows "vv_verified v" "vv_raw v = raw" "vv_family v = f" "vv_fingerprint v = serviceFingerprint G rec"
    "vv_originNodeID v = sv_NodeID rec" "\<not> vv_enveloped v" "\<not> vv_sequenceBased v"
    "recordTimes G (sv_IssuedAt rec) (sv_ExpiresAt rec) = Inr (vv_issuedAt v, vv_expiresAt v, vv_version v)"
  using assms by (auto simp: service_value_def split: sum.splits)

lemmas validate_defs = validate_name_def validate_id_def validate_service_def validate_catalog_def
  validate_hidden_def validate_descriptor_def

lemma validate_branches:
  "validate_name G J key raw now = Inr v \<Longrightarrow> vv_verified v \<and> vv_raw v = raw"
  "validate_id G J key raw now = Inr v \<Longrightarrow> vv_verified v \<and> vv_raw v = raw"
  "validate_service G J key raw now = Inr v \<Longrightarrow> vv_verified v \<and> vv_raw v = raw"
  "validate_catalog G J key raw now = Inr v \<Longrightarrow> vv_verified v \<and> vv_raw v = raw"
  "validate_hidden G J key raw now = Inr v \<Longrightarrow> vv_verified v \<and> vv_raw v = raw"
  "validate_descriptor G J key raw now = Inr v \<Longrightarrow> vv_verified v \<and> vv_raw v = raw"
  by (auto simp: validate_defs Let_def split: sum.splits if_splits
      dest: endpoint_value_sel(1,2) service_value_sel(1,2))

lemma validateInner_verified:
  "validateInnerLookupValue G J key raw now = Inr v \<Longrightarrow> (vv_verified v \<longleftrightarrow> signed_key key) \<and> vv_raw v = raw"
  unfolding validateInnerLookupValue_def signed_key_def
  by (auto simp: zero_value_def split: if_splits dest: validate_branches)

text \<open>The value inside a stored string: the wrapped value of an envelope, the string itself otherwise.\<close>

definition inner_raw :: "jsonlib \<Rightarrow> string \<Rightarrow> string" where
  "inner_raw J raw = (case maybeDecodeEnvelope J raw of Inr (Some env) \<Rightarrow> se_Value env | _ \<Rightarrow> raw)"

lemma validateLookupValue_inner:
  assumes "validateLookupValue G J key raw now = Inr v"
  shows "\<exists>w. validateInnerLookupValue G J key (inner_raw J raw) now = Inr w \<and>
    vv_verified v = vv_verified w \<and> vv_raw v = vv_raw w \<and> vv_family v = vv_family w \<and>
    vv_fingerprint v = vv_fingerprint w \<and> vv_version v = vv_version w \<and> vv_issuedAt v = vv_issuedAt w \<and>
    vv_expiresAt v = vv_expiresAt w \<and> vv_originNodeID v = vv_originNodeID w \<and> vv_sequenceBased v = vv_sequenceBased w"
  using assms by (auto simp: validateLookupValue_def inner_raw_def split: sum.splits option.splits if_splits)

lemma validateLookupValue_verified:
  assumes "validateLookupValue G J key raw now = Inr v"
  shows "vv_verified v \<longleftrightarrow> signed_key key" "vv_raw v = inner_raw J raw"
  using validateLookupValue_inner [OF assms] validateInner_verified by fastforce+

section \<open>The order of values\<close>

lemma isNewerValue_irrefl: "\<not> isNewerValue v v"
  by (simp add: isNewerValue_def)

lemma isNewerValue_asym: "isNewerValue v w \<Longrightarrow> \<not> isNewerValue w v"
  by (auto simp: isNewerValue_def split: if_splits)

lemma isNewerValue_version: "isNewerValue v w \<Longrightarrow> vv_version w \<le> vv_version v"
  by (auto simp: isNewerValue_def split: if_splits)

lemma isNewerValue_total: "vv_fingerprint v \<noteq> vv_fingerprint w \<Longrightarrow> isNewerValue v w \<or> isNewerValue w v"
  by (auto simp: isNewerValue_def split: if_splits)

lemma isNewerValue_trans:
  "isNewerValue u v \<Longrightarrow> isNewerValue v w \<Longrightarrow> vv_sequenceBased u = vv_sequenceBased v \<Longrightarrow>
     vv_sequenceBased v = vv_sequenceBased w \<Longrightarrow> isNewerValue u w"
  unfolding isNewerValue_def by (auto split: if_splits)

text \<open>
  Between sequence-based and other values of one version the comparison is cyclic: two sequence-based
  values are compared by fingerprint, each of them and a third one by issue time.
\<close>

lemma isNewerValue_cycle:
  "\<exists>a b c. isNewerValue a b \<and> isNewerValue b c \<and> isNewerValue c a"
proof -
  let ?a = "zero_value\<lparr>vv_sequenceBased := True, vv_fingerprint := ''b'', vv_issuedAt := 1\<rparr>"
  let ?b = "zero_value\<lparr>vv_sequenceBased := True, vv_fingerprint := ''a'', vv_issuedAt := 3\<rparr>"
  let ?c = "zero_value\<lparr>vv_issuedAt := 2\<rparr>"
  have "isNewerValue ?a ?b" "isNewerValue ?b ?c" "isNewerValue ?c ?a" by code_simp+
  then show ?thesis by blast
qed

section \<open>Choosing what is stored\<close>

lemma chooseStoredValue_changed:
  assumes "ch_changed (chooseStoredValue G J key existing incoming now)"
  shows "ch_stored (chooseStoredValue G J key existing incoming now) = incoming"
    "ch_err (chooseStoredValue G J key existing incoming now) = None"
    "validateLookupValue G J key incoming now = Inr (ch_incoming (chooseStoredValue G J key existing incoming now))"
  using assms by (auto simp: chooseStoredValue_def Let_def split: sum.splits if_splits)

lemma chooseStoredValue_kept:
  assumes "\<not> ch_changed (chooseStoredValue G J key existing incoming now)"
    and "ch_err (chooseStoredValue G J key existing incoming now) = None"
  shows "ch_stored (chooseStoredValue G J key existing incoming now) = existing"
    "existing \<noteq> []"
  using assms by (auto simp: chooseStoredValue_def Let_def split: sum.splits if_splits)

lemma chooseStoredValue_replaces:
  assumes "ch_changed (chooseStoredValue G J key existing incoming now)"
    and "existing \<noteq> []" "validateLookupValue G J key existing now = Inr ev" "signed_key key"
  shows "\<exists>iv. validateLookupValue G J key incoming now = Inr iv \<and> vv_family iv = vv_family ev \<and> isNewerValue iv ev"
proof -
  have ver: "vv_verified iv" if "validateLookupValue G J key x now = Inr iv" for x iv
    using validateLookupValue_verified(1) [OF that] assms(4) by simp
  show ?thesis
    using assms(1-3) ver ver [OF assms(3)]
    by (auto simp: chooseStoredValue_def Let_def split: sum.splits if_splits)
qed

section \<open>Validity and time\<close>

text \<open>A value valid at some instant was valid, with the same result, at every earlier one.\<close>

lemma VerifyEndpointRecord_earlier:
  assumes "VerifyEndpointRecord G r T = Inr u" "t \<le> T"
  shows "VerifyEndpointRecord G r t = Inr u"
proof -
  obtain v where "VerifyEndpoint G r T = Inr v"
    using assms(1) by (auto simp: VerifyEndpointRecord_def split: sum.splits)
  then have "VerifyEndpoint G r t = Inr v"
    using assms(2) unfolding VerifyEndpoint_iff by (elim conjE exE) (intro conjI exI; (assumption | linarith))
  then show ?thesis by (simp add: VerifyEndpointRecord_def)
qed

lemma verifyEnvelope_iff:
  "verifyEnvelope G key env now = Inr () \<longleftrightarrow>
     se_Key env = key \<and>
     (\<exists>publicKey signature issuedAt expiresAt observedAt.
        b64_decode StdEncoding (se_PublisherPublicKey env) = Some publicKey \<and> length publicKey = 32 \<and>
        b64_decode StdEncoding (se_Signature env) = Some signature \<and> length signature = 64 \<and>
        NodeIDFromPublicKey G publicKey = se_PublisherNodeID env \<and>
        rfc3339_parse G (se_IssuedAt env) = Some issuedAt \<and> rfc3339_parse G (se_ExpiresAt env) = Some expiresAt \<and>
        rfc3339_parse G (se_ObservedAt env) = Some observedAt \<and>
        issuedAt < expiresAt \<and> issuedAt \<le> observedAt \<and> now \<le> expiresAt \<and>
        ed25519_verify G publicKey (envelopeSigningPayload env) signature)"
  unfolding verifyEnvelope_def
  by (cases "b64_decode StdEncoding (se_PublisherPublicKey env)"; cases "b64_decode StdEncoding (se_Signature env)";
      cases "rfc3339_parse G (se_IssuedAt env)"; cases "rfc3339_parse G (se_ExpiresAt env)";
      cases "rfc3339_parse G (se_ObservedAt env)") auto

lemma VerifyPrivateServiceCatalog_iff:
  "VerifyPrivateServiceCatalog G J cat now = Inr () \<longleftrightarrow>
     pc_NodeID cat \<noteq> [] \<and> pc_NodeName cat \<noteq> [] \<and> pc_PublicKey cat \<noteq> [] \<and> pc_IssuedAt cat \<noteq> [] \<and>
     pc_ExpiresAt cat \<noteq> [] \<and> pc_Signature cat \<noteq> [] \<and> ValidateCanonicalNodeName G (pc_NodeName cat) = Inr () \<and>
     (\<exists>publicKey signature issuedAt expiresAt services.
        b64_decode StdEncoding (pc_PublicKey cat) = Some publicKey \<and> length publicKey = 32 \<and>
        b64_decode StdEncoding (pc_Signature cat) = Some signature \<and> length signature = 64 \<and>
        NodeIDFromPublicKey G publicKey = pc_NodeID cat \<and>
        rfc3339_parse G (pc_IssuedAt cat) = Some issuedAt \<and> rfc3339_parse G (pc_ExpiresAt cat) = Some expiresAt \<and>
        issuedAt < expiresAt \<and> now \<le> expiresAt \<and>
        normalizePrivateCatalogServices G (pc_NodeName cat) (pc_NodeID cat) (pc_Services cat) now = Inr services \<and>
        ed25519_verify G publicKey (privateCatalogSigningPayload J cat) signature)"
  unfolding VerifyPrivateServiceCatalog_def
  by (cases "ValidateCanonicalNodeName G (pc_NodeName cat)";
      cases "b64_decode StdEncoding (pc_PublicKey cat)"; cases "b64_decode StdEncoding (pc_Signature cat)";
      cases "rfc3339_parse G (pc_IssuedAt cat)"; cases "rfc3339_parse G (pc_ExpiresAt cat)";
      cases "normalizePrivateCatalogServices G (pc_NodeName cat) (pc_NodeID cat) (pc_Services cat) now") auto

lemma VerifyServiceRecord_earlier:
  "VerifyServiceRecord G r T = Inr u \<Longrightarrow> t \<le> T \<Longrightarrow> VerifyServiceRecord G r t = Inr u"
  by (cases u) (auto simp: VerifyServiceRecord_iff)

lemma verifyEnvelope_earlier:
  "verifyEnvelope G key env T = Inr u \<Longrightarrow> t \<le> T \<Longrightarrow> verifyEnvelope G key env t = Inr u"
  by (cases u) (auto simp: verifyEnvelope_iff)

lemma check_catalog_earlier:
  "check_catalog_services G n i T seen svcs = Inr out \<Longrightarrow> t \<le> T \<Longrightarrow> check_catalog_services G n i t seen svcs = Inr out"
  by (induction svcs arbitrary: seen out)
    (auto split: sum.splits if_splits dest: VerifyServiceRecord_earlier)

lemma DecodePrivateServiceCatalog_earlier:
  assumes "DecodePrivateServiceCatalog G J raw T = Inr cat" "t \<le> T"
  shows "DecodePrivateServiceCatalog G J raw t = Inr cat"
proof -
  have n: "normalizePrivateCatalogServices G n i svcs t = Inr out"
    if "normalizePrivateCatalogServices G n i svcs T = Inr out" for n i svcs out
    using that assms(2) by (auto simp: normalizePrivateCatalogServices_def split: sum.splits dest: check_catalog_earlier)
  have "VerifyPrivateServiceCatalog G J c t = Inr u" if "VerifyPrivateServiceCatalog G J c T = Inr u" for c u
    using that assms(2) by (cases u) (auto simp: VerifyPrivateServiceCatalog_iff dest: n)
  then show ?thesis
    using assms(1) by (auto simp: DecodePrivateServiceCatalog_def split: sum.splits option.splits)
qed

lemma decode_verified_earlier:
  "decode_verified_endpoint G J raw T = Inr e \<Longrightarrow> t \<le> T \<Longrightarrow> decode_verified_endpoint G J raw t = Inr e"
  "decode_verified_service G J raw T = Inr r \<Longrightarrow> t \<le> T \<Longrightarrow> decode_verified_service G J raw t = Inr r"
  unfolding decode_verified_endpoint_def decode_verified_service_def
  by (auto split: sum.splits option.splits dest: VerifyEndpointRecord_earlier VerifyServiceRecord_earlier)

lemma validateInner_earlier:
  assumes "validateInnerLookupValue G J key raw T = Inr v" "t \<le> T"
  shows "validateInnerLookupValue G J key raw t = Inr v"
proof -
  have "validate_name G J key raw T = Inr v \<Longrightarrow> validate_name G J key raw t = Inr v"
    "validate_id G J key raw T = Inr v \<Longrightarrow> validate_id G J key raw t = Inr v"
    "validate_service G J key raw T = Inr v \<Longrightarrow> validate_service G J key raw t = Inr v"
    "validate_catalog G J key raw T = Inr v \<Longrightarrow> validate_catalog G J key raw t = Inr v"
    "validate_hidden G J key raw T = Inr v \<Longrightarrow> validate_hidden G J key raw t = Inr v"
    "validate_descriptor G J key raw T = Inr v \<Longrightarrow> validate_descriptor G J key raw t = Inr v"
    by (auto simp: validate_defs Let_def split: sum.splits if_splits
        dest!: decode_verified_earlier [OF _ assms(2)] DecodePrivateServiceCatalog_earlier [OF _ assms(2)])
  then show ?thesis using assms(1) by (simp add: validateInnerLookupValue_def split: if_splits)
qed

lemma validateLookupValue_earlier:
  assumes v: "validateLookupValue G J key raw T = Inr v" and t: "t \<le> T"
  shows "validateLookupValue G J key raw t = Inr v"
proof (cases "maybeDecodeEnvelope J raw")
  case (Inr m)
  show ?thesis
  proof (cases m)
    case None
    then show ?thesis using v Inr validateInner_earlier [OF _ t] by (simp add: validateLookupValue_def)
  next
    case (Some env)
    from v Inr Some obtain w where "verifyEnvelope G key env T = Inr ()"
      "validateInnerLookupValue G J key (se_Value env) T = Inr w"
      by (auto simp: validateLookupValue_def split: sum.splits)
    with v Inr Some show ?thesis
      by (simp add: validateLookupValue_def verifyEnvelope_earlier [OF _ t] validateInner_earlier [OF _ t])
  qed
qed (use v in \<open>simp add: validateLookupValue_def\<close>)

section \<open>Envelopes\<close>

lemma rfc3339_whole:
  assumes "rfc3339_ok G" "0 \<le> t" "t < rfc3339_end" "t mod second = 0"
  shows "rfc3339_parse G (rfc3339_format G t) = Some t" "rfc3339_format G t \<noteq> []"
  using assms by (auto simp: rfc3339_ok_def)

lemma whole_seconds_le:
  assumes "s mod second = 0" "s \<le> (t :: time)"
  shows "s \<le> t - t mod second"
proof -
  have "s = s div second * second" using assms(1) by (metis add.right_neutral div_mult_mod_eq)
  moreover have "s div second \<le> t div second" using assms(2) by (simp add: zdiv_mono1 second_def)
  ultimately show ?thesis by (simp add: minus_mod_eq_div_mult second_def)
qed

text \<open>The times of a current record: whole seconds, in the range of the layout.\<close>

definition times_ok :: "validatedValue \<Rightarrow> time \<Rightarrow> bool" where
  "times_ok v now \<longleftrightarrow> 0 \<le> vv_issuedAt v \<and> vv_issuedAt v < vv_expiresAt v \<and> vv_expiresAt v < rfc3339_end \<and>
     vv_issuedAt v mod second = 0 \<and> vv_expiresAt v mod second = 0 \<and> now \<le> vv_expiresAt v"

text \<open>The envelope \<^verbatim>\<open>wrapSignedEnvelope\<close> builds.\<close>

definition signed_envelope :: "golib \<Rightarrow> Identity \<Rightarrow> string \<Rightarrow> string \<Rightarrow> validatedValue \<Rightarrow> time \<Rightarrow> SignedEnvelope" where
  "signed_envelope G i key val v now =
     (let env = \<lparr>se_Key = key, se_Value = val, se_OriginNodeID = vv_originNodeID v,
        se_PublisherNodeID = id_NodeID i, se_PublisherPublicKey = b64_encode StdEncoding (id_PublicKey i),
        se_Version = vv_version v, se_IssuedAt = rfc3339_format G (vv_issuedAt v),
        se_ExpiresAt = rfc3339_format G (vv_expiresAt v),
        se_ObservedAt = rfc3339_format G (if now < vv_issuedAt v then vv_issuedAt v else now), se_Signature = []\<rparr>
      in env\<lparr>se_Signature := signEnvelope G i env\<rparr>)"

lemma signed_envelope_sel [simp]:
  "se_Key (signed_envelope G i key val v now) = key" "se_Value (signed_envelope G i key val v now) = val"
  "se_OriginNodeID (signed_envelope G i key val v now) = vv_originNodeID v"
  "se_PublisherNodeID (signed_envelope G i key val v now) = id_NodeID i"
  "se_PublisherPublicKey (signed_envelope G i key val v now) = b64_encode StdEncoding (id_PublicKey i)"
  "se_Version (signed_envelope G i key val v now) = vv_version v"
  "se_IssuedAt (signed_envelope G i key val v now) = rfc3339_format G (vv_issuedAt v)"
  "se_ExpiresAt (signed_envelope G i key val v now) = rfc3339_format G (vv_expiresAt v)"
  "se_ObservedAt (signed_envelope G i key val v now) = rfc3339_format G (if now < vv_issuedAt v then vv_issuedAt v else now)"
  by (simp_all add: signed_envelope_def Let_def)

lemma signed_envelope_signature:
  "se_Signature (signed_envelope G i key val v now) = b64_encode StdEncoding
     (ed25519_sign G (id_PrivateKey i) (envelopeSigningPayload (signed_envelope G i key val v now)))"
  by (simp add: signed_envelope_def Let_def signEnvelope_def envelopeSigningPayload_def)

lemma wrapSignedEnvelope_ok:
  "Identity_Validate G i = Inr u \<Longrightarrow> vv_verified v \<Longrightarrow>
     wrapSignedEnvelope G J i key val v now = Inr (js_marshal_envelope J (signed_envelope G i key val v now))"
  by (simp add: wrapSignedEnvelope_def signed_envelope_def Let_def)

lemma signed_envelope_verifies:
  assumes "ed25519_ok G" "rfc3339_ok G" "Identity_Validate G i = Inr ()" "times_ok v now"
  shows "t \<le> vv_expiresAt v \<Longrightarrow> verifyEnvelope G key (signed_envelope G i key val v now) t = Inr ()"
    and "rfc3339_format G (vv_issuedAt v) \<noteq> []" "rfc3339_format G (vv_expiresAt v) \<noteq> []"
    and "se_ObservedAt (signed_envelope G i key val v now) \<noteq> []" "se_Signature (signed_envelope G i key val v now) \<noteq> []"
proof -
  let ?e = "signed_envelope G i key val v now"
  define obs where "obs = (if now < vv_issuedAt v then vv_issuedAt v else now)"
  have id: "length (id_PublicKey i) = 32" "id_NodeID i = NodeIDFromPublicKey G (id_PublicKey i)"
    using assms(3) by (auto simp: Identity_Validate_iff)
  have sig: "length (ed25519_sign G (id_PrivateKey i) m) = 64"
    "ed25519_verify G (id_PublicKey i) m (ed25519_sign G (id_PrivateKey i) m)" for m
    using assms(1,3) by (auto simp: ed25519_ok_def Identity_Validate_iff)
  have sg: "b64_decode StdEncoding (se_Signature ?e) = Some (ed25519_sign G (id_PrivateKey i) (envelopeSigningPayload ?e))"
    by (subst signed_envelope_signature) simp
  have io: "rfc3339_parse G (rfc3339_format G (vv_issuedAt v)) = Some (vv_issuedAt v)"
    "rfc3339_format G (vv_issuedAt v) \<noteq> []"
    "rfc3339_parse G (rfc3339_format G (vv_expiresAt v)) = Some (vv_expiresAt v)"
    "rfc3339_format G (vv_expiresAt v) \<noteq> []"
    using rfc3339_whole [OF assms(2)] assms(4) by (auto simp: times_ok_def)
  have ob: "0 \<le> obs" "obs < rfc3339_end" "vv_issuedAt v \<le> obs"
    using assms(4) by (auto simp: obs_def times_ok_def)
  then have po: "rfc3339_parse G (se_ObservedAt ?e) = Some (obs - obs mod second)" "se_ObservedAt ?e \<noteq> []"
    using assms(2) by (auto simp: rfc3339_ok_def simp flip: obs_def)
  have ge: "vv_issuedAt v \<le> obs - obs mod second"
    using assms(4) ob(3) by (intro whole_seconds_le) (simp_all add: times_ok_def)
  show "verifyEnvelope G key ?e t = Inr ()" if "t \<le> vv_expiresAt v"
    unfolding verifyEnvelope_iff using id sig sg io po ge assms(4) that by (auto simp: times_ok_def)
  show "rfc3339_format G (vv_issuedAt v) \<noteq> []" "rfc3339_format G (vv_expiresAt v) \<noteq> []" "se_ObservedAt ?e \<noteq> []"
    by (fact io po)+
  show "se_Signature ?e \<noteq> []"
    using sig(1) [of "envelopeSigningPayload ?e"] by (subst signed_envelope_signature) auto
qed

text \<open>What a peer makes of a wrapped value: the value itself, marked as published by the wrapping node.\<close>

definition published :: "validatedValue \<Rightarrow> string \<Rightarrow> string \<Rightarrow> validatedValue" where
  "published v w publisher = v\<lparr>vv_storedRaw := w, vv_publisherNodeID := publisher, vv_enveloped := True,
     vv_authoritativePublisher := (vv_originNodeID v = publisher)\<rparr>"

lemma wrapped_validates:
  assumes laws: "ed25519_ok G" "rfc3339_ok G" "rfc3339_ascii G" "envelope_json_ok J"
    and i: "Identity_Validate G i = Inr ()"
    and v: "validateInnerLookupValue G J key val t = Inr v" "vv_verified v"
    and ascii: "is_ascii key" "is_ascii val" "is_ascii (vv_originNodeID v)"
    and ne: "key \<noteq> []" "val \<noteq> []" "vv_version v \<noteq> 0"
    and t: "times_ok v now" "t \<le> vv_expiresAt v"
  shows "\<exists>w e. wrapSignedEnvelope G J i key val v now = Inr w \<and> maybeDecodeEnvelope J w = Inr (Some e) \<and> se_Value e = val \<and>
    validateLookupValue G J key w t = Inr (published v w (id_NodeID i))"
proof -
  let ?e = "signed_envelope G i key val v now" and ?w = "js_marshal_envelope J (signed_envelope G i key val v now)"
  note ve = signed_envelope_verifies(1) [OF laws(1,2) i t, where key = key and val = val]
    signed_envelope_verifies(4,5) [OF laws(1,2) i t(1), where key = key and val = val]
    signed_envelope_verifies(2,3) [OF laws(1,2) i t(1)]
  have id: "id_NodeID i = NodeIDFromPublicKey G (id_PublicKey i)" "id_NodeID i \<noteq> []" "id_PublicKey i \<noteq> []"
    using i by (auto simp: Identity_Validate_iff NodeIDFromPublicKey_def)
  have "list_all is_ascii (se_fields ?e)"
    using ascii laws(3) id(1) by (simp add: se_fields_def rfc3339_ascii_def signed_envelope_signature)
  then have "js_envelope J ?w = Some ?e" using laws(4) by (simp add: envelope_json_ok_def)
  then have m: "maybeDecodeEnvelope J ?w = Inr (Some ?e)"
    using ne id ve by (simp add: maybeDecodeEnvelope_def)
  have "validateLookupValue G J key ?w t = Inr (published v ?w (id_NodeID i))"
  proof -
    have "(vv_originNodeID v \<noteq> [] \<and> id_NodeID i = vv_originNodeID v) = (vv_originNodeID v = id_NodeID i)"
      using id(2) by auto
    then show ?thesis using v ve(1) by (simp add: validateLookupValue_def m published_def)
  qed
  then show ?thesis using wrapSignedEnvelope_ok [OF i v(2)] m by (auto simp: signed_envelope_sel)
qed

section \<open>A node's own endpoint record\<close>

abbreviation whole :: "time \<Rightarrow> time" where
  "whole t \<equiv> t - t mod second"

definition own_endpoint_value :: "golib \<Rightarrow> Identity \<Rightarrow> EndpointRecord \<Rightarrow> string \<Rightarrow> time \<Rightarrow> duration \<Rightarrow> u64 \<Rightarrow> validatedValue" where
  "own_endpoint_value G i r raw now ttl sq =
     (verified_value raw (''endpoint:'' @ id_NodeID i) (Fingerprint G r) (whole now, whole (now + ttl), sq) (id_NodeID i))
       \<lparr>vv_sequenceBased := True\<rparr>"

lemma own_endpoint_value_sel [simp]:
  "vv_verified (own_endpoint_value G i r raw now ttl sq)"
  "vv_originNodeID (own_endpoint_value G i r raw now ttl sq) = id_NodeID i"
  "vv_version (own_endpoint_value G i r raw now ttl sq) = sq"
  "vv_raw (own_endpoint_value G i r raw now ttl sq) = raw"
  "vv_family (own_endpoint_value G i r raw now ttl sq) = ''endpoint:'' @ id_NodeID i"
  "vv_expiresAt (own_endpoint_value G i r raw now ttl sq) = whole (now + ttl)"
  by (simp_all add: own_endpoint_value_def)

lemma id_key_branch: "validateInnerLookupValue G J (NodeIDKey n) raw t = validate_id G J (NodeIDKey n) raw t"
  by (simp add: validateInnerLookupValue_def NodeIDKey_def HasPrefix_def)

lemma id_key_facts [simp]: "signed_key (NodeIDKey n)" "TrimPrefix (NodeIDKey n) ''node/id/'' = n" "NodeIDKey n \<noteq> []"
  by (simp_all add: signed_key_def NodeIDKey_def HasPrefix_def TrimPrefix_def)

lemma own_endpoint_validates:
  assumes laws: "ed25519_ok G" "rfc3339_ok G"
    and t: "0 \<le> now" "now + ttl < rfc3339_end" "second \<le> ttl"
    and r: "newEndpointRecord G i nodeName address ttl now sq = Inr r" "sq \<noteq> 0"
    and raw: "Decode (js_tokens J) (js_endpoint J) raw = Inr r" and now': "t \<le> whole (now + ttl)"
  shows "validateInnerLookupValue G J (NodeIDKey (id_NodeID i)) raw t = Inr (own_endpoint_value G i r raw now ttl sq)"
    and "times_ok (own_endpoint_value G i r raw now ttl sq) t"
proof -
  note f = newEndpointRecord_fields [OF r(1)]
  have v: "VerifyEndpointRecord G r t = Inr ()"
    using newEndpointRecord_verifies_at [OF laws t r(1), of t] now' by (simp add: VerifyEndpointRecord_def)
  have p: "rfc3339_parse G (er_IssuedAt r) = Some (whole now)" "rfc3339_parse G (er_ExpiresAt r) = Some (whole (now + ttl))"
    using laws(2) t f by (simp_all add: rfc3339_ok_def)
  have "er_Version r = 2" using f(10) r(2) by (simp add: word_gt_0)
  then show "validateInnerLookupValue G J (NodeIDKey (id_NodeID i)) raw t = Inr (own_endpoint_value G i r raw now ttl sq)"
    using v p raw f(6,11)
    by (simp add: id_key_branch validate_id_def decode_verified_endpoint_def endpoint_value_def recordTimes_def
        own_endpoint_value_def EndpointRecordSequenceVersion_def)
  have "whole now < whole (now + ttl)" using t(3) by (intro trunc_less) (simp_all add: second_def)
  moreover have "0 \<le> whole now" "whole (now + ttl) \<le> now + ttl"
    using t(1) by (simp_all add: second_def minus_mod_eq_div_mult)
  moreover have "whole s mod second = 0" for s by (simp add: minus_mod_eq_div_mult)
  ultimately show "times_ok (own_endpoint_value G i r raw now ttl sq) t"
    using t now' by (simp add: times_ok_def own_endpoint_value_def)
qed

lemma own_endpoint_published:
  assumes laws: "ed25519_ok G" "rfc3339_ok G" "rfc3339_ascii G" "envelope_json_ok J"
    and t: "0 \<le> now" "now + ttl < rfc3339_end" "second \<le> ttl"
    and r: "newEndpointRecord G i nodeName address ttl now sq = Inr r" "sq \<noteq> 0"
    and raw: "Decode (js_tokens J) (js_endpoint J) raw = Inr r" "is_ascii raw" "raw \<noteq> []"
    and ts: "now' \<le> whole (now + ttl)" "t \<le> whole (now + ttl)"
  defines "v \<equiv> own_endpoint_value G i r raw now ttl sq"
  shows "\<exists>w e. wrapSignedEnvelope G J i (NodeIDKey (id_NodeID i)) raw v now' = Inr w \<and>
    maybeDecodeEnvelope J w = Inr (Some e) \<and> se_Value e = raw \<and>
    validateLookupValue G J (NodeIDKey (id_NodeID i)) w t = Inr (published v w (id_NodeID i))"
proof -
  note f = newEndpointRecord_fields [OF r(1)]
  have nid: "is_ascii (id_NodeID i)" using f(3) by (simp add: Identity_Validate_iff)
  then have "is_ascii (NodeIDKey (id_NodeID i))" by (simp add: NodeIDKey_def is_ascii_def)
  then show ?thesis
    unfolding v_def using nid raw(2,3) r(2) ts(2)
    by (intro wrapped_validates [OF laws f(3) own_endpoint_validates(1) [OF laws(1,2) t r raw(1) ts(2)] _ _ _ _ _ _ _
          own_endpoint_validates(2) [OF laws(1,2) t r raw(1) ts(1)]]) simp_all
qed

end
