(* ===== verification/Store.thy ===== *)
theory Store
  imports LookupValue Table
begin

text \<open>
  The storing side of the DHT server of \<^verbatim>\<open>internal/dht/dht.go\<close>: admission and rate limits, validated
  stores with their version history, persistence, the request handler, and the rate limit of
  \<^verbatim>\<open>internal/dht/hidden_lookup.go\<close>. The value store on disk (the \<^verbatim>\<open>valuePersistence\<close> interface) is the
  map of its rows; whether a write or a delete fails is an argument. The handler reads the clock
  several times; \<^verbatim>\<open>clk n\<close> is its n-th reading.
\<close>

section \<open>State\<close>

record rateWindow =
  rw_WindowStart :: time
  rw_Count :: int

type_synonym rates = "string \<rightharpoonup> rateWindow"

record StoredVersion =
  ver_Family :: string
  ver_Fingerprint :: string
  ver_PublisherNodeID :: string
  ver_Version :: u64
  ver_IssuedAt :: string
  ver_ExpiresAt :: string

record StoredValueState =
  st_Current :: StoredVersion
  st_Previous :: "StoredVersion list"
  st_Conflicts :: "StoredVersion list"

record LookupLimits =
  ll_MaxRounds :: int
  ll_MaxConcurrent :: int
  ll_MaxPeerQueries :: int
  ll_MaxReferrals :: int
  ll_MaxResponseSize :: int
  ll_MaxRetries :: int
  ll_PeerTimeout :: duration
  ll_TotalTimeout :: duration

record Server =
  ds_RT :: RoutingTable
  ds_Values :: "string \<rightharpoonup> string"
  ds_persistence :: "(string \<rightharpoonup> string) option"
  ds_publisher :: Identity
  ds_lookupLimits :: LookupLimits
  ds_versions :: "string \<rightharpoonup> StoredValueState"
  ds_hiddenRates :: rates
  ds_storeRates :: rates

datatype store_error =
    StoreRateLimit string
  | StoreFamilyRateLimit string
  | NonAuthoritative string
  | StaleStore string
  | InvalidStore value_error
  | LoadFailed
  | PersistFailed
  | DeleteFailed string
  | BadRequest validate_error
  | UpdateNotVerified
  | UpdateDecode value_error
  | UpdateTarget
  | LimitsInvalid

section \<open>Limits, new servers\<close>

definition defaultLookupLimits :: LookupLimits where
  "defaultLookupLimits = \<lparr>ll_MaxRounds = 20, ll_MaxConcurrent = 4, ll_MaxPeerQueries = 20 * 4, ll_MaxReferrals = 4,
     ll_MaxResponseSize = 1024 * 1024, ll_MaxRetries = 0, ll_PeerTimeout = 2 * second, ll_TotalTimeout = 10 * second\<rparr>"

definition limits_valid :: "LookupLimits \<Rightarrow> bool" where
  "limits_valid l \<longleftrightarrow> (let d = defaultLookupLimits in
     \<not> (ll_MaxRounds l \<le> 0 \<or> ll_MaxRounds l > ll_MaxRounds d \<or>
        ll_MaxConcurrent l \<le> 0 \<or> ll_MaxConcurrent l > ll_MaxConcurrent d \<or>
        ll_MaxPeerQueries l \<le> 0 \<or> ll_MaxPeerQueries l > ll_MaxPeerQueries d \<or>
        ll_MaxPeerQueries l > ll_MaxRounds l * ll_MaxConcurrent l \<or>
        ll_MaxReferrals l \<le> 0 \<or> ll_MaxReferrals l > ll_MaxReferrals d \<or>
        ll_MaxResponseSize l \<le> 0 \<or> ll_MaxResponseSize l > ll_MaxResponseSize d \<or>
        ll_MaxRetries l < 0 \<or> ll_MaxRetries l > 2 \<or>
        ll_PeerTimeout l \<le> 0 \<or> ll_PeerTimeout l > ll_PeerTimeout d \<or>
        ll_TotalTimeout l \<le> 0 \<or> ll_TotalTimeout l > ll_TotalTimeout d))"

definition SetLookupLimits :: "LookupLimits \<Rightarrow> Server \<Rightarrow> store_error + Server" where
  "SetLookupLimits limits s =
     (if \<not> limits_valid limits then Inl LimitsInvalid else Inr (s\<lparr>ds_lookupLimits := limits\<rparr>))"

definition lookup_limits :: "Server \<Rightarrow> LookupLimits" where
  "lookup_limits s =
     (if ll_MaxRounds (ds_lookupLimits s) = 0 then defaultLookupLimits else ds_lookupLimits s)"

definition NewServer :: "golib \<Rightarrow> string \<Rightarrow> Server" where
  "NewServer G selfID = \<lparr>ds_RT = NewRoutingTable G selfID, ds_Values = Map.empty, ds_persistence = None,
     ds_publisher = \<lparr>id_NodeID = [], id_PublicKey = [], id_PrivateKey = []\<rparr>,
     ds_lookupLimits = defaultLookupLimits, ds_versions = Map.empty, ds_hiddenRates = Map.empty,
     ds_storeRates = Map.empty\<rparr>"

definition SetPublisherIdentity :: "golib \<Rightarrow> Identity \<Rightarrow> Server \<Rightarrow> record_error + Server" where
  "SetPublisherIdentity G i s =
     (case Identity_Validate G i of Inl e \<Rightarrow> Inl e | Inr _ \<Rightarrow> Inr (s\<lparr>ds_publisher := i\<rparr>))"

definition NewServerWithIdentity :: "golib \<Rightarrow> Identity \<Rightarrow> Server" where
  "NewServerWithIdentity G i =
     (let s = NewServer G (id_NodeID i) in case SetPublisherIdentity G i s of Inl _ \<Rightarrow> s | Inr s' \<Rightarrow> s')"

definition LookupState :: "string \<Rightarrow> Server \<Rightarrow> StoredValueState option" where
  "LookupState key s = ds_versions s key"

section \<open>Version history\<close>

definition zero_version :: StoredVersion where
  "zero_version = \<lparr>ver_Family = [], ver_Fingerprint = [], ver_PublisherNodeID = [], ver_Version = 0,
     ver_IssuedAt = [], ver_ExpiresAt = []\<rparr>"

definition version_state :: "Server \<Rightarrow> string \<Rightarrow> StoredValueState" where
  "version_state s key = (case ds_versions s key of
     Some st \<Rightarrow> st | None \<Rightarrow> \<lparr>st_Current = zero_version, st_Previous = [], st_Conflicts = []\<rparr>)"

definition storedVersionFromValidated :: "golib \<Rightarrow> validatedValue \<Rightarrow> StoredVersion" where
  "storedVersionFromValidated G v = \<lparr>ver_Family = vv_family v, ver_Fingerprint = vv_fingerprint v,
     ver_PublisherNodeID = vv_publisherNodeID v, ver_Version = vv_version v,
     ver_IssuedAt = rfc3339_format G (vv_issuedAt v), ver_ExpiresAt = rfc3339_format G (vv_expiresAt v)\<rparr>"

definition same_version :: "StoredVersion \<Rightarrow> StoredVersion \<Rightarrow> bool" where
  "same_version a b \<longleftrightarrow> ver_Fingerprint a = ver_Fingerprint b \<and> ver_Version a = ver_Version b \<and>
     ver_PublisherNodeID a = ver_PublisherNodeID b"

definition appendBoundedVersion :: "StoredVersion list \<Rightarrow> StoredVersion \<Rightarrow> StoredVersion list" where
  "appendBoundedVersion vs incoming =
     (if list_ex (\<lambda>existing. same_version existing incoming) vs then vs
      else let vs' = vs @ [incoming] in
        if length vs' > 6 then drop (length vs' - 6) vs' else vs')"

definition recordVersionLocked :: "golib \<Rightarrow> string \<Rightarrow> validatedValue \<Rightarrow> validatedValue \<Rightarrow> bool \<Rightarrow> Server \<Rightarrow> Server" where
  "recordVersionLocked G key previous incoming changed s =
     (if vv_raw incoming = [] then s
      else let st = version_state s key in
        if changed then
          let st1 = (if vv_raw previous \<noteq> [] then
                st\<lparr>st_Previous := appendBoundedVersion (st_Previous st) (storedVersionFromValidated G previous)\<rparr> else st)
          in s\<lparr>ds_versions := (ds_versions s)(key \<mapsto> st1\<lparr>st_Current := storedVersionFromValidated G incoming\<rparr>)\<rparr>
        else if ver_Fingerprint (st_Current st) = [] then
          s\<lparr>ds_versions := (ds_versions s)(key \<mapsto> st\<lparr>st_Current := storedVersionFromValidated G incoming\<rparr>)\<rparr>
        else s)"

definition recordConflictLocked :: "golib \<Rightarrow> string \<Rightarrow> validatedValue \<Rightarrow> Server \<Rightarrow> Server" where
  "recordConflictLocked G key incoming s =
     (if vv_raw incoming = [] then s
      else let st = version_state s key in
        s\<lparr>ds_versions := (ds_versions s)(key \<mapsto>
           st\<lparr>st_Conflicts := appendBoundedVersion (st_Conflicts st) (storedVersionFromValidated G incoming)\<rparr>)\<rparr>)"

section \<open>Rate limits\<close>

definition zero_window :: rateWindow where
  "zero_window = \<lparr>rw_WindowStart = 0, rw_Count = 0\<rparr>"

definition expire_rates :: "time \<Rightarrow> duration \<Rightarrow> rates \<Rightarrow> rates" where
  "expire_rates now window r = (\<lambda>k. case r k of
     None \<Rightarrow> None
   | Some w \<Rightarrow> if Sub now (rw_WindowStart w) > window * 2 then None else Some w)"

definition allowRateWindowLocked :: "string \<Rightarrow> time \<Rightarrow> duration \<Rightarrow> int \<Rightarrow> rates \<Rightarrow> bool \<times> rates" where
  "allowRateWindowLocked key now window limit r =
     (let w = (case r key of Some w \<Rightarrow> w | None \<Rightarrow> zero_window) in
      if IsZero (rw_WindowStart w) \<or> Sub now (rw_WindowStart w) \<ge> window then
        (True, r(key \<mapsto> \<lparr>rw_WindowStart = now, rw_Count = 1\<rparr>))
      else if rw_Count w \<ge> limit then (False, r)
      else (True, r(key \<mapsto> w\<lparr>rw_Count := rw_Count w + 1\<rparr>)))"

definition storeFamily :: "string \<Rightarrow> string" where
  "storeFamily key =
     (if HasPrefix key ''node/name/'' then ''node''
      else if HasPrefix key ''node/id/'' then ''node''
      else if HasPrefix key ''service/'' then ''service''
      else if HasPrefix key ''private-catalog/'' then ''private-catalog''
      else if HasPrefix key ''hidden-desc/v1/'' then ''hidden-desc''
      else ''other'')"

abbreviation (input) storeRateWindow :: duration where "storeRateWindow \<equiv> 30 * second"

definition remote_host :: "string \<Rightarrow> string" where
  "remote_host remoteAddr = (case SplitHostPort remoteAddr of Inr (h, _) \<Rightarrow> h | Inl _ \<Rightarrow> remoteAddr)"

definition allowStoreRequest ::
  "string \<Rightarrow> string \<Rightarrow> bool \<Rightarrow> time \<Rightarrow> Server \<Rightarrow> (store_error + unit) \<times> Server" where
  "allowStoreRequest remoteAddr key trusted now s =
     (let limit = (if trusted then 24 else 24 * 2);
          host = Trim (remote_host remoteAddr) ''[]'';
          keyClass = ''store'' @ [CHR 0x0A] @ host @ [CHR 0x0A] @ key;
          familyKey = ''store-family'' @ [CHR 0x0A] @ host @ [CHR 0x0A] @ storeFamily key;
          r0 = expire_rates now storeRateWindow (ds_storeRates s)
      in case allowRateWindowLocked keyClass now storeRateWindow limit r0 of
           (False, r1) \<Rightarrow> (Inl (StoreRateLimit key), s\<lparr>ds_storeRates := r1\<rparr>)
         | (True, r1) \<Rightarrow>
            (case allowRateWindowLocked familyKey now storeRateWindow (limit * 2) r1 of
               (False, r2) \<Rightarrow> (Inl (StoreFamilyRateLimit key), s\<lparr>ds_storeRates := r2\<rparr>)
             | (True, r2) \<Rightarrow> (Inr (), s\<lparr>ds_storeRates := r2\<rparr>)))"

definition allowHiddenDescriptorRequest :: "string \<Rightarrow> string \<Rightarrow> time \<Rightarrow> Server \<Rightarrow> bool \<times> Server" where
  "allowHiddenDescriptorRequest remoteAddr action now s =
     (if action \<noteq> ''find_value'' \<and> action \<noteq> ''store'' then (True, s)
      else let window = 30 * second; limit = (if action = ''find_value'' then 48 else 24);
               key = action @ [CHR 0x0A] @ remote_host remoteAddr
           in case allowRateWindowLocked key now window limit (expire_rates now window (ds_hiddenRates s)) of
                (ok, r) \<Rightarrow> (ok, s\<lparr>ds_hiddenRates := r\<rparr>))"

section \<open>Storing\<close>

definition current_value :: "Server \<Rightarrow> string \<Rightarrow> string" where
  "current_value s key = (case ds_Values s key of Some v \<Rightarrow> v | None \<Rightarrow> [])"

definition persist :: "string \<Rightarrow> string \<Rightarrow> Server \<Rightarrow> Server" where
  "persist key val s = s\<lparr>ds_persistence := map_option (\<lambda>rows. rows(key \<mapsto> val)) (ds_persistence s)\<rparr>"

definition prepareStoreValue :: "golib \<Rightarrow> jsonlib \<Rightarrow> string \<Rightarrow> string \<Rightarrow> time \<Rightarrow> Server \<Rightarrow> value_error + string" where
  "prepareStoreValue G J key val now s =
     (case validateInnerLookupValue G J key val now of Inl e \<Rightarrow> Inl e | Inr info \<Rightarrow>
      if \<not> vv_verified info then Inr val
      else (case Identity_Validate G (ds_publisher s) of
          Inl _ \<Rightarrow> Inr val
        | Inr _ \<Rightarrow> wrapSignedEnvelope G J (ds_publisher s) key val info now))"

definition rejectStaleStoreValue :: "golib \<Rightarrow> jsonlib \<Rightarrow> string \<Rightarrow> string \<Rightarrow> time \<Rightarrow> Server \<Rightarrow> store_error + unit" where
  "rejectStaleStoreValue G J key val now s =
     (case validateLookupValue G J key val now of Inl e \<Rightarrow> Inl (InvalidStore e) | Inr incomingValue \<Rightarrow>
      if current_value s key = [] then Inr ()
      else (case validateLookupValue G J key (current_value s key) now of Inl _ \<Rightarrow> Inr () | Inr currentValue \<Rightarrow>
        if \<not> vv_verified currentValue \<or> \<not> vv_verified incomingValue then Inr ()
        else if vv_family currentValue \<noteq> vv_family incomingValue then Inr ()
        else if \<not> isNewerValue incomingValue currentValue then Inl (StaleStore key)
        else Inr ()))"

definition admitStoreValue ::
  "golib \<Rightarrow> jsonlib \<Rightarrow> string \<Rightarrow> string \<Rightarrow> string \<Rightarrow> time \<Rightarrow> Server \<Rightarrow> (store_error + unit) \<times> Server" where
  "admitStoreValue G J remoteAddr key val now s =
     (let trusted = isTrustedLookupKey key in
      case allowStoreRequest remoteAddr key trusted now s of
        (Inl e, s1) \<Rightarrow> (Inl e, s1)
      | (Inr _, s1) \<Rightarrow>
          if \<not> trusted then (Inr (), s1)
          else (case validateLookupValue G J key val now of Inl e \<Rightarrow> (Inl (InvalidStore e), s1) | Inr v \<Rightarrow>
            if vv_verified v \<and> vv_enveloped v \<and> \<not> vv_authoritativePublisher v then (Inl (NonAuthoritative key), s1)
            else (rejectStaleStoreValue G J key val now s1, s1)))"

text \<open>
  \<^verbatim>\<open>storeValidated\<close> returns the stored string and whether it changed; \<^verbatim>\<open>put_ok\<close> says whether writing
  to the disk succeeds.
\<close>

definition storeValidated ::
  "golib \<Rightarrow> jsonlib \<Rightarrow> bool \<Rightarrow> string \<Rightarrow> string \<Rightarrow> time \<Rightarrow> Server \<Rightarrow> (store_error + string \<times> bool) \<times> Server" where
  "storeValidated G J put_ok key val now s =
     (let ch = chooseStoredValue G J key (current_value s key) val now;
          persisted = ds_persistence s \<noteq> None \<and> vv_verified (ch_incoming ch) \<and> \<not> HasPrefix key ''hidden-desc/v1/''
      in case ch_err ch of
           Some e \<Rightarrow> (Inl (InvalidStore e),
             if vv_raw (ch_incoming ch) \<noteq> [] then recordConflictLocked G key (ch_incoming ch) s else s)
         | None \<Rightarrow>
             if ch_changed ch \<and> persisted \<and> \<not> put_ok then (Inl PersistFailed, s)
             else let s1 = (if ch_changed ch \<and> persisted then persist key (ch_stored ch) s else s);
                      s2 = (if ch_changed ch then s1\<lparr>ds_Values := (ds_Values s1)(key \<mapsto> ch_stored ch)\<rparr> else s1)
                  in (Inr (ch_stored ch, ch_changed ch),
                      recordVersionLocked G key (ch_existing ch) (ch_incoming ch) (ch_changed ch) s2))"

definition StoreLocal :: "golib \<Rightarrow> jsonlib \<Rightarrow> bool \<Rightarrow> string \<Rightarrow> string \<Rightarrow> time \<Rightarrow> Server \<Rightarrow> Server" where
  "StoreLocal G J put_ok key val now s =
     (let s1 = s\<lparr>ds_Values := (ds_Values s)(key \<mapsto> val)\<rparr> in
      case validateLookupValue G J key val now of
        Inl _ \<Rightarrow> s1
      | Inr v \<Rightarrow>
          let s2 = s1\<lparr>ds_versions := (ds_versions s1)(key \<mapsto>
                \<lparr>st_Current = storedVersionFromValidated G v, st_Previous = [], st_Conflicts = []\<rparr>)\<rparr>
          in if vv_verified v \<and> ds_persistence s2 \<noteq> None \<and> \<not> HasPrefix key ''hidden-desc/v1/'' \<and> put_ok
             then persist key val s2 else s2)"

text \<open>
  The rows \<^verbatim>\<open>AttachValuePersistence\<close> keeps, in the order the map is iterated; \<^verbatim>\<open>del_ok\<close> says which
  deletes succeed. The first component is what is left on disk.
\<close>

fun attach_rows ::
  "golib \<Rightarrow> jsonlib \<Rightarrow> (string \<Rightarrow> bool) \<Rightarrow> time \<Rightarrow> (string \<times> string) list \<Rightarrow> (string \<rightharpoonup> string) \<Rightarrow>
   (string \<rightharpoonup> string) \<times> (store_error + (string \<times> string) list)" where
  "attach_rows G J del_ok now [] rows = (rows, Inr [])"
| "attach_rows G J del_ok now ((key, raw) # rest) rows =
     (if \<not> HasPrefix key ''hidden-desc/v1/'' \<and>
         (case validateLookupValue G J key raw now of Inr v \<Rightarrow> vv_verified v | Inl _ \<Rightarrow> False) then
        (case attach_rows G J del_ok now rest rows of
           (rows', Inl e) \<Rightarrow> (rows', Inl e)
         | (rows', Inr valid) \<Rightarrow> (rows', Inr ((key, raw) # valid)))
      else if \<not> del_ok key then (rows, Inl (DeleteFailed key))
      else attach_rows G J del_ok now rest (rows(key := None)))"

text \<open>The store argument is nil (\<open>None\<close>), a store whose \<^verbatim>\<open>LoadValues\<close> fails, or one with the given rows.\<close>

definition AttachValuePersistence ::
  "golib \<Rightarrow> jsonlib \<Rightarrow> (string \<Rightarrow> bool) \<Rightarrow> string list \<Rightarrow> (unit + (string \<rightharpoonup> string)) option \<Rightarrow> time \<Rightarrow> Server \<Rightarrow>
   (store_error + unit) \<times> Server" where
  "AttachValuePersistence G J del_ok order store now s =
     (case store of
        None \<Rightarrow> (Inr (), s)
      | Some (Inl _) \<Rightarrow> (Inl LoadFailed, s)
      | Some (Inr rows) \<Rightarrow>
         (case attach_rows G J del_ok now (map (\<lambda>k. (k, the (rows k))) order) rows of
            (rows', Inl e) \<Rightarrow> (Inl e, s)
          | (rows', Inr valid) \<Rightarrow>
              (Inr (), foldl (\<lambda>s (key, raw).
                  let s1 = s\<lparr>ds_Values := (ds_Values s)(key \<mapsto> raw)\<rparr> in
                  case validateLookupValue G J key raw now of
                    Inl _ \<Rightarrow> s1
                  | Inr v \<Rightarrow> s1\<lparr>ds_versions := (ds_versions s1)(key \<mapsto>
                      \<lparr>st_Current = storedVersionFromValidated G v, st_Previous = [], st_Conflicts = []\<rparr>)\<rparr>)
                (s\<lparr>ds_persistence := Some rows'\<rparr>) valid)))"

section \<open>Requests\<close>

definition find_node_reply :: "golib \<Rightarrow> string list \<Rightarrow> time \<Rightarrow> DHTRequest \<Rightarrow> Server \<Rightarrow> NodeInfo list" where
  "find_node_reply G offs now req s =
     (let n = ll_MaxReferrals (lookup_limits s) in
      if req_Type req = DHTTypeBootstrap then
        ClosestNodesForBootstrap G offs now (req_Target req) n (\<not> HasPrefix (req_Target req) ''vx6_'') (ds_RT s)
      else if req_Type req = DHTTypeLookupName then ClosestNodesByNameHash G (req_Target req) n (ds_RT s)
      else ClosestNodes G (TrimPrefix (req_Target req) ''node/id/'') n (ds_RT s))"

definition find_value_reply :: "golib \<Rightarrow> DHTRequest \<Rightarrow> Server \<Rightarrow> NodeInfo list \<times> string" where
  "find_value_reply G req s =
     (let n = ll_MaxReferrals (lookup_limits s); target = req_Target req;
          storageKey = (if req_Type req = DHTTypeLookupName then ''node/name/'' @ target
            else if req_Type req = DHTTypeLookupKey then NodeIDKey target else target)
      in (if req_Type req = DHTTypeLookupName then ClosestNodesByNameHash G target n (ds_RT s)
          else ClosestNodes G target n (ds_RT s),
          case ds_Values s storageKey of Some val \<Rightarrow> val | None \<Rightarrow> []))"

definition update_ip_check :: "golib \<Rightarrow> jsonlib \<Rightarrow> (nat \<Rightarrow> time) \<Rightarrow> DHTRequest \<Rightarrow> store_error + unit" where
  "update_ip_check G J clk req =
     (case validateLookupValue G J (req_Target req) (req_Data req) (clk 1) of Inl e \<Rightarrow> Inl (InvalidStore e) | Inr v \<Rightarrow>
      if \<not> vv_verified v then Inl UpdateNotVerified
      else (case Decode (js_tokens J) (js_endpoint J) (vv_raw v) of Inl e \<Rightarrow> Inl (UpdateDecode (DecodeEndpoint e)) | Inr endpoint \<Rightarrow>
       (case VerifyEndpointRecord G endpoint (clk 2) of Inl e \<Rightarrow> Inl (UpdateDecode (ValueRecord e)) | Inr _ \<Rightarrow>
        if req_Target req = NodeIDKey (er_NodeID endpoint) \<or> req_Target req = NodeNameKey G (er_NodeName endpoint)
        then Inr () else Inl UpdateTarget)))"

text \<open>
  \<^verbatim>\<open>HandleDHT\<close> up to the reply it writes, which is the response returned here; \<^verbatim>\<open>reply_bytes\<close> is what
  goes to the connection.
\<close>

definition HandleDHT ::
  "golib \<Rightarrow> jsonlib \<Rightarrow> bool \<Rightarrow> string list \<Rightarrow> (nat \<Rightarrow> time) \<Rightarrow> string \<Rightarrow> DHTRequest \<Rightarrow> Server \<Rightarrow> (store_error + DHTResponse) \<times> Server" where
  "HandleDHT G J put_ok offs clk remoteAddr req s =
     (case Validate G req of Inl e \<Rightarrow> (Inl (BadRequest e), s) | Inr _ \<Rightarrow>
      let resp = \<lparr>resp_Version = DHTWireVersion, resp_Type = req_Type req, resp_Nodes = [], resp_Value = []\<rparr>;
          (ok, s0) = (if stringsHasHiddenDescriptorKey (req_Target req)
             then allowHiddenDescriptorRequest remoteAddr (req_Action req) (clk 0) s else (True, s))
      in if \<not> ok then (Inr resp, s0)
         else if req_Action req = ''update_ip'' then
           (case update_ip_check G J clk req of Inl e \<Rightarrow> (Inl e, s0) | Inr _ \<Rightarrow>
            (case admitStoreValue G J remoteAddr (req_Target req) (req_Data req) (clk 3) s0 of
               (Inl e, s1) \<Rightarrow> (Inl e, s1)
             | (Inr _, s1) \<Rightarrow>
                (case storeValidated G J put_ok (req_Target req) (req_Data req) (clk 4) s1 of
                   (Inl e, s2) \<Rightarrow> (Inl e, s2)
                 | (Inr _, s2) \<Rightarrow> (Inr resp, s2))))
         else if req_Action req = ''find_node'' then
           (Inr (resp\<lparr>resp_Nodes := find_node_reply G offs (clk 1) req s0\<rparr>), s0)
         else if req_Action req = ''find_value'' then
           (Inr (resp\<lparr>resp_Nodes := fst (find_value_reply G req s0), resp_Value := snd (find_value_reply G req s0)\<rparr>), s0)
         else if req_Action req = ''store'' then
           (case admitStoreValue G J remoteAddr (req_Target req) (req_Data req) (clk 1) s0 of
              (Inl _, s1) \<Rightarrow> (Inr resp, s1)
            | (Inr _, s1) \<Rightarrow> (Inr resp, snd (storeValidated G J put_ok (req_Target req) (req_Data req) (clk 2) s1)))
         else (Inr resp, s0))"

definition reply_bytes :: "(DHTResponse \<Rightarrow> bytes) \<Rightarrow> DHTResponse \<Rightarrow> bytes" where
  "reply_bytes marshal resp = WriteHeader KindDHT @ WriteLengthPrefixed (marshal resp)"

end
