(* ===== verification/StoreFacts.thy ===== *)
theory StoreFacts
  imports ValueFacts Store
begin

text \<open>
  What the storing side of the DHT server guarantees over every sequence of requests and local
  operations: bounded histories and rate counters, only signed and non-hidden values on disk, and
  stored records that never go back to an older version.
\<close>

section \<open>The invariant\<close>

definition history_ok :: "StoredVersion list \<Rightarrow> bool" where
  "history_ok vs \<longleftrightarrow> length vs \<le> 6 \<and> distinct (map (\<lambda>v. (ver_Fingerprint v, ver_Version v, ver_PublisherNodeID v)) vs)"

definition rates_ok :: "int \<Rightarrow> rates \<Rightarrow> bool" where
  "rates_ok limit r \<longleftrightarrow> (\<forall>k w. r k = Some w \<longrightarrow> 1 \<le> rw_Count w \<and> rw_Count w \<le> limit)"

definition disk_ok :: "(string \<rightharpoonup> string) \<Rightarrow> bool" where
  "disk_ok rows \<longleftrightarrow> (\<forall>k \<in> dom rows. signed_key k \<and> \<not> HasPrefix k ''hidden-desc/v1/'')"

definition server_ok :: "Server \<Rightarrow> bool" where
  "server_ok s \<longleftrightarrow>
     (\<forall>key st. ds_versions s key = Some st \<longrightarrow> history_ok (st_Previous st) \<and> history_ok (st_Conflicts st)) \<and>
     rates_ok 96 (ds_storeRates s) \<and> rates_ok 48 (ds_hiddenRates s) \<and>
     (\<forall>rows. ds_persistence s = Some rows \<longrightarrow> disk_ok rows)"

lemma history_ok_append: "history_ok vs \<Longrightarrow> history_ok (appendBoundedVersion vs v)"
proof -
  assume ok: "history_ok vs"
  let ?f = "\<lambda>v. (ver_Fingerprint v, ver_Version v, ver_PublisherNodeID v)"
  show ?thesis
  proof (cases "list_ex (\<lambda>e. same_version e v) vs")
    case False
    then have "distinct (map ?f (vs @ [v]))"
      using ok by (auto simp: history_ok_def list_ex_iff same_version_def)
    then have "distinct (drop n (map ?f (vs @ [v])))" for n by (rule distinct_drop)
    then have d: "distinct (map ?f (drop n (vs @ [v])))" for n unfolding drop_map .
    from d [of 0] d [of "length (vs @ [v]) - 6"] False ok show ?thesis
      by (auto simp: appendBoundedVersion_def Let_def history_ok_def)
  qed (use ok in \<open>simp add: appendBoundedVersion_def\<close>)
qed

lemma version_state_ok:
  "server_ok s \<Longrightarrow> history_ok (st_Previous (version_state s key)) \<and> history_ok (st_Conflicts (version_state s key))"
  by (auto simp: server_ok_def version_state_def history_ok_def split: option.splits)

lemma server_ok_versions:
  assumes "server_ok s" "history_ok (st_Previous st)" "history_ok (st_Conflicts st)"
  shows "server_ok (s\<lparr>ds_versions := (ds_versions s)(key \<mapsto> st)\<rparr>)"
  using assms by (simp add: server_ok_def)

lemma history_ok_Nil [simp]: "history_ok []"
  by (simp add: history_ok_def)

lemma recordVersionLocked_ok [inv_intros]: "server_ok s \<Longrightarrow> server_ok (recordVersionLocked G key p i c s)"
  using version_state_ok [of s key]
  by (auto simp: recordVersionLocked_def Let_def intro!: server_ok_versions history_ok_append)

lemma recordConflictLocked_ok [inv_intros]: "server_ok s \<Longrightarrow> server_ok (recordConflictLocked G key i s)"
  using version_state_ok [of s key]
  by (auto simp: recordConflictLocked_def Let_def intro!: server_ok_versions history_ok_append)

lemma server_ok_Values [simp]: "server_ok (s\<lparr>ds_Values := m\<rparr>) = server_ok s"
  by (simp add: server_ok_def)

lemma server_ok_fresh:
  "server_ok s \<Longrightarrow> server_ok (s\<lparr>ds_Values := m, ds_versions := (ds_versions s)(key \<mapsto>
     \<lparr>st_Current = c, st_Previous = [], st_Conflicts = []\<rparr>)\<rparr>)"
  by (simp add: server_ok_def)

lemma disk_ok_upd: "disk_ok rows \<Longrightarrow> signed_key k \<Longrightarrow> \<not> HasPrefix k ''hidden-desc/v1/'' \<Longrightarrow> disk_ok (rows(k \<mapsto> v))"
  by (simp add: disk_ok_def)

lemma persist_ok [inv_intros]:
  "server_ok s \<Longrightarrow> signed_key key \<Longrightarrow> \<not> HasPrefix key ''hidden-desc/v1/'' \<Longrightarrow> server_ok (persist key val s)"
  using disk_ok_upd by (auto simp: server_ok_def persist_def)

lemma rates_ok_expire: "rates_ok n r \<Longrightarrow> rates_ok n (expire_rates now w r)"
  by (auto simp: rates_ok_def expire_rates_def split: option.splits if_splits)

lemma rates_ok_allow:
  "rates_ok n r \<Longrightarrow> limit \<le> n \<Longrightarrow> 1 \<le> n \<Longrightarrow> rates_ok n (snd (allowRateWindowLocked key now w limit r))"
  by (fastforce simp: rates_ok_def allowRateWindowLocked_def Let_def zero_window_def split: option.splits)

lemma allowStoreRequest_ok [inv_intros]:
  assumes "server_ok s" shows "server_ok (snd (allowStoreRequest remote key trusted now s))"
proof -
  have r: "rates_ok 96 (ds_storeRates s)" using assms by (simp add: server_ok_def)
  have upd: "server_ok (s\<lparr>ds_storeRates := r\<rparr>)" if "rates_ok 96 r" for r
    using assms that by (simp add: server_ok_def)
  show ?thesis
    unfolding allowStoreRequest_def Let_def
    by (auto split: prod.splits bool.splits intro!: upd
        dest!: arg_cong [where f = snd] simp: rates_ok_allow rates_ok_expire r)
qed

lemma allowHiddenDescriptorRequest_ok [inv_intros]:
  "server_ok s \<Longrightarrow> server_ok (snd (allowHiddenDescriptorRequest remote action now s))"
  unfolding allowHiddenDescriptorRequest_def Let_def
  using rates_ok_allow [OF rates_ok_expire, of 48 "ds_hiddenRates s"]
  by (auto split: prod.splits simp: server_ok_def dest!: arg_cong [where f = snd])

lemma admitStoreValue_state:
  "snd (admitStoreValue G J remote key val now s) = snd (allowStoreRequest remote key (isTrustedLookupKey key) now s)"
  unfolding admitStoreValue_def Let_def by (simp split: prod.splits sum.splits)

lemma admitStoreValue_ok [inv_intros]: "server_ok s \<Longrightarrow> server_ok (snd (admitStoreValue G J remote key val now s))"
  by (simp add: admitStoreValue_state allowStoreRequest_ok)

lemma admitStoreValue_keeps [simp]: "ds_Values (snd (admitStoreValue G J remote key val now s)) = ds_Values s"
  unfolding admitStoreValue_state allowStoreRequest_def Let_def by (simp split: prod.splits bool.splits)

lemma chooseStoredValue_incoming:
  "vv_verified (ch_incoming (chooseStoredValue G J key x y now)) \<Longrightarrow> signed_key key"
  using validateLookupValue_verified(1) [of G J key y now]
  by (auto simp: chooseStoredValue_def Let_def zero_value_def split: sum.splits if_splits)

lemma storeValidated_ok [inv_intros]:
  assumes "server_ok s" shows "server_ok (snd (storeValidated G J put key val now s))"
  using assms chooseStoredValue_incoming [of G J key "current_value s key" val now]
  unfolding storeValidated_def Let_def by (auto split: option.splits intro!: inv_intros)

lemma StoreLocal_ok [inv_intros]:
  assumes "server_ok s" shows "server_ok (StoreLocal G J put key val now s)"
  using assms validateLookupValue_verified(1) [of G J key val now]
  unfolding StoreLocal_def Let_def by (auto split: sum.splits intro!: persist_ok server_ok_fresh)

lemma attach_rows_disk:
  assumes "attach_rows G J d now xs rows = (rows', Inr valid)" "dom rows \<subseteq> fst ` set xs \<union> {k. signed_key k \<and> \<not> HasPrefix k ''hidden-desc/v1/''}"
  shows "disk_ok rows'"
  using assms
proof (induction G J d now xs rows arbitrary: rows' valid rule: attach_rows.induct)
  case (1 G J d now rows)
  then show ?case by (auto simp: disk_ok_def)
next
  case (2 G J d now key raw rest rows)
  show ?case
  proof (cases "\<not> HasPrefix key ''hidden-desc/v1/'' \<and> (case validateLookupValue G J key raw now of Inr v \<Rightarrow> vv_verified v | Inl _ \<Rightarrow> False)")
    case True
    then have "signed_key key" using validateLookupValue_verified(1) by (auto split: sum.splits)
    with 2 True show ?thesis by (fastforce split: prod.splits sum.splits)
  next
    case False
    with 2 show ?thesis by (fastforce split: if_splits)
  qed
qed

lemma AttachValuePersistence_ok [inv_intros]:
  assumes "server_ok s" "\<And>rows. store = Some (Inr rows) \<Longrightarrow> dom rows \<subseteq> set order"
  shows "server_ok (snd (AttachValuePersistence G J d order store now s))"
proof -
  have fold: "server_ok (foldl (\<lambda>s (key, raw). let s1 = s\<lparr>ds_Values := (ds_Values s)(key \<mapsto> raw)\<rparr> in
      case validateLookupValue G J key raw now of Inl _ \<Rightarrow> s1
      | Inr v \<Rightarrow> s1\<lparr>ds_versions := (ds_versions s1)(key \<mapsto>
          \<lparr>st_Current = storedVersionFromValidated G v, st_Previous = [], st_Conflicts = []\<rparr>)\<rparr>) s valid)"
    if "server_ok s" for s valid
    using that by (induction valid arbitrary: s) (auto simp: Let_def server_ok_fresh split: sum.splits prod.splits)
  have "server_ok (s\<lparr>ds_persistence := Some rows'\<rparr>)"
    if "attach_rows G J d now (map (\<lambda>k. (k, the (rows k))) order) rows = (rows', Inr valid)" "store = Some (Inr rows)"
    for rows rows' valid
    using assms(1) attach_rows_disk [OF that(1)] assms(2) [OF that(2)]
    by (auto simp: server_ok_def image_image)
  then show ?thesis
    unfolding AttachValuePersistence_def
    by (auto split: option.splits sum.splits prod.splits simp: assms(1) intro!: fold)
qed

text \<open>The states \<^verbatim>\<open>HandleDHT\<close> can end in: rate counters aside, only an admitted store changes something.\<close>

definition gate :: "(nat \<Rightarrow> time) \<Rightarrow> string \<Rightarrow> DHTRequest \<Rightarrow> Server \<Rightarrow> bool \<times> Server" where
  "gate clk remote req s = (if stringsHasHiddenDescriptorKey (req_Target req)
     then allowHiddenDescriptorRequest remote (req_Action req) (clk 0) s else (True, s))"

lemma HandleDHT_state:
  fixes req remote
  defines "admit \<equiv> \<lambda>G J t s. admitStoreValue G J remote (req_Target req) (req_Data req) t s"
  shows "snd (HandleDHT G J put offs clk remote req s) \<in> {s, snd (gate clk remote req s)} \<or>
    (\<exists>i. snd (HandleDHT G J put offs clk remote req s) = snd (admit G J (clk i) (snd (gate clk remote req s)))) \<or>
    (\<exists>i. \<exists>j \<le> 4. snd (HandleDHT G J put offs clk remote req s) =
      snd (storeValidated G J put (req_Target req) (req_Data req) (clk j) (snd (admit G J (clk i) (snd (gate clk remote req s))))))"
proof -
  obtain ok s0 where g: "gate clk remote req s = (ok, s0)" by force
  obtain a1 s1 where a1: "admit G J (clk 3) s0 = (a1, s1)" by force
  obtain a2 s2 where a2: "admit G J (clk 1) s0 = (a2, s2)" by force
  obtain b1 u1 where b1: "storeValidated G J put (req_Target req) (req_Data req) (clk 4) s1 = (b1, u1)" by force
  note d = HandleDHT_def gate_def [symmetric] g Let_def prod.case snd_conv fst_conv a1 [unfolded admit_def] a2 [unfolded admit_def] a2 [unfolded admit_def One_nat_def] b1
  consider e where "Validate G req = Inl e" | "Validate G req = Inr ()" "\<not> ok"
    | "Validate G req = Inr ()" ok "req_Action req = ''update_ip''"
    | "Validate G req = Inr ()" ok "req_Action req = ''store''"
    | "Validate G req = Inr ()" ok "req_Action req \<noteq> ''update_ip''" "req_Action req \<noteq> ''store''"
    by (cases "Validate G req") auto
  then show ?thesis
  proof cases
    case 3
    have "snd (HandleDHT G J put offs clk remote req s) \<in> {s0, s1, u1}"
      using 3 by (cases "update_ip_check G J clk req"; cases a1; cases b1) (simp_all add: d)
    moreover have "s0 = snd (gate clk remote req s)" "s1 = snd (admit G J (clk 3) (snd (gate clk remote req s)))"
      "u1 = snd (storeValidated G J put (req_Target req) (req_Data req) (clk 4) (snd (admit G J (clk 3) (snd (gate clk remote req s)))))"
      by (simp_all add: a1 b1 g)
    ultimately show ?thesis by (metis insertE order_refl singletonD insertCI)
  next
    case 4
    have "snd (HandleDHT G J put offs clk remote req s) \<in>
        {s2, snd (storeValidated G J put (req_Target req) (req_Data req) (clk 2) s2)}"
      using 4 by (cases a2) (simp_all add: d)
    moreover have "s2 = snd (admit G J (clk 1) (snd (gate clk remote req s)))" by (simp only: a2 g snd_conv)
    moreover have "(2 :: nat) \<le> 4" by simp
    ultimately show ?thesis by blast
  qed (simp_all add: d)
qed

lemma gate_ok [inv_intros]: "server_ok s \<Longrightarrow> server_ok (snd (gate clk remote req s))"
  by (simp add: gate_def allowHiddenDescriptorRequest_ok)

lemma HandleDHT_ok [inv_intros]:
  assumes "server_ok s" shows "server_ok (snd (HandleDHT G J put offs clk remote req s))"
  using HandleDHT_state [of G J put offs clk remote req s] assms
  by (elim disjE exE) (auto intro: inv_intros)

section \<open>Runs of the server\<close>

text \<open>
  \<open>Stored\<close> is a call of \<^verbatim>\<open>storeValidated\<close> by the node itself, as \<^verbatim>\<open>MaintainReplicas\<close> makes it for the
  value it is about to send out.
\<close>

datatype server_event =
    Request bool "string list" "nat \<Rightarrow> time" string DHTRequest
  | Stored bool string string time
  | Local bool string string time
  | Attach "string \<Rightarrow> bool" "string list" "(unit + (string \<rightharpoonup> string)) option" time

inductive server_step :: "golib \<Rightarrow> jsonlib \<Rightarrow> Server \<Rightarrow> server_event \<Rightarrow> Server \<Rightarrow> bool" for G J where
  request: "server_step G J s (Request put offs clk remote req) (snd (HandleDHT G J put offs clk remote req s))"
| stored: "server_step G J s (Stored put key val now) (snd (storeValidated G J put key val now s))"
| local: "server_step G J s (Local put key val now) (StoreLocal G J put key val now s)"
| attach: "(\<And>rows. store = Some (Inr rows) \<Longrightarrow> dom rows \<subseteq> set order) \<Longrightarrow>
    server_step G J s (Attach d order store now) (snd (AttachValuePersistence G J d order store now s))"

inductive_cases server_stepE: "server_step G J s e s'"

interpretation store: event_system "server_step G J" server_ok for G J
  by unfold_locales (auto elim!: server_stepE intro: inv_intros)

lemma NewServer_ok: "server_ok (NewServer G selfID)"
  by (simp add: server_ok_def NewServer_def rates_ok_def)

section \<open>Stored records do not go back\<close>

definition stored_at_least :: "golib \<Rightarrow> jsonlib \<Rightarrow> time \<Rightarrow> string \<Rightarrow> string \<Rightarrow> u64 \<Rightarrow> Server \<Rightarrow> bool" where
  "stored_at_least G J T key family n s \<longleftrightarrow> current_value s key \<noteq> [] \<and>
     (\<exists>v. validateLookupValue G J key (current_value s key) T = Inr v \<and> vv_family v = family \<and> n \<le> vv_version v)"

text \<open>An offer of a value before \<open>T\<close>, of a value that does not expire before \<open>T\<close>.\<close>

definition lasting :: "golib \<Rightarrow> jsonlib \<Rightarrow> time \<Rightarrow> string \<Rightarrow> string \<Rightarrow> time \<Rightarrow> bool" where
  "lasting G J T key val t \<longleftrightarrow> val \<noteq> [] \<and> t \<le> T \<and> (is_ok (validateLookupValue G J key val t) \<longrightarrow> is_ok (validateLookupValue G J key val T))"

fun calm :: "golib \<Rightarrow> jsonlib \<Rightarrow> time \<Rightarrow> string \<Rightarrow> server_event \<Rightarrow> bool" where
  "calm G J T key (Request put offs clk remote req) \<longleftrightarrow>
     (req_Target req = key \<longrightarrow> (\<forall>i \<le> 4. lasting G J T key (req_Data req) (clk i)))"
| "calm G J T key (Stored put k val now) \<longleftrightarrow> (k = key \<longrightarrow> lasting G J T key val now)"
| "calm G J T key (Local put k val now) \<longleftrightarrow> k \<noteq> key"
| "calm G J T key (Attach d order store now) \<longleftrightarrow> False"

lemma current_value_record [simp]:
  "current_value (recordVersionLocked G key p i c s) = current_value s"
  "current_value (recordConflictLocked G key i s) = current_value s"
  "current_value (persist key val s) = current_value s"
  by (rule ext, simp add: recordVersionLocked_def recordConflictLocked_def persist_def current_value_def Let_def)+

lemma current_value_upd:
  "current_value (t\<lparr>ds_Values := (ds_Values t)(key \<mapsto> x)\<rparr>) k = (if k = key then x else current_value t k)"
  by (simp add: current_value_def)

lemma storeValidated_value:
  fixes G J key val now
  defines "ch s \<equiv> chooseStoredValue G J key (current_value s key) val now"
  shows "current_value (snd (storeValidated G J put key val now s)) k =
    (if k = key \<and> ch_changed (ch s) \<and>
        \<not> (ds_persistence s \<noteq> None \<and> vv_verified (ch_incoming (ch s)) \<and> \<not> HasPrefix key ''hidden-desc/v1/'' \<and> \<not> put)
     then val else current_value s k)"
proof -
  have c: "ch_err (ch s) = None \<and> ch_stored (ch s) = val" if "ch_changed (ch s)"
    using chooseStoredValue_changed that by (simp add: ch_def)
  show ?thesis
    unfolding storeValidated_def Let_def ch_def [symmetric]
    using c by (cases "ch_err (ch s)") (auto simp: current_value_upd)
qed

lemma storeValidated_stored_at_least:
  assumes s: "stored_at_least G J T key family n s" and k: "signed_key key"
    and l: "k' = key \<Longrightarrow> lasting G J T key val now"
  shows "stored_at_least G J T key family n (snd (storeValidated G J put k' val now s))"
proof (cases "current_value (snd (storeValidated G J put k' val now s)) key = current_value s key")
  case True
  then show ?thesis using s by (simp add: stored_at_least_def)
next
  case False
  then have eq: "k' = key" "current_value (snd (storeValidated G J put k' val now s)) key = val"
    and ch: "ch_changed (chooseStoredValue G J key (current_value s key) val now)"
    unfolding storeValidated_value by (auto split: if_splits)
  note l = l [OF eq(1)]
  from s obtain v where v: "current_value s key \<noteq> []" "validateLookupValue G J key (current_value s key) T = Inr v"
    "vv_family v = family" "n \<le> vv_version v" by (auto simp: stored_at_least_def)
  have t: "now \<le> T" using l by (simp add: lasting_def)
  obtain iv where iv: "validateLookupValue G J key val now = Inr iv" "vv_family iv = vv_family v" "isNewerValue iv v"
    using chooseStoredValue_replaces [OF ch v(1) validateLookupValue_earlier [OF v(2) t] k] by blast
  then obtain iv' where "validateLookupValue G J key val T = Inr iv'"
    using l by (auto simp: lasting_def is_ok_iff)
  with iv validateLookupValue_earlier [OF this t] have "validateLookupValue G J key val T = Inr iv" by simp
  moreover have "n \<le> vv_version iv" using isNewerValue_version [OF iv(3)] v(4) by (rule order_trans [rotated])
  ultimately show ?thesis using iv(2) v(3) l eq by (simp add: stored_at_least_def lasting_def)
qed

lemma current_value_cong: "ds_Values s = ds_Values s' \<Longrightarrow> current_value s = current_value s'"
  by (rule ext) (simp add: current_value_def)

lemma gate_Values [simp]: "ds_Values (snd (gate clk remote req s)) = ds_Values s"
  by (simp add: gate_def allowHiddenDescriptorRequest_def Let_def split: prod.splits)

lemma server_step_stored_at_least:
  assumes s: "stored_at_least G J T key family n s" and k: "signed_key key"
    and st: "server_step G J s e s'" and c: "calm G J T key e"
  shows "stored_at_least G J T key family n s'"
  using st
proof cases
  case (request put offs clk remote req)
  let ?g = "snd (gate clk remote req s)"
  have keep: "stored_at_least G J T key family n u" if "ds_Values u = ds_Values s" for u
    using s current_value_cong [OF that] by (simp add: stored_at_least_def)
  have l: "j \<le> 4 \<Longrightarrow> req_Target req = key \<Longrightarrow> lasting G J T key (req_Data req) (clk j)" for j
    using c request by simp
  have "stored_at_least G J T key family n (snd (storeValidated G J put (req_Target req) (req_Data req) (clk j) u))"
    if "ds_Values u = ds_Values s" "j \<le> 4" for u j
    using storeValidated_stored_at_least [OF keep [OF that(1)] k l [OF that(2)]] .
  then show ?thesis
    using HandleDHT_state [of G J put offs clk remote req s] keep unfolding request(2) by (auto 0 3)
next
  case (stored put k' val now)
  then show ?thesis using storeValidated_stored_at_least [OF s k] c by simp
next
  case (local put k' val now)
  then have "current_value s' key = current_value s key"
    using c by (auto simp: StoreLocal_def current_value_def Let_def persist_def split: sum.splits)
  then show ?thesis using s by (simp add: stored_at_least_def)
next
  case (attach store order d now)
  then show ?thesis using c by simp
qed


section \<open>Publishing and finding a record\<close>

definition update_request :: "string \<Rightarrow> string \<Rightarrow> DHTRequest" where
  "update_request nodeID w = \<lparr>req_Version = DHTWireVersion, req_Type = DHTTypeUpdateIP, req_Action = ''update_ip'',
     req_Target = NodeIDKey nodeID, req_Data = w\<rparr>"

definition find_request :: "string \<Rightarrow> DHTRequest" where
  "find_request nodeID = \<lparr>req_Version = DHTWireVersion, req_Type = DHTTypeLookupKey, req_Action = ''find_value'',
     req_Target = nodeID, req_Data = []\<rparr>"

lemma requests_valid:
  assumes "sha256_ok G" "w \<noteq> []" "length w \<le> 1024 * 1024"
  shows "Validate G (update_request (NodeIDFromPublicKey G k) w) = Inr ()"
    and "Validate G (find_request (NodeIDFromPublicKey G k)) = Inr ()"
proof -
  have h: "isSHA256Hex G (EncodeToString (sha256 G k))" "length (sha256 G k) = 32"
    using assms(1) by (simp_all add: isSHA256Hex_def sha256_ok_def codec_simps)
  show "Validate G (update_request (NodeIDFromPublicKey G k) w) = Inr ()"
    "Validate G (find_request (NodeIDFromPublicKey G k)) = Inr ()"
    using h assms(2,3)
    by (simp_all add: Validate_def validate_type_def update_request_def find_request_def NodeIDKey_def
        NodeIDFromPublicKey_def validEndpointUpdateTarget_def HasPrefix_def TrimPrefix_def)
qed

lemma no_hidden_prefix [simp]:
  "\<not> stringsHasHiddenDescriptorKey (NodeIDKey n)" "\<not> stringsHasHiddenDescriptorKey (NodeIDFromPublicKey G k)"
  by (simp_all add: stringsHasHiddenDescriptorKey_def NodeIDKey_def NodeIDFromPublicKey_def)

text \<open>An unused key is never rate limited.\<close>

lemma allowStoreRequest_fresh:
  "ds_storeRates s = Map.empty \<Longrightarrow> fst (allowStoreRequest remote key trusted now s) = Inr ()"
  by (simp add: allowStoreRequest_def Let_def allowRateWindowLocked_def expire_rates_def zero_window_def IsZero_def)

lemma admit_first_value:
  assumes "validateLookupValue G J key w now = Inr v" "vv_authoritativePublisher v"
    and "current_value s key = []" "ds_storeRates s = Map.empty"
  shows "fst (admitStoreValue G J remote key w now s) = Inr ()"
    and "current_value (snd (admitStoreValue G J remote key w now s)) = current_value s"
    and "ds_persistence (snd (admitStoreValue G J remote key w now s)) = ds_persistence s"
proof -
  obtain r s1 where al: "allowStoreRequest remote key (isTrustedLookupKey key) now s = (r, s1)" by force
  with allowStoreRequest_fresh [OF assms(4), of remote key "isTrustedLookupKey key" now] have r: "r = Inr ()" by simp
  show cv: "current_value (snd (admitStoreValue G J remote key w now s)) = current_value s"
    by (rule current_value_cong) simp
  then have "current_value s1 key = []" using assms(3) al by (simp add: admitStoreValue_state)
  then show "fst (admitStoreValue G J remote key w now s) = Inr ()"
    using assms(1,2) al r by (simp add: admitStoreValue_def rejectStaleStoreValue_def)
  show "ds_persistence (snd (admitStoreValue G J remote key w now s)) = ds_persistence s"
    unfolding admitStoreValue_state allowStoreRequest_def Let_def by (simp split: prod.splits bool.splits)
qed

lemma store_first_value:
  assumes "validateLookupValue G J key w now = Inr v" "current_value s key = []" "ds_persistence s = None \<or> put"
  shows "fst (storeValidated G J put key w now s) = Inr (w, True)"
    and "current_value (snd (storeValidated G J put key w now s)) key = w"
proof -
  have c: "chooseStoredValue G J key (current_value s key) w now =
      \<lparr>ch_stored = w, ch_changed = True, ch_existing = zero_value, ch_incoming = v, ch_err = None\<rparr>"
    using assms(1,2) by (simp add: chooseStoredValue_def)
  show "fst (storeValidated G J put key w now s) = Inr (w, True)"
    using assms(3) by (auto simp: storeValidated_def Let_def c)
  show "current_value (snd (storeValidated G J put key w now s)) key = w"
    using assms(3) unfolding storeValidated_value c by auto
qed

lemma HandleDHT_update:
  assumes "Validate G (update_request n w) = Inr ()" "update_ip_check G J clk (update_request n w) = Inr ()"
    and "admitStoreValue G J remote (NodeIDKey n) w (clk 3) p = (Inr (), p1)"
    and "storeValidated G J put (NodeIDKey n) w (clk 4) p1 = (Inr x, p2)"
  shows "HandleDHT G J put offs clk remote (update_request n w) p =
    (Inr \<lparr>resp_Version = DHTWireVersion, resp_Type = DHTTypeUpdateIP, resp_Nodes = [], resp_Value = []\<rparr>, p2)"
  using assms by (simp add: HandleDHT_def update_request_def)

lemma HandleDHT_find:
  assumes "Validate G (find_request n) = Inr ()" "\<not> stringsHasHiddenDescriptorKey n"
  shows "\<exists>resp. HandleDHT G J put offs clk remote (find_request n) p = (Inr resp, p) \<and>
    resp_Value resp = current_value p (NodeIDKey n)"
  using assms by (simp add: HandleDHT_def find_request_def find_value_reply_def Let_def current_value_def)

text \<open>
  A published record can be found. A node signs its endpoint record (version 2) and wraps it for
  its node ID key; a peer that has nothing under the key yet and has not counted requests before
  accepts the \<^verbatim>\<open>update_ip\<close> request, and a later \<^verbatim>\<open>find_value\<close> request for the node ID gets exactly the
  published value, as long as the record has not expired.
\<close>

theorem published_record_is_found:
  assumes laws: "sha256_ok G" "ed25519_ok G" "rfc3339_ok G" "rfc3339_ascii G" "envelope_json_ok J"
    and t: "0 \<le> now" "now + ttl < rfc3339_end" "second \<le> ttl"
    and r: "newEndpointRecord G i nodeName address ttl now sq = Inr r" "sq \<noteq> 0"
    and raw: "Decode (js_tokens J) (js_endpoint J) raw = Inr r" "is_ascii raw" "raw \<noteq> []"
    and ts: "now' \<le> whole (now + ttl)" "\<And>k. clk k \<le> whole (now + ttl)"
    and s: "ds_publisher s = i"
    and p: "current_value p (NodeIDKey (id_NodeID i)) = []" "ds_storeRates p = Map.empty" "ds_persistence p = None \<or> put"
  shows "\<exists>w e. prepareStoreValue G J (NodeIDKey (id_NodeID i)) raw now' s = Inr w \<and>
    maybeDecodeEnvelope J w = Inr (Some e) \<and> se_Value e = raw \<and>
    (w \<noteq> [] \<and> length w \<le> 1024 * 1024 \<longrightarrow>
      (\<exists>resp p' resp'. HandleDHT G J put offs clk remote (update_request (id_NodeID i) w) p = (Inr resp, p') \<and>
         HandleDHT G J put' offs' clk' remote' (find_request (id_NodeID i)) p' = (Inr resp', p') \<and> resp_Value resp' = w))"
proof -
  let ?k = "NodeIDKey (id_NodeID i)" and ?v = "own_endpoint_value G i r raw now ttl sq"
  have i: "Identity_Validate G i = Inr ()" "id_NodeID i = NodeIDFromPublicKey G (id_PublicKey i)"
    using newEndpointRecord_fields(3) [OF r(1)] by (auto simp: Identity_Validate_iff)
  note inner = own_endpoint_validates(1) [OF laws(2,3) t r raw(1)]
  note ex = own_endpoint_published [OF laws(2-5) t r raw ts(1)]
  obtain w e where w: "wrapSignedEnvelope G J i ?k raw ?v now' = Inr w" "maybeDecodeEnvelope J w = Inr (Some e)" "se_Value e = raw"
    using ex [OF ts(1)] by blast
  have val: "validateLookupValue G J ?k w u = Inr (published ?v w (id_NodeID i))" if "u \<le> whole (now + ttl)" for u
    using ex [OF that] w by auto
  have prep: "prepareStoreValue G J ?k raw now' s = Inr w"
    using inner [OF ts(1)] w i(1) s by (simp add: prepareStoreValue_def)
  have pub: "vv_raw (published ?v w (id_NodeID i)) = raw" "vv_verified (published ?v w (id_NodeID i))"
    "vv_authoritativePublisher (published ?v w (id_NodeID i))"
    by (simp_all add: published_def)
  have "VerifyEndpointRecord G r (clk 2) = Inr ()"
    using newEndpointRecord_verifies_at [OF laws(2,3) t r(1), of "clk 2"] ts(2) [of 2] by (simp add: VerifyEndpointRecord_def)
  then have chk: "update_ip_check G J clk (update_request (id_NodeID i) w) = Inr ()"
    using val [OF ts(2)] pub raw(1) newEndpointRecord_fields(6) [OF r(1)]
    by (simp add: update_ip_check_def update_request_def)
  obtain a p1 where a: "admitStoreValue G J remote ?k w (clk 3) p = (a, p1)" by force
  note ad = admit_first_value [OF val [OF ts(2), of 3] pub(3) p(1,2), of remote, unfolded a fst_conv snd_conv]
  obtain b p2 where b: "storeValidated G J put ?k w (clk 4) p1 = (b, p2)" by force
  with store_first_value [OF val [OF ts(2), of 4], of p1 put] ad p have b2: "b = Inr (w, True)" "current_value p2 ?k = w"
    by simp_all
  have "\<exists>resp p' resp'. HandleDHT G J put offs clk remote (update_request (id_NodeID i) w) p = (Inr resp, p') \<and>
      HandleDHT G J put' offs' clk' remote' (find_request (id_NodeID i)) p' = (Inr resp', p') \<and> resp_Value resp' = w"
    if "w \<noteq> []" "length w \<le> 1024 * 1024"
    using HandleDHT_update [OF _ chk, of remote p p1 put _ p2] HandleDHT_find [of G "id_NodeID i" J put' offs' clk' remote' p2]
      requests_valid [OF laws(1) that, of "id_PublicKey i"] i(2) a b b2 ad(1) by auto
  with prep w(2,3) show ?thesis by blast
qed

section \<open>Concrete values\<close>

definition demo_endpoint :: "u64 \<Rightarrow> EndpointRecord" where
  "demo_endpoint sq = projr (newEndpointRecord demo_lib demo_identity ''node-1'' demo_addr (60 * second) 0 sq)"

abbreviation demo_text :: "u64 \<Rightarrow> string" where
  "demo_text sq \<equiv> demo_endpoint_text (demo_endpoint sq)"

abbreviation demo_key :: string where
  "demo_key \<equiv> NodeIDKey (id_NodeID demo_identity)"

lemma demo_endpoint_new:
  "newEndpointRecord demo_lib demo_identity ''node-1'' demo_addr (60 * second) 0 sq = Inr (demo_endpoint sq)"
  using demo_record [of "60 * second" 0 sq] by (auto simp: demo_endpoint_def second_def)

lemma demo_decode: "Decode (js_tokens demo_jsonlib) (js_endpoint demo_jsonlib) (demo_text sq) = Inr (demo_endpoint sq)"
  by (simp add: demo_jsonlib_def Decode_def rejectDuplicateKeys_def Token_def scanValue.simps)

lemma demo_times: "(0 :: time) \<le> 0" "0 + 60 * second < rfc3339_end" "second \<le> 60 * second" "whole (0 + 60 * second) = 60 * second"
  by (simp_all add: second_def rfc3339_end_def)

lemma demo_identity_sel:
  "id_NodeID demo_identity = NodeIDFromPublicKey demo_lib (id_PublicKey demo_identity)" "length (id_PublicKey demo_identity) = 32"
  using demo_identity_ok by (auto simp: Identity_Validate_iff)

lemma demo_fields:
  "er_NodeID (demo_endpoint sq) = id_NodeID demo_identity" "er_NodeName (demo_endpoint sq) = ''NODE-1''"
  "er_Address (demo_endpoint sq) = demo_addr" "er_PublicKey (demo_endpoint sq) = b64_encode StdEncoding (id_PublicKey demo_identity)"
  "er_IssuedAt (demo_endpoint sq) = rfc3339_format demo_lib 0" "er_ExpiresAt (demo_endpoint sq) = rfc3339_format demo_lib (0 + 60 * second)"
  "er_Version (demo_endpoint sq) = (if sq > 0 then 2 else 1)" "er_Sequence (demo_endpoint sq) = sq"
  "er_Signature (demo_endpoint sq) = b64_encode StdEncoding
     (ed25519_sign demo_lib (id_PrivateKey demo_identity) (signingPayload (demo_endpoint sq)))"
proof -
  note f = newEndpointRecord_fields [OF demo_endpoint_new [of sq]]
  have "NormalizeNodeName demo_lib ''node-1'' = Inr ''NODE-1''" by code_simp
  then show "er_NodeName (demo_endpoint sq) = ''NODE-1''" using f(4) by simp
qed (rule newEndpointRecord_fields [OF demo_endpoint_new])+

lemma is_ascii_append [simp]: "is_ascii (s @ t) \<longleftrightarrow> is_ascii s \<and> is_ascii t"
  by (simp add: is_ascii_def)

lemma is_ascii_pack: "list_all is_ascii ss \<Longrightarrow> is_ascii (pack ss)"
  by (induction ss) (auto simp: pack_def pack1_def is_ascii_def list_all_iff)

lemma ascii_Itoa [simp]: "is_ascii (Itoa n)"
  using Itoa_digits [of _ n] by (fastforce simp: is_ascii_def list_all_iff)

lemma length_pack: "length (pack ss) = sum_list (map (\<lambda>s. 2 * length s + 1) ss)"
  by (induction ss) (simp_all add: pack_def pack1_def)

lemma ascii_demo_format [simp]: "is_ascii (rfc3339_format demo_lib t)" "length (rfc3339_format demo_lib t) = 16"
  by (simp_all add: demo_lib_def)

lemma demo_text_ascii: "is_ascii (demo_text sq)" "demo_text sq \<noteq> []"
proof -
  have "is_ascii demo_addr" "is_ascii ''NODE-1''" by code_simp+
  then have "is_ascii (pack [Itoa (unat (er_Version (demo_endpoint sq))), Itoa (unat (er_Sequence (demo_endpoint sq))),
     er_NodeID (demo_endpoint sq), er_NodeName (demo_endpoint sq), er_Address (demo_endpoint sq),
     er_PublicKey (demo_endpoint sq), er_IssuedAt (demo_endpoint sq), er_ExpiresAt (demo_endpoint sq), er_Signature (demo_endpoint sq)])"
    by (intro is_ascii_pack) (simp add: demo_fields demo_identity_sel(1))
  then show "is_ascii (demo_text sq)" by (simp add: demo_endpoint_text_def is_ascii_def)
qed (simp add: demo_endpoint_text_def)

lemma demo_validates:
  assumes "sq \<noteq> 0" "t \<le> 60 * second"
  shows "validateLookupValue demo_lib demo_jsonlib demo_key (demo_text sq) t =
    Inr (own_endpoint_value demo_lib demo_identity (demo_endpoint sq) (demo_text sq) 0 (60 * second) sq)"
proof -
  have "maybeDecodeEnvelope demo_jsonlib (demo_text sq) = Inr None"
    by (simp add: maybeDecodeEnvelope_def demo_jsonlib_def demo_envelope_of_def demo_endpoint_text_def)
  then show ?thesis
    using own_endpoint_validates(1) [OF demo_lib_ok(2,3) demo_times(1-3) demo_endpoint_new assms(1) demo_decode, of t] assms(2)
    by (simp add: validateLookupValue_def demo_times(4) [simplified])
qed

definition demo_publisher :: Server where
  "demo_publisher = NewServerWithIdentity demo_lib demo_identity"

definition demo_peer_server :: Server where
  "demo_peer_server = NewServer demo_lib ''vx6_peer''"

lemma demo_wrapped_size:
  assumes "prepareStoreValue demo_lib demo_jsonlib demo_key (demo_text 7) second demo_publisher = Inr w"
  shows "w \<noteq> [] \<and> is_ascii w \<and> length w \<le> 10000"
proof -
  let ?v = "own_endpoint_value demo_lib demo_identity (demo_endpoint 7) (demo_text 7) 0 (60 * second) 7"
  have s: "length (ed25519_sign demo_lib k m) = 64" for k m using demo_lib_ok(2) by (simp add: ed25519_ok_def)
  have h: "length (NodeIDFromPublicKey demo_lib k) = 68" for k
    using demo_lib_ok(1) by (simp add: NodeIDFromPublicKey_def sha256_ok_def)
  have d: "length (Itoa 7) = 1" "length (Itoa 2) = 1" "length demo_addr = 37" "unat (2 :: byte) = 2" "unat (7 :: u64) = 7"
    by (simp_all add: Itoa.simps demo_addr_def)
  have t: "length (demo_text 7) \<le> 1000"
    by (simp add: demo_endpoint_text_def length_pack demo_fields demo_identity_sel h s length_b64 d)
  have "second \<le> whole (0 + 60 * second)" by (simp add: second_def)
  note inner = own_endpoint_validates(1) [OF demo_lib_ok(2,3) demo_times(1-3) demo_endpoint_new _ demo_decode this, of 7]
  have "ds_publisher demo_publisher = demo_identity"
    by (simp add: demo_publisher_def NewServerWithIdentity_def SetPublisherIdentity_def demo_identity_ok Let_def)
  then have "w = demo_envelope_text (signed_envelope demo_lib demo_identity demo_key (demo_text 7) ?v second)"
    using assms inner demo_identity_ok
    by (simp add: prepareStoreValue_def wrapSignedEnvelope_ok demo_jsonlib_def)
  moreover have "is_ascii (demo_envelope_text (signed_envelope demo_lib demo_identity demo_key (demo_text 7) ?v second))"
  proof -
    have "is_ascii demo_key" using ascii_NodeID by (simp add: NodeIDKey_def is_ascii_def demo_identity_sel(1))
    then have "list_all is_ascii (Itoa n # se_fields (signed_envelope demo_lib demo_identity demo_key (demo_text 7) ?v second))" for n
      using demo_text_ascii(1) by (simp add: se_fields_def signed_envelope_signature demo_identity_sel(1))
    then show ?thesis unfolding demo_envelope_text_def using is_ascii_pack by (fastforce simp: is_ascii_def)
  qed
  ultimately show ?thesis
    using t by (simp add: demo_envelope_text_def se_fields_def length_pack signed_envelope_signature NodeIDKey_def h s
        length_b64 d demo_identity_sel)
qed


end
