(* ===== verification/StoreLimits.thy ===== *)
theory StoreLimits
  imports StoreFacts
begin

text \<open>
  Bounds on what clients can make the DHT server do: the rate limit on stores and the size of its
  state.
\<close>

section \<open>Rate limits\<close>

definition key_class :: "string \<Rightarrow> string \<Rightarrow> string" where
  "key_class remoteAddr key = ''store'' @ [CHR 0x0A] @ Trim (remote_host remoteAddr) ''[]'' @ [CHR 0x0A] @ key"

definition store_limit :: "string \<Rightarrow> int" where
  "store_limit key = (if isTrustedLookupKey key then 24 else 48)"

text \<open>A sequence of store requests (remote address, key, time) at the rate limiter, with its answers.\<close>

fun limit_all :: "(string \<times> string \<times> time) list \<Rightarrow> Server \<Rightarrow> (store_error + unit) list \<times> Server" where
  "limit_all [] s = ([], s)"
| "limit_all ((remote, key, now) # reqs) s =
     (let (a, s1) = allowStoreRequest remote key (isTrustedLookupKey key) now s; (as, s2) = limit_all reqs s1 in (a # as, s2))"

definition admitted :: "string \<Rightarrow> (string \<times> string \<times> time) list \<Rightarrow> (store_error + unit) list \<Rightarrow> nat" where
  "admitted c reqs as = length (filter (\<lambda>((remote, key, now), a). is_ok a \<and> key_class remote key = c) (zip reqs as))"

text \<open>How many requests of a class can still be admitted before \<open>t0 + 30\<close> seconds.\<close>

definition headroom :: "time \<Rightarrow> int \<Rightarrow> rateWindow option \<Rightarrow> int" where
  "headroom t0 limit e = (case e of
     None \<Rightarrow> limit
   | Some w \<Rightarrow> max 0 (limit - rw_Count w) + (if t0 \<le> rw_WindowStart w then 0 else limit))"

lemma headroom_expire: "0 \<le> limit \<Longrightarrow> t < t0 + W \<Longrightarrow> 0 < W \<Longrightarrow> W * 2 < 2 ^ 63 - 1 \<Longrightarrow>
   headroom t0 limit (expire_rates t W r c) \<le> headroom t0 limit (r c)"
  by (auto simp: headroom_def expire_rates_def Sub_greater_iff split: option.splits)

lemma headroom_allow:
  assumes "0 < limit" "t0 \<le> t" "t < t0 + W" "0 < t0" "0 < W" "W \<le> 2 ^ 63 - 1"
    and a: "allowRateWindowLocked c t W limit r = (b, r')"
  shows "(if b then 1 else 0) + headroom t0 limit (r' c) \<le> headroom t0 limit (r c)"
proof -
  have less: "Sub t u < W" if "t0 \<le> u" for u using assms that by (subst Sub_less_iff) auto
  show ?thesis
    using a assms(1,2) less assms(4) unfolding allowRateWindowLocked_def Let_def
    by (auto simp: headroom_def zero_window_def IsZero_def max_def split: option.splits if_splits)
      (force+)
qed

lemma allow_other: "c \<noteq> k \<Longrightarrow> snd (allowRateWindowLocked k t W limit r) c = r c"
  by (simp add: allowRateWindowLocked_def Let_def)

lemma allowStoreRequest_headroom:
  assumes t: "t0 \<le> t" "t < t0 + 30 * second" "0 < t0"
    and a: "allowStoreRequest remote key (isTrustedLookupKey key) t s = (a, s')"
    and lim: "key_class remote key = c \<longrightarrow> store_limit key = limit" "0 < limit"
    and c: "\<not> HasPrefix c ''store-family''"
  shows "(if is_ok a \<and> key_class remote key = c then 1 else 0) + headroom t0 limit (ds_storeRates s' c) \<le>
    headroom t0 limit (ds_storeRates s c)"
proof -
  define W where "W = 30 * second"
  define r0 where "r0 = expire_rates t W (ds_storeRates s)"
  define fam where "fam = ''store-family'' @ [CHR 0x0A] @ Trim (remote_host remote) ''[]'' @ [CHR 0x0A] @ storeFamily key"
  obtain b1 r1 where r1: "allowRateWindowLocked (key_class remote key) t W (store_limit key) r0 = (b1, r1)" by force
  obtain b2 r2 where r2: "allowRateWindowLocked fam t W (store_limit key * 2) r1 = (b2, r2)" by force
  have res: "(a, s') = (if \<not> b1 then (Inl (StoreRateLimit key), s\<lparr>ds_storeRates := r1\<rparr>)
      else if b2 then (Inr (), s\<lparr>ds_storeRates := r2\<rparr>) else (Inl (StoreFamilyRateLimit key), s\<lparr>ds_storeRates := r2\<rparr>))"
    unfolding a [symmetric] allowStoreRequest_def Let_def
    using r1 r2 by (auto simp: key_class_def fam_def store_limit_def r0_def W_def)
  have w: "0 < W" "t < t0 + W" "W * 2 < 2 ^ 63 - 1" "W \<le> 2 ^ 63 - 1" using t(2) by (simp_all add: W_def second_def)
  have 0: "headroom t0 limit (r0 c) \<le> headroom t0 limit (ds_storeRates s c)"
    unfolding r0_def using lim(2) w by (intro headroom_expire) auto
  have "fam \<noteq> c" using c by (auto simp: fam_def HasPrefix_def)
  then have 2: "r2 c = r1 c" using allow_other [of c fam t W _ r1] r2 by (metis snd_conv)
  have 1: "(if b1 \<and> key_class remote key = c then 1 else 0) + headroom t0 limit (r1 c) \<le> headroom t0 limit (r0 c)"
  proof (cases "key_class remote key = c")
    case True
    with lim r1 headroom_allow [OF lim(2) t(1) w(2) t(3) w(1,4)] show ?thesis by simp
  next
    case False
    then show ?thesis using r1 allow_other [of c "key_class remote key" t W _ r0] by (metis snd_conv add_0 order_refl)
  qed
  from res 0 1 2 show ?thesis by (auto split: if_splits)
qed

lemma limit_all_headroom:
  assumes "\<forall>(remote, key, t) \<in> set reqs. t0 \<le> t \<and> t < t0 + 30 * second \<and> (key_class remote key = c \<longrightarrow> store_limit key = limit)"
    and "0 < t0" "0 < limit" "\<not> HasPrefix c ''store-family''" "limit_all reqs s = (as, s')"
  shows "int (admitted c reqs as) + headroom t0 limit (ds_storeRates s' c) \<le> headroom t0 limit (ds_storeRates s c)"
  using assms(1,5)
proof (induction reqs s arbitrary: as s' rule: limit_all.induct)
  case (1 s)
  then show ?case by (simp add: admitted_def)
next
  case (2 remote key now reqs s)
  obtain a s1 where a: "allowStoreRequest remote key (isTrustedLookupKey key) now s = (a, s1)" by force
  obtain as2 s2 where r: "limit_all reqs s1 = (as2, s2)" by force
  have eq: "as = a # as2" "s' = s2" using 2(3) by (simp_all add: a r)
  have "int (admitted c reqs as2) + headroom t0 limit (ds_storeRates s2 c) \<le> headroom t0 limit (ds_storeRates s1 c)"
    using 2(1) [OF a [symmetric] refl _ r] 2(2) by simp
  moreover have "(if is_ok a \<and> key_class remote key = c then 1 else 0) + headroom t0 limit (ds_storeRates s1 c) \<le>
      headroom t0 limit (ds_storeRates s c)"
    using 2(2) assms(2-4) by (intro allowStoreRequest_headroom [OF _ _ assms(2) a]) auto
  moreover have "admitted c ((remote, key, now) # reqs) (a # as2) =
      (if is_ok a \<and> key_class remote key = c then 1 else 0) + admitted c reqs as2"
    by (simp add: admitted_def)
  ultimately show ?case unfolding eq by (auto split: if_splits)
qed

text \<open>
  C17: the store rate limit. In any 30 seconds, whatever requests of all hosts for all keys arrive in
  whatever order, a host gets at most 48 stores of one signed key (96 of another key) past the rate
  limiter, twice the configured limit because a window may begin in between; it gets at most half of
  that when no window for the host and the key was open before.
\<close>

theorem store_rate_limit:
  assumes "server_ok s" "0 < t0" "\<forall>(remote, key, t) \<in> set reqs. t0 \<le> t \<and> t < t0 + 30 * second"
    and "\<forall>(remote, key, t) \<in> set reqs. key_class remote key = c \<longrightarrow> store_limit key = limit"
    and "limit \<in> {24, 48}" "c = key_class remote0 key0" "limit_all reqs s = (as, s')"
  shows "int (admitted c reqs as) \<le> 2 * limit \<and>
    (ds_storeRates s c = None \<longrightarrow> int (admitted c reqs as) \<le> limit)"
proof -
  have nf: "\<not> HasPrefix c ''store-family''" by (simp add: assms(6) key_class_def HasPrefix_def)
  have "int (admitted c reqs as) + headroom t0 limit (ds_storeRates s' c) \<le> headroom t0 limit (ds_storeRates s c)"
    by (rule limit_all_headroom [OF _ assms(2) _ nf assms(7)]) (use assms(3-5) in auto)
  moreover have "0 \<le> headroom t0 limit (ds_storeRates s' c)"
    using assms(5) by (auto simp: headroom_def split: option.splits)
  moreover have "headroom t0 limit (ds_storeRates s c) \<le> 2 * limit"
    "ds_storeRates s c = None \<Longrightarrow> headroom t0 limit (ds_storeRates s c) = limit"
  proof -
    have "1 \<le> rw_Count w" if "ds_storeRates s c = Some w" for w
      using assms(1) that by (auto simp: server_ok_def rates_ok_def)
    then show "headroom t0 limit (ds_storeRates s c) \<le> 2 * limit"
      using assms(5) by (cases "ds_storeRates s c") (auto simp: headroom_def)
  qed (simp add: headroom_def)
  ultimately show ?thesis by auto
qed

theorem store_rate_limit_witness:
  "let reqs = replicate 60 (demo_addr, ''service/x'', 5 * second); c = key_class demo_addr ''service/x'' in
     admitted c reqs (fst (limit_all reqs demo_peer_server)) \<le> 24"
proof -
  let ?reqs = "replicate 60 (demo_addr, ''service/x'', 5 * second)" and ?c = "key_class demo_addr ''service/x''"
  obtain as s' where r: "limit_all ?reqs demo_peer_server = (as, s')" by force
  have lim: "store_limit ''service/x'' = 24" by code_simp
  have "server_ok demo_peer_server" "ds_storeRates demo_peer_server ?c = None"
    by (simp_all add: demo_peer_server_def NewServer_ok) (simp add: NewServer_def)
  moreover have "\<forall>(remote, key, t) \<in> set ?reqs. 5 * second \<le> t \<and> t < 5 * second + 30 * second"
    "\<forall>(remote, key, t) \<in> set ?reqs. key_class remote key = ?c \<longrightarrow> store_limit key = 24"
    by (simp_all add: lim second_def)
  moreover have "0 < 5 * second" by (simp add: second_def)
  ultimately have "int (admitted ?c ?reqs as) \<le> 24"
    using store_rate_limit [of demo_peer_server "5 * second" ?reqs ?c 24 demo_addr "''service/x''" as s'] r by simp
  then show ?thesis by (simp only: Let_def r fst_conv of_nat_le_numeral_iff)
qed

section \<open>Bounded state\<close>

text \<open>Which limit a counter has: by the class its name belongs to.\<close>

definition family_class :: "string \<Rightarrow> string \<Rightarrow> string" where
  "family_class remoteAddr fam = ''store-family'' @ [CHR 0x0A] @ Trim (remote_host remoteAddr) ''[]'' @ [CHR 0x0A] @ fam"

definition hidden_class :: "string \<Rightarrow> string \<Rightarrow> string" where
  "hidden_class action remoteAddr = action @ [CHR 0x0A] @ remote_host remoteAddr"

definition store_bound :: "string \<Rightarrow> int \<Rightarrow> bool" where
  "store_bound c l \<longleftrightarrow> (\<exists>remote k. c = key_class remote k \<and> l = store_limit k) \<or>
     (\<exists>remote fam. c = family_class remote fam \<and> l = (if fam = ''other'' then 96 else 48))"

definition hidden_bound :: "string \<Rightarrow> int \<Rightarrow> bool" where
  "hidden_bound c l \<longleftrightarrow> (\<exists>remote. c = hidden_class ''find_value'' remote \<and> l = 48) \<or>
     (\<exists>remote. c = hidden_class ''store'' remote \<and> l = 24)"

definition within :: "(string \<Rightarrow> int \<Rightarrow> bool) \<Rightarrow> rates \<Rightarrow> bool" where
  "within bound r \<longleftrightarrow> (\<forall>c w. r c = Some w \<longrightarrow> (\<exists>l. bound c l \<and> 1 \<le> rw_Count w \<and> rw_Count w \<le> l))"

definition counters_ok :: "Server \<Rightarrow> bool" where
  "counters_ok s \<longleftrightarrow> within store_bound (ds_storeRates s) \<and> within hidden_bound (ds_hiddenRates s)"

lemma within_expire: "within bound r \<Longrightarrow> within bound (expire_rates now w r)"
  by (auto simp: within_def expire_rates_def split: option.splits if_splits)

lemma within_allow:
  assumes "within bound r" "bound key limit" "1 \<le> limit"
  shows "within bound (snd (allowRateWindowLocked key now w limit r))"
proof -
  define old where "old = (case r key of Some x \<Rightarrow> x | None \<Rightarrow> zero_window)"
  have "0 \<le> rw_Count old" using assms(1) by (force simp: old_def within_def zero_window_def split: option.splits)
  then show ?thesis
    using assms unfolding allowRateWindowLocked_def old_def [symmetric] Let_def
    by (auto simp: within_def intro!: exI [of _ limit])
qed

lemma family_limit: "(if storeFamily k = ''other'' then 96 else 48) = store_limit k * 2"
  by (simp add: storeFamily_def store_limit_def isTrustedLookupKey_def)

lemma allowStoreRequest_counters [inv_intros]:
  assumes "counters_ok s"
  shows "counters_ok (snd (allowStoreRequest remote key (isTrustedLookupKey key) now s))"
proof -
  define W where "W = 30 * second"
  define r0 where "r0 = expire_rates now W (ds_storeRates s)"
  define r1 where "r1 = snd (allowRateWindowLocked (key_class remote key) now W (store_limit key) r0)"
  define r2 where "r2 = snd (allowRateWindowLocked (family_class remote (storeFamily key)) now W (store_limit key * 2) r1)"
  have pos: "1 \<le> store_limit key" by (simp add: store_limit_def)
  have "within store_bound r0" unfolding r0_def using assms by (intro within_expire) (simp add: counters_ok_def)
  then have 1: "within store_bound r1"
    unfolding r1_def using pos by (intro within_allow) (auto simp: store_bound_def)
  have "store_bound (family_class remote (storeFamily key)) (store_limit key * 2)"
    unfolding store_bound_def family_limit [symmetric] by blast
  then have 2: "within store_bound r2" unfolding r2_def using 1 pos by (intro within_allow) auto
  have "snd (allowStoreRequest remote key (isTrustedLookupKey key) now s) \<in> {s\<lparr>ds_storeRates := r1\<rparr>, s\<lparr>ds_storeRates := r2\<rparr>}"
    unfolding allowStoreRequest_def Let_def r2_def r1_def r0_def W_def key_class_def family_class_def store_limit_def
    by (auto split: prod.splits bool.splits)
  then show ?thesis using assms 1 2 by (auto simp: counters_ok_def)
qed

lemma gate_counters [inv_intros]:
  assumes "counters_ok s"
  shows "counters_ok (snd (gate clk remote req s))"
proof -
  let ?r = "\<lambda>a l. snd (allowRateWindowLocked (hidden_class a remote) (clk 0) (30 * second) l
    (expire_rates (clk 0) (30 * second) (ds_hiddenRates s)))"
  have "hidden_bound (hidden_class ''find_value'' remote) 48" "hidden_bound (hidden_class ''store'' remote) 24"
    by (auto simp: hidden_bound_def)
  then have "within hidden_bound (?r ''find_value'' 48)" "within hidden_bound (?r ''store'' 24)"
    using assms by (auto simp: counters_ok_def intro!: within_allow within_expire)
  moreover have "snd (gate clk remote req s) \<in>
      {s, s\<lparr>ds_hiddenRates := ?r ''find_value'' 48\<rparr>, s\<lparr>ds_hiddenRates := ?r ''store'' 24\<rparr>}"
    by (auto simp: gate_def allowHiddenDescriptorRequest_def Let_def hidden_class_def split: prod.splits)
  ultimately show ?thesis using assms by (auto simp: counters_ok_def)
qed

lemma counters_ok_cong: "ds_storeRates s' = ds_storeRates s \<Longrightarrow> ds_hiddenRates s' = ds_hiddenRates s \<Longrightarrow> counters_ok s' = counters_ok s"
  by (simp add: counters_ok_def)

lemma storeValidated_counters [simp]: "counters_ok (snd (storeValidated G J put key val now s)) = counters_ok s"
  by (rule counters_ok_cong)
    (auto simp: storeValidated_def Let_def persist_def recordVersionLocked_def recordConflictLocked_def split: option.splits)

lemma StoreLocal_counters [simp]: "counters_ok (StoreLocal G J put key val now s) = counters_ok s"
  by (rule counters_ok_cong) (auto simp: StoreLocal_def Let_def persist_def split: sum.splits)

lemma Attach_counters [simp]: "counters_ok (snd (AttachValuePersistence G J d order store now s)) = counters_ok s"
proof -
  have "counters_ok (foldl (\<lambda>s (key, raw). let s1 = s\<lparr>ds_Values := (ds_Values s)(key \<mapsto> raw)\<rparr> in
      case validateLookupValue G J key raw now of Inl _ \<Rightarrow> s1
      | Inr v \<Rightarrow> s1\<lparr>ds_versions := (ds_versions s1)(key \<mapsto>
          \<lparr>st_Current = storedVersionFromValidated G v, st_Previous = [], st_Conflicts = []\<rparr>)\<rparr>) s valid) = counters_ok s"
    for s valid
    by (induction valid arbitrary: s) (auto simp: Let_def counters_ok_def split: sum.splits prod.splits)
  then show ?thesis
    unfolding AttachValuePersistence_def
    by (auto split: option.splits sum.splits prod.splits simp: counters_ok_def)
qed

lemma HandleDHT_counters [inv_intros]:
  "counters_ok s \<Longrightarrow> counters_ok (snd (HandleDHT G J put offs clk remote req s))"
  using HandleDHT_state [of G J put offs clk remote req s]
  by (elim disjE exE) (auto simp: admitStoreValue_state intro: inv_intros)

interpretation limits: event_system "server_step G J" counters_ok for G J
  by unfold_locales (auto elim!: server_stepE intro: inv_intros)

text \<open>
  C18: the state of the server stays bounded and clean. After any sequence of requests, stores, local
  writes and attached databases, every key has at most six previous and six conflicting versions, all
  different. Every counter of stores is one of a host and a key, at most 24 for a signed key and 48 for another, or
  one of a host and a family of keys, at most 48 for the families of signed keys and 96 for the rest; every
  counter of hidden descriptor requests is one of a host's lookups, at most 48, or of its stores, at most 24. The
  database only holds values of signed keys, never a hidden descriptor.
\<close>

theorem server_state_bounded:
  assumes "steps (server_step G J) (NewServer G selfID) es s"
  shows "(\<forall>st. ds_versions s key = Some st \<longrightarrow> length (st_Previous st) \<le> 6 \<and> length (st_Conflicts st) \<le> 6 \<and>
      distinct (st_Previous st) \<and> distinct (st_Conflicts st)) \<and>
    (\<forall>c w. ds_storeRates s c = Some w \<longrightarrow>
       (\<exists>remote k. c = key_class remote k \<and> rw_Count w \<le> (if isTrustedLookupKey k then 24 else 48)) \<or>
       (\<exists>remote fam. c = family_class remote fam \<and> rw_Count w \<le> (if fam = ''other'' then 96 else 48))) \<and>
    (\<forall>c w. ds_hiddenRates s c = Some w \<longrightarrow>
       (\<exists>remote. c = hidden_class ''find_value'' remote \<and> rw_Count w \<le> 48) \<or>
       (\<exists>remote. c = hidden_class ''store'' remote \<and> rw_Count w \<le> 24)) \<and>
    (\<forall>rows raw. ds_persistence s = Some rows \<longrightarrow> rows key = Some raw \<longrightarrow>
      signed_key key \<and> \<not> HasPrefix key ''hidden-desc/v1/'')"
proof -
  have "counters_ok (NewServer G selfID)" by (simp add: counters_ok_def within_def NewServer_def)
  then have "counters_ok s" by (rule limits.steps_inv [OF assms])
  then have "ds_storeRates s c = Some w \<Longrightarrow>
      (\<exists>remote k. c = key_class remote k \<and> rw_Count w \<le> (if isTrustedLookupKey k then 24 else 48)) \<or>
      (\<exists>remote fam. c = family_class remote fam \<and> rw_Count w \<le> (if fam = ''other'' then 96 else 48))"
    "ds_hiddenRates s c = Some w \<Longrightarrow> (\<exists>remote. c = hidden_class ''find_value'' remote \<and> rw_Count w \<le> 48) \<or>
       (\<exists>remote. c = hidden_class ''store'' remote \<and> rw_Count w \<le> 24)" for c w
    unfolding counters_ok_def within_def store_bound_def hidden_bound_def store_limit_def by blast+
  moreover have "server_ok s" using store.steps_inv [OF assms NewServer_ok] .
  ultimately show ?thesis
    by (auto simp: server_ok_def history_ok_def disk_ok_def distinct_map dom_def)
qed

theorem server_state_bounded_witness:
  "\<exists>s st. steps (server_step demo_lib demo_jsonlib) (NewServer demo_lib ''vx6_peer'')
      [Stored True demo_key (demo_text 7) second, Stored True demo_key (demo_text 8) second] s \<and>
     ds_versions s demo_key = Some st \<and> length (st_Previous st) \<le> 6"
proof -
  define s1 where "s1 = snd (storeValidated demo_lib demo_jsonlib True demo_key (demo_text 7) second (NewServer demo_lib ''vx6_peer''))"
  define s2 where "s2 = snd (storeValidated demo_lib demo_jsonlib True demo_key (demo_text 8) second s1)"
  have st: "steps (server_step demo_lib demo_jsonlib) (NewServer demo_lib ''vx6_peer'')
      [Stored True demo_key (demo_text 7) second, Stored True demo_key (demo_text 8) second] s2"
    unfolding s2_def s1_def by (rule steps_cons, rule server_step.stored, rule steps_cons, rule server_step.stored, rule steps_nil)
  have "second \<le> 60 * second" by (simp add: second_def)
  then have "ds_versions s1 demo_key \<noteq> None"
    using demo_validates [of 7 second] demo_text_ascii(2) [of 7]
    by (simp add: s1_def storeValidated_def Let_def NewServer_def current_value_def chooseStoredValue_def recordVersionLocked_def)
  then have "ds_versions s2 demo_key \<noteq> None"
    unfolding s2_def storeValidated_def Let_def
    by (auto simp: recordConflictLocked_def recordVersionLocked_def persist_def Let_def split: option.splits)
  with st server_state_bounded [OF st, of demo_key] show ?thesis by blast
qed

end
