(* ===== verification/Collector.thy ===== *)
theory Collector
  imports LookupValue Asn "HOL-Library.AList"
begin

text \<open>
  Collecting the answers of a value lookup: \<^verbatim>\<open>lookupCollector\<close> and \<^verbatim>\<open>candidateObservation\<close> of
  \<^verbatim>\<open>internal/dht/value.go\<close>. A Go map is the association list of its entries in the order of insertion, a
  map used as a set the list of its elements; ranging over a map goes through this list, and the lemmas
  below show that any other order gives the same result. The resolver of autonomous systems is an argument.
\<close>

section \<open>Sources\<close>

record sourceObservation =
  so_nodeID :: string
  so_addr :: string
  so_trust :: int
  so_branch :: int

definition providerKey :: "golib \<Rightarrow> sourceObservation \<Rightarrow> string" where
  "providerKey G s = (case host_ip G (so_addr s) of None \<Rightarrow> []
   | Some ip \<Rightarrow>
       if IsLoopback ip then ''loopback:'' @ ip_string G ip
       else case To4 ip of
           Some v4 \<Rightarrow> ''provider4:'' @ ip_string G (Mask v4 (CIDRMask 16 32))
         | None \<Rightarrow> ''provider6:'' @ ip_string G (Mask ip (CIDRMask 32 128)))"

definition asnKey :: "golib \<Rightarrow> asn_resolver \<Rightarrow> sourceObservation \<Rightarrow> string" where
  "asnKey G R s = (case ResolveASNForAddr G R (so_addr s) of None \<Rightarrow> [] | Some asn \<Rightarrow> ''asn:'' @ asn)"

definition networkKey :: "golib \<Rightarrow> sourceObservation \<Rightarrow> string" where
  "networkKey G s = (case host_ip G (so_addr s) of None \<Rightarrow> []
   | Some ip \<Rightarrow>
       if IsLoopback ip then ''loopback:'' @ ip_string G ip
       else case To4 ip of
           Some v4 \<Rightarrow> ''ipv4:'' @ ip_string G (Mask v4 (CIDRMask 24 32))
         | None \<Rightarrow> ''ipv6:'' @ ip_string G (Mask ip (CIDRMask 64 128)))"

definition weightFor :: "sourceObservation \<Rightarrow> validatedValue \<Rightarrow> int" where
  "weightFor s v = so_trust s + (if vv_enveloped v then 1 else 0) + (if vv_authoritativePublisher v then 1 else 0)"

section \<open>One candidate value\<close>

record candidateObservation =
  co_value :: validatedValue
  co_sources :: "(string \<times> sourceObservation) list"
  co_exactSources :: "(string \<times> sourceObservation) list"
  co_providers :: "string list"
  co_exactProviders :: "string list"
  co_asns :: "string list"
  co_exactASNs :: "string list"
  co_networks :: "string list"
  co_exactNetworks :: "string list"
  co_branches :: "int list"
  co_exactBranches :: "int list"
  co_publishers :: "string list"
  co_exactWeight :: int

definition newCandidateObservation :: "validatedValue \<Rightarrow> candidateObservation" where
  "newCandidateObservation v = \<lparr>co_value = v, co_sources = [], co_exactSources = [], co_providers = [],
     co_exactProviders = [], co_asns = [], co_exactASNs = [], co_networks = [], co_exactNetworks = [],
     co_branches = [], co_exactBranches = [], co_publishers = [], co_exactWeight = 0\<rparr>"

definition add_key :: "'a \<Rightarrow> 'a list \<Rightarrow> 'a list" where
  "add_key k ks = (if k \<in> set ks then ks else ks @ [k])"

definition add_nonempty :: "string \<Rightarrow> string list \<Rightarrow> string list" where
  "add_nonempty k ks = (if k \<noteq> [] then add_key k ks else ks)"

definition addSource :: "golib \<Rightarrow> asn_resolver \<Rightarrow> sourceObservation \<Rightarrow> candidateObservation \<Rightarrow> candidateObservation" where
  "addSource G R s c = c
     \<lparr>co_sources := (if map_of (co_sources c) (so_nodeID s) = None then co_sources c @ [(so_nodeID s, s)] else co_sources c),
      co_providers := add_nonempty (providerKey G s) (co_providers c),
      co_asns := add_nonempty (asnKey G R s) (co_asns c),
      co_networks := add_nonempty (networkKey G s) (co_networks c),
      co_branches := (if so_branch s \<ge> 0 then add_key (so_branch s) (co_branches c) else co_branches c)\<rparr>"

definition addExactSource ::
  "golib \<Rightarrow> asn_resolver \<Rightarrow> sourceObservation \<Rightarrow> validatedValue \<Rightarrow> candidateObservation \<Rightarrow> candidateObservation" where
  "addExactSource G R s v c0 =
     (let c = (if map_of (co_exactSources c0) (so_nodeID s) = None
               then c0\<lparr>co_exactSources := co_exactSources c0 @ [(so_nodeID s, s)],
                       co_exactWeight := co_exactWeight c0 + weightFor s v\<rparr>
               else c0)
      in c\<lparr>co_exactProviders := add_nonempty (providerKey G s) (co_exactProviders c),
           co_exactASNs := add_nonempty (asnKey G R s) (co_exactASNs c),
           co_exactNetworks := add_nonempty (networkKey G s) (co_exactNetworks c),
           co_exactBranches := (if so_branch s \<ge> 0 then add_key (so_branch s) (co_exactBranches c) else co_exactBranches c),
           co_publishers := add_nonempty (vv_publisherNodeID v) (co_publishers c)\<rparr>)"

abbreviation (input) minTrustedSupportingSources :: nat where "minTrustedSupportingSources \<equiv> 2"
abbreviation (input) minTrustedConfirmationScore :: int where "minTrustedConfirmationScore \<equiv> 4"
abbreviation (input) minTrustedLookupBranches :: nat where "minTrustedLookupBranches \<equiv> 2"

definition onlyLoopbackNetworks :: "candidateObservation \<Rightarrow> bool" where
  "onlyLoopbackNetworks c \<longleftrightarrow> co_exactNetworks c \<noteq> [] \<and> list_all (\<lambda>n. HasPrefix n ''loopback:'') (co_exactNetworks c)"

definition confirmed :: "candidateObservation \<Rightarrow> bool" where
  "confirmed c \<longleftrightarrow>
     (if \<not> vv_verified (co_value c) then True
      else if length (co_exactSources c) < minTrustedSupportingSources then False
      else if co_exactWeight c < minTrustedConfirmationScore then False
      else if \<not> onlyLoopbackNetworks c \<and> length (co_exactBranches c) < minTrustedLookupBranches then False
      else True)"

section \<open>Results\<close>

datatype LookupOutcome = LookupNone | LookupFound | LookupNotFound | LookupIncomplete | LookupConflict

record LookupResult =
  lr_Outcome :: LookupOutcome
  lr_Value :: string
  lr_Verified :: bool
  lr_SourceCount :: nat
  lr_ExactMatchCount :: nat
  lr_QueriedNodes :: int
  lr_RejectedValues :: int
  lr_ConflictCount :: nat
  lr_ConflictValues :: "string list"
  lr_PublisherCount :: nat
  lr_NetworkDiversity :: nat
  lr_ProviderDiversity :: nat
  lr_ASNDiversity :: nat
  lr_BranchDiversity :: nat
  lr_TrustWeight :: int
  lr_Version :: u64

definition zero_result :: LookupResult where
  "zero_result = \<lparr>lr_Outcome = LookupNone, lr_Value = [], lr_Verified = False, lr_SourceCount = 0, lr_ExactMatchCount = 0,
     lr_QueriedNodes = 0, lr_RejectedValues = 0, lr_ConflictCount = 0, lr_ConflictValues = [], lr_PublisherCount = 0,
     lr_NetworkDiversity = 0, lr_ProviderDiversity = 0, lr_ASNDiversity = 0, lr_BranchDiversity = 0, lr_TrustWeight = 0,
     lr_Version = 0\<rparr>"

text \<open>
  The errors of a lookup; an incomplete lookup may wrap another error. \<^verbatim>\<open>errors.Is\<close> with one of the
  sentinels is a test of the constructor.
\<close>

datatype lookup_error =
    ErrConflictingValues string
  | ErrInsufficientConfirmation nat nat nat nat nat int
  | ErrLookupNotFound
  | ErrIncompleteTimeout int
  | ErrIncompleteLimit "lookup_error option"
  | ErrIncompleteFailures int
  | ErrIncompleteWrapped lookup_error

definition lookupResult :: "int \<Rightarrow> int \<Rightarrow> candidateObservation \<Rightarrow> LookupResult" where
  "lookupResult queried rejected c = zero_result
     \<lparr>lr_Value := vv_raw (co_value c), lr_Verified := vv_verified (co_value c), lr_SourceCount := length (co_sources c),
      lr_ExactMatchCount := length (co_exactSources c), lr_QueriedNodes := queried, lr_RejectedValues := rejected,
      lr_PublisherCount := length (co_publishers c), lr_NetworkDiversity := length (co_exactNetworks c),
      lr_ProviderDiversity := length (co_exactProviders c), lr_ASNDiversity := length (co_exactASNs c),
      lr_BranchDiversity := length (co_exactBranches c), lr_TrustWeight := co_exactWeight c,
      lr_Version := vv_version (co_value c)\<rparr>"

definition compareObservationStrength :: "candidateObservation \<Rightarrow> candidateObservation \<Rightarrow> int" where
  "compareObservationStrength l r =
     (if length (co_exactSources l) > length (co_exactSources r) then 1
      else if length (co_exactSources l) < length (co_exactSources r) then -1
      else if co_exactWeight l > co_exactWeight r then 1
      else if co_exactWeight l < co_exactWeight r then -1
      else if length (co_exactProviders l) > length (co_exactProviders r) then 1
      else if length (co_exactProviders l) < length (co_exactProviders r) then -1
      else if length (co_exactNetworks l) > length (co_exactNetworks r) then 1
      else if length (co_exactNetworks l) < length (co_exactNetworks r) then -1
      else if vv_fingerprint (co_value l) < vv_fingerprint (co_value r) then 1
      else if vv_fingerprint (co_value l) > vv_fingerprint (co_value r) then -1
      else 0)"

section \<open>The collector\<close>

record lookupCollector =
  lc_key :: string
  lc_now :: time
  lc_verified :: "(string \<times> candidateObservation) list"
  lc_raw :: "(string \<times> candidateObservation) list"
  lc_rejected :: int
  lc_conflicted :: int

definition newLookupCollector :: "string \<Rightarrow> time \<Rightarrow> lookupCollector" where
  "newLookupCollector key now = \<lparr>lc_key = key, lc_now = now, lc_verified = [], lc_raw = [], lc_rejected = 0, lc_conflicted = 0\<rparr>"

text \<open>The observation of a key, created when the key is new, is changed in place.\<close>

definition observed :: "string \<Rightarrow> validatedValue \<Rightarrow> (string \<times> candidateObservation) list \<Rightarrow> candidateObservation" where
  "observed k v obs = (case map_of obs k of Some c \<Rightarrow> c | None \<Rightarrow> newCandidateObservation v)"

definition note_verified ::
  "golib \<Rightarrow> asn_resolver \<Rightarrow> sourceObservation \<Rightarrow> validatedValue \<Rightarrow> candidateObservation \<Rightarrow> candidateObservation" where
  "note_verified G R s v c0 =
     (let c1 = addSource G R s c0;
          c2 = (if isNewerValue v (co_value c1)
                then c1\<lparr>co_value := v, co_exactSources := [], co_exactNetworks := [], co_publishers := [], co_exactWeight := 0\<rparr>
                else c1)
      in if vv_fingerprint v = vv_fingerprint (co_value c2) then addExactSource G R s v c2 else c2)"

definition fill_source :: "sourceObservation \<Rightarrow> sourceObservation" where
  "fill_source s = s\<lparr>so_nodeID := (if so_nodeID s = [] then ''unknown'' else so_nodeID s),
     so_trust := (if so_trust s \<le> 0 then 1 else so_trust s)\<rparr>"

definition Observe :: "golib \<Rightarrow> jsonlib \<Rightarrow> asn_resolver \<Rightarrow> sourceObservation \<Rightarrow> string \<Rightarrow> lookupCollector \<Rightarrow> lookupCollector" where
  "Observe G J R s0 raw c =
     (if TrimSpace G raw = [] then c
      else let s = fill_source s0 in
        case validateLookupValue G J (lc_key c) raw (lc_now c) of
          Inl _ \<Rightarrow> c\<lparr>lc_rejected := lc_rejected c + 1\<rparr>
        | Inr v \<Rightarrow>
            if vv_verified v
            then c\<lparr>lc_verified := AList.update (vv_family v)
                     (note_verified G R s v (observed (vv_family v) v (lc_verified c))) (lc_verified c)\<rparr>
            else c\<lparr>lc_raw := AList.update (vv_fingerprint v)
                     (addExactSource G R s v (addSource G R s (observed (vv_fingerprint v) v (lc_raw c)))) (lc_raw c)\<rparr>)"

definition IsConfirmed :: "lookupCollector \<Rightarrow> bool" where
  "IsConfirmed c = (case lc_verified c of [(_, candidate)] \<Rightarrow> confirmed candidate | _ \<Rightarrow> False)"

fun strongest :: "candidateObservation list \<Rightarrow> (candidateObservation \<times> nat) option \<Rightarrow> (candidateObservation \<times> nat) option" where
  "strongest [] best = best"
| "strongest (c # cs) None = strongest cs (Some (c, 1))"
| "strongest (c # cs) (Some (b, conflicts)) =
     (let cmp = compareObservationStrength c b in
      strongest cs (if cmp = 1 then Some (c, 1) else if cmp = 0 then Some (b, conflicts + 1) else Some (b, conflicts)))"

definition conflict_values :: "golib \<Rightarrow> candidateObservation list \<Rightarrow> string list" where
  "conflict_values G cs = sort (filter (\<lambda>raw. TrimSpace G raw \<noteq> []) (map (\<lambda>c. vv_raw (co_value c)) cs))"

definition resolve_raw :: "golib \<Rightarrow> string \<Rightarrow> int \<Rightarrow> int \<Rightarrow> candidateObservation list \<Rightarrow> LookupResult \<times> lookup_error option" where
  "resolve_raw G key queried rejected cs = (case strongest cs None of
     None \<Rightarrow> (zero_result\<lparr>lr_QueriedNodes := queried, lr_RejectedValues := rejected, lr_Outcome := LookupNotFound\<rparr>, Some ErrLookupNotFound)
   | Some (best, conflicts) \<Rightarrow>
       if conflicts > 1
       then (zero_result\<lparr>lr_Outcome := LookupConflict, lr_QueriedNodes := queried, lr_RejectedValues := rejected,
               lr_ConflictCount := conflicts, lr_ConflictValues := conflict_values G cs\<rparr>, Some (ErrConflictingValues key))
       else ((lookupResult queried rejected best)\<lparr>lr_Outcome := LookupFound\<rparr>, None))"

definition insufficient :: "candidateObservation \<Rightarrow> lookup_error" where
  "insufficient c = ErrInsufficientConfirmation (length (co_exactSources c)) (length (co_exactBranches c))
     (length (co_exactASNs c)) (length (co_exactProviders c)) (length (co_exactNetworks c)) (co_exactWeight c)"

definition Collector_Resolve :: "golib \<Rightarrow> int \<Rightarrow> lookupCollector \<Rightarrow> LookupResult \<times> lookup_error option" where
  "Collector_Resolve G queried c = (case lc_verified c of
     [] \<Rightarrow> resolve_raw G (lc_key c) queried (lc_rejected c) (map snd (lc_raw c))
   | [(_, candidate)] \<Rightarrow>
       (let result = lookupResult queried (lc_rejected c) candidate in
        if \<not> confirmed candidate then (result\<lparr>lr_Outcome := LookupIncomplete\<rparr>, Some (insufficient candidate))
        else (result\<lparr>lr_Outcome := LookupFound\<rparr>, None))
   | vs \<Rightarrow>
       (zero_result\<lparr>lr_Outcome := LookupConflict, lr_Verified := True, lr_QueriedNodes := queried,
          lr_RejectedValues := lc_rejected c, lr_ConflictCount := length vs,
          lr_ConflictValues := conflict_values G (map snd vs)\<rparr>,
        Some (ErrConflictingValues (Join (sort (map fst vs)) '', ''))))"

end
