(* ===== verification/Lookup.thy ===== *)
theory Lookup
  imports Collector Store
begin

text \<open>
  The iterative lookups of \<^verbatim>\<open>internal/dht/dht.go\<close>. A lookup asks batches of peers in parallel and reads
  their answers in the order they arrive. What arrives in a round is a list of events the environment
  chooses from the round and the batch: an answer, a failed query, or the end of the context; the select
  waits on an empty list until the context, which has a deadline, ends. An answer carries with every
  referral the clock reading at which it is verified. The routing table is not changed by others in the
  meantime. The maps \<^verbatim>\<open>known\<close> and \<^verbatim>\<open>matches\<close> are the lists of their entries in the order of insertion.
\<close>

section \<open>Selecting peers\<close>

definition put_node :: "NodeInfo \<Rightarrow> NodeInfo list \<Rightarrow> NodeInfo list" where
  "put_node n ns = (if ni_ID n \<in> ni_ID ` set ns then map (\<lambda>m. if ni_ID m = ni_ID n then n else m) ns else ns @ [n])"

definition add_node :: "NodeInfo \<Rightarrow> NodeInfo list \<Rightarrow> NodeInfo list" where
  "add_node n ns = (if ni_ID n \<in> ni_ID ` set ns then ns else ns @ [n])"

definition xorDistanceForNode :: "golib \<Rightarrow> NodeInfo \<Rightarrow> string \<Rightarrow> nat" where
  "xorDistanceForNode G node target =
     (if HasPrefix target ''node/name/''
      then xorDistance G (if ni_NameHash node = [] then NodeNameHash G (ni_Name node) else ni_NameHash node)
             (TrimPrefix target ''node/name/'')
      else xorDistance G (ni_ID node) (TrimPrefix target ''node/id/''))"

definition nearer :: "golib \<Rightarrow> string \<Rightarrow> NodeInfo \<Rightarrow> NodeInfo \<Rightarrow> bool" where
  "nearer G target a b \<longleftrightarrow>
     (let l = xorDistanceForNode G a target; r = xorDistanceForNode G b target in
      if l \<noteq> r then l < r else ni_ID a < ni_ID b)"

definition closestUnqueried :: "golib \<Rightarrow> NodeInfo list \<Rightarrow> string list \<Rightarrow> string \<Rightarrow> int \<Rightarrow> NodeInfo list" where
  "closestUnqueried G known queried target limit =
     (let all = sort_slice (nearer G target) (filter (\<lambda>n. ni_ID n \<notin> set queried) known) in
      if int (length all) > limit then take (nat limit) all else all)"

definition sortedKnown :: "golib \<Rightarrow> NodeInfo list \<Rightarrow> string \<Rightarrow> int \<Rightarrow> NodeInfo list" where
  "sortedKnown G known target limit =
     (let all = closestUnqueried G known [] target (int (length known)) in
      if int (length all) > limit then take (nat limit) all else all)"

definition matchesNodeLookupTarget :: "golib \<Rightarrow> NodeInfo \<Rightarrow> string \<Rightarrow> bool" where
  "matchesNodeLookupTarget G info target =
     (if HasPrefix target ''node/name/'' then
        let want = TrimPrefix target ''node/name/'' in
        NodeNameHash G (ni_Name info) = want \<and> (ni_NameHash info = [] \<or> ni_NameHash info = want)
      else if HasPrefix target ''node/id/'' then ni_ID info = TrimPrefix target ''node/id/''
      else if HasPrefix target ''vx6_'' then ni_ID info = target
      else ni_ID info = target)"

definition closestForTarget :: "golib \<Rightarrow> string \<Rightarrow> int \<Rightarrow> RoutingTable \<Rightarrow> NodeInfo list" where
  "closestForTarget G target cnt t =
     (if HasPrefix target ''node/name/'' then ClosestNodesByNameHash G (TrimPrefix target ''node/name/'') cnt t
      else ClosestNodes G target cnt t)"

definition addDiversityFallback :: "NodeInfo list \<Rightarrow> NodeInfo list \<Rightarrow> NodeInfo list" where
  "addDiversityFallback known contacts = fold add_node contacts known"

section \<open>Looking up nodes\<close>

record NodeLookupResult =
  nr_Matches :: "NodeInfo list"
  nr_Closest :: "NodeInfo list"
  nr_Outcome :: LookupOutcome
  nr_QueriedNodes :: int
  nr_Rounds :: int

record node_lookup =
  nl_RT :: RoutingTable
  nl_known :: "NodeInfo list"
  nl_matches :: "NodeInfo list"
  nl_queriedIDs :: "string list"
  nl_transient :: "string list"
  nl_queries :: int
  nl_failures :: int
  nl_rounds :: int
  nl_diversityLoaded :: bool

datatype node_event =
    NodeReply NodeInfo "(NodeInfo \<times> time) list"
  | NodeFailed NodeInfo
  | NodeCtxDone

definition absorb_ref :: "golib \<Rightarrow> string \<Rightarrow> NodeInfo \<times> time \<Rightarrow> node_lookup \<Rightarrow> node_lookup" where
  "absorb_ref G target rn st = (case rn of (ref, now) \<Rightarrow>
     if VerifyNodeInfo G ref now \<noteq> Inr () \<or> ni_ID ref = [] \<or> ni_Addr ref = [] then st
     else st\<lparr>nl_known := add_node ref (nl_known st),
             nl_matches := (if matchesNodeLookupTarget G ref target then put_node ref (nl_matches st) else nl_matches st)\<rparr>)"

text \<open>The loop that reads the answers of a batch; the flag says that the context ended.\<close>

fun receive_nodes :: "golib \<Rightarrow> string \<Rightarrow> nat \<Rightarrow> node_event list \<Rightarrow> node_lookup \<Rightarrow> bool \<times> node_lookup" where
  "receive_nodes G target 0 evs st = (False, st)"
| "receive_nodes G target (Suc n) [] st = (True, st)"
| "receive_nodes G target (Suc n) (NodeCtxDone # evs) st = (True, st)"
| "receive_nodes G target (Suc n) (NodeFailed node # evs) st =
     receive_nodes G target n evs (st\<lparr>nl_failures := nl_failures st + 1\<rparr>)"
| "receive_nodes G target (Suc n) (NodeReply node refs # evs) st =
     receive_nodes G target n evs (fold (absorb_ref G target) refs st)"

text \<open>Starting the queries of a batch. A peer that is not active becomes a candidate for the time of the lookup.\<close>

fun start_queries :: "golib \<Rightarrow> NodeInfo list \<Rightarrow> node_lookup \<Rightarrow> node_lookup option" where
  "start_queries G [] st = Some st"
| "start_queries G (node # batch) st0 =
     (let st = st0\<lparr>nl_queriedIDs := nl_queriedIDs st0 @ [ni_ID node], nl_queries := nl_queries st0 + 1\<rparr> in
      if ActiveNode (ni_ID node) (nl_RT st) \<noteq> None then start_queries G batch st
      else (case AddLookupCandidate G node (nl_RT st) of
          None \<Rightarrow> None
        | Some (t, added) \<Rightarrow> start_queries G batch
            (st\<lparr>nl_RT := t, nl_transient := (if added then add_key (ni_ID node) (nl_transient st) else nl_transient st)\<rparr>)))"

definition node_result :: "golib \<Rightarrow> string \<Rightarrow> NodeInfo list \<Rightarrow> LookupOutcome \<Rightarrow> node_lookup \<Rightarrow> NodeLookupResult" where
  "node_result G target matches outcome st = \<lparr>nr_Matches = sortedKnown G matches target (int (length matches)),
     nr_Closest = sortedKnown G (nl_known st) target 20, nr_Outcome = outcome, nr_QueriedNodes = nl_queries st, nr_Rounds = nl_rounds st\<rparr>"

text \<open>What the lookup answers when nobody is left to ask.\<close>

definition conclude :: "golib \<Rightarrow> string \<Rightarrow> node_lookup \<Rightarrow> NodeLookupResult \<times> lookup_error option" where
  "conclude G target st =
     (if nl_matches st \<noteq> [] then
        (if nl_failures st > 0
         then (node_result G target (nl_matches st) LookupIncomplete st, Some (ErrIncompleteFailures (nl_failures st)))
         else (node_result G target (nl_matches st) (if length (nl_matches st) > 1 then LookupConflict else LookupFound) st, None))
      else if nl_failures st > 0
      then (node_result G target [] LookupIncomplete st, Some (ErrIncompleteFailures (nl_failures st)))
      else (node_result G target [] LookupNotFound st, None))"

function node_rounds ::
  "golib \<Rightarrow> asn_resolver \<Rightarrow> string list \<Rightarrow> (nat \<Rightarrow> NodeInfo list \<Rightarrow> node_event list) \<Rightarrow> string \<Rightarrow> LookupLimits \<Rightarrow> nat \<Rightarrow> node_lookup \<Rightarrow>
     ((NodeLookupResult \<times> lookup_error option) \<times> node_lookup) option" where
  "node_rounds G R ids env target limits round st0 =
     (if int round < ll_MaxRounds limits \<and> nl_queries st0 < ll_MaxPeerQueries limits then
        let st = st0\<lparr>nl_rounds := int round + 1\<rparr>;
            batchLimit = min (ll_MaxConcurrent limits) (ll_MaxPeerQueries limits - nl_queries st);
            batch = closestUnqueried G (nl_known st) (nl_queriedIDs st) target batchLimit
        in if batch = [] then
             (if nl_diversityLoaded st then Some (conclude G target st, st)
              else let st1 = st\<lparr>nl_diversityLoaded := True,
                         nl_known := addDiversityFallback (nl_known st) (DiversityContacts G R ids (nl_RT st))\<rparr>
                in if closestUnqueried G (nl_known st1) (nl_queriedIDs st1) target 1 \<noteq> []
                   then node_rounds G R ids env target limits (Suc round) st1
                   else Some (conclude G target st1, st1))
           else (case start_queries G batch st of None \<Rightarrow> None
             | Some st1 \<Rightarrow> (case receive_nodes G target (length batch) (env round batch) st1 of
                 (True, st2) \<Rightarrow> Some ((node_result G target (nl_matches st2) LookupIncomplete st2, Some (ErrIncompleteTimeout (nl_queries st2))), st2)
               | (False, st2) \<Rightarrow>
                   if \<not> HasPrefix target ''node/name/'' \<and> nl_matches st2 \<noteq> []
                   then Some ((node_result G target (nl_matches st2) LookupFound st2, None), st2)
                   else node_rounds G R ids env target limits (Suc round) st2))
      else Some (if closestUnqueried G (nl_known st0) (nl_queriedIDs st0) target 1 \<noteq> []
                 then (node_result G target (nl_matches st0) LookupIncomplete st0, Some (ErrIncompleteLimit None))
                 else conclude G target st0, st0))"
  by pat_completeness auto
termination
  by (relation "measure (\<lambda>(_, _, _, _, _, limits, round, _). nat (ll_MaxRounds limits - int round))") auto

declare node_rounds.simps [simp del]

text \<open>The peers the lookup starts from; \<open>clk n\<close> is the clock when the n-th of them is checked.\<close>

fun add_seeds :: "golib \<Rightarrow> string \<Rightarrow> (nat \<Rightarrow> time) \<Rightarrow> nat \<Rightarrow> NodeInfo list \<Rightarrow> node_lookup \<Rightarrow> node_lookup" where
  "add_seeds G target clk n [] st = st"
| "add_seeds G target clk n (node # seeds) st =
     (let verified = (VerifyNodeInfo G node (clk n) = Inr ()) in
      add_seeds G target clk (Suc n) seeds
        (if ActiveNode (ni_ID node) (nl_RT st) \<noteq> None \<or> verified
         then st\<lparr>nl_known := put_node node (nl_known st),
                 nl_matches := (if verified \<and> matchesNodeLookupTarget G node target
                                then put_node node (nl_matches st) else nl_matches st)\<rparr>
         else st))"

definition lookup_seeds :: "golib \<Rightarrow> string list \<Rightarrow> time \<Rightarrow> string \<Rightarrow> bool \<Rightarrow> LookupLimits \<Rightarrow> RoutingTable \<Rightarrow> NodeInfo list" where
  "lookup_seeds G offs now target bootstrap limits t =
     (if bootstrap then
        if HasPrefix target ''node/name/''
        then ClosestNodesForBootstrap G offs now (TrimPrefix target ''node/name/'') (ll_MaxConcurrent limits) True t
        else ClosestNodesForBootstrap G offs now (TrimPrefix target ''node/id/'') (ll_MaxConcurrent limits) False t
      else closestForTarget G target (ll_MaxConcurrent limits) t)"

definition start_lookup :: "RoutingTable \<Rightarrow> node_lookup" where
  "start_lookup t = \<lparr>nl_RT = t, nl_known = [], nl_matches = [], nl_queriedIDs = [], nl_transient = [], nl_queries = 0,
     nl_failures = 0, nl_rounds = 0, nl_diversityLoaded = False\<rparr>"

text \<open>
  \<^verbatim>\<open>recursiveFindNodeDetailed\<close>; \<open>ids\<close> and \<open>offs\<close> are the orders in which the table's maps are ranged
  over. \<^verbatim>\<open>None\<close> is a panic. The table returned is the one after the deferred discards.
\<close>

definition discard_transient :: "string list \<Rightarrow> RoutingTable \<Rightarrow> RoutingTable" where
  "discard_transient ids t = fold DiscardCandidate ids t"

definition recursiveFindNodeDetailed ::
  "golib \<Rightarrow> asn_resolver \<Rightarrow> string list \<Rightarrow> string list \<Rightarrow> (nat \<Rightarrow> time) \<Rightarrow> (nat \<Rightarrow> NodeInfo list \<Rightarrow> node_event list) \<Rightarrow> string \<Rightarrow> bool \<Rightarrow>
     Server \<Rightarrow> ((NodeLookupResult \<times> lookup_error option) \<times> Server) option" where
  "recursiveFindNodeDetailed G R ids offs clk env target bootstrap s =
     (let limits = lookup_limits s;
          st = add_seeds G target clk 1 (lookup_seeds G offs (clk 0) target bootstrap limits (ds_RT s)) (start_lookup (ds_RT s))
      in if \<not> HasPrefix target ''node/name/'' \<and> nl_matches st \<noteq> []
         then Some ((node_result G target (nl_matches st) LookupFound st, None), s)
         else map_option (\<lambda>(r, st'). (r, s\<lparr>ds_RT := discard_transient (nl_transient st') (nl_RT st')\<rparr>))
                (node_rounds G R ids env target limits 0 st))"

definition RecursiveFindNode ::
  "golib \<Rightarrow> asn_resolver \<Rightarrow> string list \<Rightarrow> string list \<Rightarrow> (nat \<Rightarrow> time) \<Rightarrow> (nat \<Rightarrow> NodeInfo list \<Rightarrow> node_event list) \<Rightarrow> string \<Rightarrow>
     Server \<Rightarrow> ((NodeInfo list \<times> lookup_error option) \<times> Server) option" where
  "RecursiveFindNode G R ids offs clk env target s =
     map_option (\<lambda>((result, err), s'). ((if nr_Matches result \<noteq> [] then nr_Matches result else nr_Closest result, err), s'))
       (recursiveFindNodeDetailed G R ids offs clk env target False s)"

section \<open>Looking up values\<close>

text \<open>
  \<^verbatim>\<open>branchByID\<close> is an association list, since its length is used. The moving average of failures that
  \<^verbatim>\<open>noteLookupResult\<close> keeps is a floating-point number and is not modelled.
\<close>

record value_lookup =
  vl_RT :: RoutingTable
  vl_known :: "NodeInfo list"
  vl_queriedIDs :: "string list"
  vl_transient :: "string list"
  vl_branchByID :: "(string \<times> int) list"
  vl_collector :: lookupCollector
  vl_queried :: int
  vl_failures :: int
  vl_diversityLoaded :: bool

datatype value_event =
    ValueReply NodeInfo string "(NodeInfo \<times> time) list"
  | ValueFailed NodeInfo time
  | ValueCtxDone

definition branch_of :: "(string \<times> int) list \<Rightarrow> string \<Rightarrow> int" where
  "branch_of bs i = (case map_of bs i of Some b \<Rightarrow> b | None \<Rightarrow> 0)"

fun start_value_queries :: "golib \<Rightarrow> NodeInfo list \<Rightarrow> value_lookup \<Rightarrow> value_lookup option" where
  "start_value_queries G [] st = Some st"
| "start_value_queries G (node # batch) st0 =
     (let st = st0\<lparr>vl_queriedIDs := vl_queriedIDs st0 @ [ni_ID node]\<rparr> in
      if ActiveNode (ni_ID node) (vl_RT st) \<noteq> None then start_value_queries G batch st
      else (case AddLookupCandidate G node (vl_RT st) of
          None \<Rightarrow> None
        | Some (t, added) \<Rightarrow> start_value_queries G batch
            (st\<lparr>vl_RT := t, vl_transient := (if added then add_key (ni_ID node) (vl_transient st) else vl_transient st)\<rparr>)))"

definition drop_transient :: "string \<Rightarrow> value_lookup \<Rightarrow> value_lookup" where
  "drop_transient i st =
     (if i \<in> set (vl_transient st)
      then st\<lparr>vl_RT := DiscardCandidate i (vl_RT st), vl_transient := removeAll i (vl_transient st)\<rparr> else st)"

definition absorb_value_ref :: "golib \<Rightarrow> int \<Rightarrow> NodeInfo \<times> time \<Rightarrow> value_lookup \<Rightarrow> value_lookup" where
  "absorb_value_ref G branch rn st = (case rn of (ref, now) \<Rightarrow>
     if VerifyNodeInfo G ref now \<noteq> Inr () \<or> ni_ID ref = [] \<or> ni_Addr ref = [] \<or> ni_ID ref \<in> ni_ID ` set (vl_known st) then st
     else st\<lparr>vl_known := vl_known st @ [ref], vl_branchByID := AList.update (ni_ID ref) branch (vl_branchByID st)\<rparr>)"

text \<open>\<open>fl\<close> holds the branch each query of the batch was started with.\<close>

fun receive_values ::
  "golib \<Rightarrow> jsonlib \<Rightarrow> asn_resolver \<Rightarrow> (string \<times> int) list \<Rightarrow> nat \<Rightarrow> value_event list \<Rightarrow> value_lookup \<Rightarrow> bool \<times> value_lookup" where
  "receive_values G J R fl 0 evs st = (False, st)"
| "receive_values G J R fl (Suc n) [] st = (True, st)"
| "receive_values G J R fl (Suc n) (ValueCtxDone # evs) st = (True, st)"
| "receive_values G J R fl (Suc n) (ValueFailed node now # evs) st =
     receive_values G J R fl n evs
       (drop_transient (ni_ID node)
         (st\<lparr>vl_queried := vl_queried st + 1, vl_failures := vl_failures st + 1, vl_RT := fst (NoteFailureAt (ni_ID node) now (vl_RT st))\<rparr>))"
| "receive_values G J R fl (Suc n) (ValueReply node value refs # evs) st =
     (let st1 = drop_transient (ni_ID node) (st\<lparr>vl_queried := vl_queried st + 1\<rparr>);
          branch = branch_of fl (ni_ID node);
          st2 = (if value \<noteq> []
                 then st1\<lparr>vl_collector := Observe G J R \<lparr>so_nodeID = ni_ID node, so_addr = ni_Addr node, so_trust = 1, so_branch = branch\<rparr>
                        value (vl_collector st1)\<rparr>
                 else st1)
      in receive_values G J R fl n evs (fold (absorb_value_ref G branch) refs st2))"

fun add_diversity_values :: "NodeInfo list \<Rightarrow> value_lookup \<Rightarrow> value_lookup" where
  "add_diversity_values [] st = st"
| "add_diversity_values (peer # peers) st =
     add_diversity_values peers
       (if ni_ID peer \<in> ni_ID ` set (vl_known st) then st
        else st\<lparr>vl_known := vl_known st @ [peer],
                vl_branchByID := AList.update (ni_ID peer) (int (length (vl_branchByID st)) + 1) (vl_branchByID st)\<rparr>)"

text \<open>The rounds; the flag says that the context ended.\<close>

function value_rounds ::
  "golib \<Rightarrow> jsonlib \<Rightarrow> asn_resolver \<Rightarrow> string list \<Rightarrow> (nat \<Rightarrow> NodeInfo list \<Rightarrow> value_event list) \<Rightarrow> string \<Rightarrow> LookupLimits \<Rightarrow>
     nat \<Rightarrow> value_lookup \<Rightarrow> (bool \<times> value_lookup) option" where
  "value_rounds G J R ids env key limits round st =
     (if int round < ll_MaxRounds limits \<and> vl_queried st < ll_MaxPeerQueries limits then
        let batchLimit = min (ll_MaxConcurrent limits) (ll_MaxPeerQueries limits - vl_queried st);
            batch = closestUnqueried G (vl_known st) (vl_queriedIDs st) key batchLimit
        in if batch = [] then
             (if vl_diversityLoaded st then Some (False, st)
              else let st1 = add_diversity_values (DiversityContacts G R ids (vl_RT st)) (st\<lparr>vl_diversityLoaded := True\<rparr>)
                in if closestUnqueried G (vl_known st1) (vl_queriedIDs st1) key 1 \<noteq> []
                   then value_rounds G J R ids env key limits (Suc round) st1
                   else Some (False, st1))
           else (case start_value_queries G batch st of None \<Rightarrow> None
             | Some st1 \<Rightarrow>
                 (case receive_values G J R (map (\<lambda>n. (ni_ID n, branch_of (vl_branchByID st) (ni_ID n))) batch)
                         (length batch) (env round batch) st1 of
                    (True, st2) \<Rightarrow> Some (True, st2)
                  | (False, st2) \<Rightarrow>
                      if IsConfirmed (vl_collector st2) then Some (False, st2)
                      else value_rounds G J R ids env key limits (Suc round) st2))
      else Some (False, st))"
  by pat_completeness auto
termination
  by (relation "measure (\<lambda>(_, _, _, _, _, _, limits, round, _). nat (ll_MaxRounds limits - int round))") auto

declare value_rounds.simps [simp del]

fun add_value_seeds :: "golib \<Rightarrow> (nat \<Rightarrow> time) \<Rightarrow> nat \<Rightarrow> NodeInfo list \<Rightarrow> value_lookup \<Rightarrow> value_lookup" where
  "add_value_seeds G clk n [] st = st"
| "add_value_seeds G clk n (node # seeds) st =
     add_value_seeds G clk (Suc n) seeds
       (if ActiveNode (ni_ID node) (vl_RT st) \<noteq> None \<or> VerifyNodeInfo G node (clk n) = Inr ()
        then st\<lparr>vl_known := put_node node (vl_known st), vl_branchByID := AList.update (ni_ID node) (int n + 1) (vl_branchByID st)\<rparr>
        else st)"

definition start_value_lookup :: "string \<Rightarrow> time \<Rightarrow> RoutingTable \<Rightarrow> value_lookup" where
  "start_value_lookup key now t = \<lparr>vl_RT = t, vl_known = [], vl_queriedIDs = [], vl_transient = [], vl_branchByID = [],
     vl_collector = newLookupCollector key now, vl_queried = 0, vl_failures = 0, vl_diversityLoaded = False\<rparr>"

definition observe_local :: "golib \<Rightarrow> jsonlib \<Rightarrow> asn_resolver \<Rightarrow> string \<Rightarrow> Server \<Rightarrow> value_lookup \<Rightarrow> value_lookup" where
  "observe_local G J R key s st = (case ds_Values s key of
     None \<Rightarrow> st
   | Some local \<Rightarrow>
       if local = [] then st
       else st\<lparr>vl_collector := Observe G J R
              \<lparr>so_nodeID = ''local:'' @ SelfID (ds_RT s), so_addr = [], so_trust = 3, so_branch = 0\<rparr> local (vl_collector st)\<rparr>)"

text \<open>The answer after the rounds. \<^verbatim>\<open>errors.Is\<close> tests the kind of the error.\<close>

definition settle :: "golib \<Rightarrow> string \<Rightarrow> value_lookup \<Rightarrow> LookupResult \<times> lookup_error option" where
  "settle G key st = (case Collector_Resolve G (vl_queried st) (vl_collector st) of
     (res, None) \<Rightarrow> (res, None)
   | (res, Some err) \<Rightarrow>
       if vl_queried st > 0 \<and> closestUnqueried G (vl_known st) (vl_queriedIDs st) key 1 \<noteq> []
       then (res\<lparr>lr_Outcome := LookupIncomplete\<rparr>, Some (ErrIncompleteLimit (Some err)))
       else if vl_failures st > 0 \<and> err = ErrLookupNotFound
       then (res\<lparr>lr_Outcome := LookupIncomplete\<rparr>, Some (ErrIncompleteFailures (vl_failures st)))
       else (case err of
           ErrInsufficientConfirmation _ _ _ _ _ _ \<Rightarrow> (res\<lparr>lr_Outcome := LookupIncomplete\<rparr>, Some (ErrIncompleteWrapped err))
         | _ \<Rightarrow> (res, Some err)))"

text \<open>
  \<^verbatim>\<open>RecursiveFindValueDetailed\<close>. The clock readings of the seeds are \<open>clk 0\<close>, \<open>clk 1\<close>, and so on; \<open>now\<close> is
  the time the collector validates at.
\<close>

definition RecursiveFindValueDetailed ::
  "golib \<Rightarrow> jsonlib \<Rightarrow> asn_resolver \<Rightarrow> string list \<Rightarrow> (nat \<Rightarrow> time) \<Rightarrow> time \<Rightarrow> (nat \<Rightarrow> NodeInfo list \<Rightarrow> value_event list) \<Rightarrow> string \<Rightarrow>
     Server \<Rightarrow> ((LookupResult \<times> lookup_error option) \<times> Server) option" where
  "RecursiveFindValueDetailed G J R ids clk now env key s =
     (let limits = lookup_limits s;
          st = observe_local G J R key s
                 (add_value_seeds G clk 0 (closestForTarget G key (ll_MaxConcurrent limits) (ds_RT s)) (start_value_lookup key now (ds_RT s)))
      in map_option (\<lambda>(stopped, st').
           (if stopped
            then ((fst (Collector_Resolve G (vl_queried st') (vl_collector st')))\<lparr>lr_Outcome := LookupIncomplete\<rparr>,
                  Some (ErrIncompleteTimeout (vl_queried st')))
            else settle G key st',
            s\<lparr>ds_RT := discard_transient (vl_transient st') (vl_RT st')\<rparr>))
         (value_rounds G J R ids env key limits 0 st))"

definition RecursiveFindValue ::
  "golib \<Rightarrow> jsonlib \<Rightarrow> asn_resolver \<Rightarrow> string list \<Rightarrow> (nat \<Rightarrow> time) \<Rightarrow> time \<Rightarrow> (nat \<Rightarrow> NodeInfo list \<Rightarrow> value_event list) \<Rightarrow> string \<Rightarrow>
     Server \<Rightarrow> ((lookup_error + string) \<times> Server) option" where
  "RecursiveFindValue G J R ids clk now env key s =
     map_option (\<lambda>((result, err), s'). (case err of Some e \<Rightarrow> Inl e | None \<Rightarrow> Inr (lr_Value result), s'))
       (RecursiveFindValueDetailed G J R ids clk now env key s)"

end
