(* ===== verification/CollectorFacts.thy ===== *)
theory CollectorFacts
  imports Collector StoreFacts
begin

text \<open>
  Properties of the collector: a verified value is only accepted when two different sources returned it
  and no source returned another verified one; conflicts between unverified values are never reported.
\<close>

section \<open>Invariants of a collector\<close>

definition observe_all ::
  "golib \<Rightarrow> jsonlib \<Rightarrow> asn_resolver \<Rightarrow> (sourceObservation \<times> string) list \<Rightarrow> lookupCollector \<Rightarrow> lookupCollector" where
  "observe_all G J R obs c = fold (\<lambda>(s, raw). Observe G J R s raw) obs c"

text \<open>Source \<open>s\<close> returned a value of the family and fingerprint of \<open>v\<close>.\<close>

definition supports :: "golib \<Rightarrow> jsonlib \<Rightarrow> string \<Rightarrow> time \<Rightarrow> (sourceObservation \<times> string) list \<Rightarrow> validatedValue \<Rightarrow> string \<Rightarrow> bool" where
  "supports G J key now obs v node \<longleftrightarrow> (\<exists>(s, raw) \<in> set obs. so_nodeID (fill_source s) = node \<and>
     (\<exists>v'. validateLookupValue G J key raw now = Inr v' \<and> vv_verified v' = vv_verified v \<and>
        vv_family v' = vv_family v \<and> vv_fingerprint v' = vv_fingerprint v))"

lemma supports_mono: "supports G J key now obs v n \<Longrightarrow> supports G J key now (obs @ extra) v n"
  by (auto simp: supports_def)

lemma supports_cong: "vv_verified v = vv_verified w \<Longrightarrow> vv_family v = vv_family w \<Longrightarrow> vv_fingerprint v = vv_fingerprint w \<Longrightarrow>
    supports G J key now obs v n = supports G J key now obs w n"
  by (simp add: supports_def)

definition candidate_ok ::
  "golib \<Rightarrow> jsonlib \<Rightarrow> string \<Rightarrow> time \<Rightarrow> (sourceObservation \<times> string) list \<Rightarrow> candidateObservation \<Rightarrow> bool" where
  "candidate_ok G J key now obs c \<longleftrightarrow>
     distinct (map fst (co_exactSources c)) \<and>
     (\<forall>n \<in> fst ` set (co_exactSources c). supports G J key now obs (co_value c) n) \<and>
     (\<exists>(s, raw) \<in> set obs. validateLookupValue G J key raw now = Inr (co_value c))"

text \<open>Every valid value that was returned is listed under its family or its fingerprint.\<close>

definition listed :: "golib \<Rightarrow> jsonlib \<Rightarrow> lookupCollector \<Rightarrow> string \<Rightarrow> bool" where
  "listed G J c raw \<longleftrightarrow> (\<forall>v. TrimSpace G raw \<noteq> [] \<longrightarrow> validateLookupValue G J (lc_key c) raw (lc_now c) = Inr v \<longrightarrow>
     (if vv_verified v then vv_family v \<in> fst ` set (lc_verified c) else vv_fingerprint v \<in> fst ` set (lc_raw c)))"

definition collector_ok :: "golib \<Rightarrow> jsonlib \<Rightarrow> (sourceObservation \<times> string) list \<Rightarrow> lookupCollector \<Rightarrow> bool" where
  "collector_ok G J obs c \<longleftrightarrow>
     distinct (map fst (lc_verified c)) \<and> distinct (map fst (lc_raw c)) \<and>
     (\<forall>(k, o') \<in> set (lc_verified c). vv_family (co_value o') = k \<and> vv_verified (co_value o') \<and>
        candidate_ok G J (lc_key c) (lc_now c) obs o') \<and>
     (\<forall>(k, o') \<in> set (lc_raw c). vv_fingerprint (co_value o') = k \<and> \<not> vv_verified (co_value o')) \<and>
     (\<forall>raw \<in> snd ` set obs. listed G J c raw)"

lemma add_exact_keys [simp]:
  "co_value (addExactSource G R s v c) = co_value c" "co_value (addSource G R s c) = co_value c"
  "co_exactSources (addSource G R s c) = co_exactSources c"
  "map fst (co_exactSources (addExactSource G R s v c)) = add_key (so_nodeID s) (map fst (co_exactSources c))"
  by (auto simp: addExactSource_def addSource_def Let_def add_key_def map_of_eq_None_iff)

lemma set_add_key [simp]: "set (add_key k ks) = insert k (set ks)"
  by (auto simp: add_key_def)

lemma distinct_add_key [simp]: "distinct (add_key k ks) = distinct ks"
  by (auto simp: add_key_def)

lemma candidate_ok_new:
  assumes "validateLookupValue G J key raw now = Inr v"
  shows "candidate_ok G J key now (obs @ [(s, raw)]) (newCandidateObservation v)"
  using assms by (simp add: candidate_ok_def newCandidateObservation_def)

lemma candidate_ok_mono: "candidate_ok G J key now obs c \<Longrightarrow> candidate_ok G J key now (obs @ extra) c"
  by (auto simp: candidate_ok_def intro: supports_mono)

lemma note_verified_ok:
  fixes R :: asn_resolver
  assumes v: "validateLookupValue G J key raw now = Inr v" "vv_verified v"
    and c: "candidate_ok G J key now (obs @ [(s0, raw)]) c" "vv_family (co_value c) = vv_family v" "vv_verified (co_value c)"
  defines "c' \<equiv> note_verified G R (fill_source s0) v c"
  shows "candidate_ok G J key now (obs @ [(s0, raw)]) c' \<and> vv_family (co_value c') = vv_family v \<and> vv_verified (co_value c')"
proof -
  have sup: "supports G J key now (obs @ [(s0, raw)]) w (so_nodeID (fill_source s0))"
    if "vv_verified w" "vv_family w = vv_family v" "vv_fingerprint w = vv_fingerprint v" for w
    using v that by (auto simp: supports_def)
  show ?thesis
  proof (cases "isNewerValue v (co_value c)")
    case True
    then have c': "co_value c' = v" "map fst (co_exactSources c') = [so_nodeID (fill_source s0)]"
      by (simp_all add: c'_def note_verified_def Let_def add_key_def)
    then have "fst ` set (co_exactSources c') = {so_nodeID (fill_source s0)}" by (metis list.set(1,2) list.set_map)
    then show ?thesis using c' v sup [of v] by (auto simp: candidate_ok_def)
  next
    case False
    then have eq: "co_value c' = co_value c" by (simp add: c'_def note_verified_def Let_def)
    show ?thesis
    proof (cases "vv_fingerprint v = vv_fingerprint (co_value c)")
      case True
      then have m: "map fst (co_exactSources c') = add_key (so_nodeID (fill_source s0)) (map fst (co_exactSources c))"
        using False by (simp add: c'_def note_verified_def Let_def)
      then have "fst ` set (co_exactSources c') = insert (so_nodeID (fill_source s0)) (fst ` set (co_exactSources c))"
        by (metis set_add_key list.set_map)
      then show ?thesis using c eq m sup [of "co_value c"] True by (simp add: candidate_ok_def)
    next
      case other: False
      then have "co_exactSources c' = co_exactSources c"
        using False by (simp add: c'_def note_verified_def Let_def)
      then show ?thesis using c eq by (simp add: candidate_ok_def)
    qed
  qed
qed

lemma observed_cases: "(k, observed k v obs) \<in> set obs \<or> observed k v obs = newCandidateObservation v"
  by (auto simp: observed_def split: option.splits dest!: map_of_SomeD)

lemma set_update_distinct:
  "distinct (map fst obs) \<Longrightarrow> set (AList.update k x obs) = insert (k, x) {(k', y) \<in> set obs. k' \<noteq> k}"
  by (induction obs) (auto simp: image_iff)

lemma Observe_listed:
  "lc_key (Observe G J R s raw c) = lc_key c" "lc_now (Observe G J R s raw c) = lc_now c"
  "fst ` set (lc_verified c) \<subseteq> fst ` set (lc_verified (Observe G J R s raw c))"
  "fst ` set (lc_raw c) \<subseteq> fst ` set (lc_raw (Observe G J R s raw c))"
  "listed G J (Observe G J R s raw c) raw"
  by (auto simp: Observe_def listed_def Let_def dom_update split: sum.splits)

lemma listed_Observe:
  assumes "listed G J c r"
  shows "listed G J (Observe G J R s raw c) r"
  using assms Observe_listed(3,4) [of c G J R s raw] Observe_listed(1,2) [of G J R s raw c]
  unfolding listed_def by (auto split: if_splits)

lemma Observe_ok:
  assumes "collector_ok G J obs c"
  shows "collector_ok G J (obs @ [(s, raw)]) (Observe G J R s raw c)"
proof -
  note ok = assms [unfolded collector_ok_def]
  have l: "\<forall>r \<in> snd ` set (obs @ [(s, raw)]). listed G J (Observe G J R s raw c) r"
    using ok listed_Observe Observe_listed(5) by auto
  have old: "\<forall>(k, o') \<in> set (lc_verified c). vv_family (co_value o') = k \<and> vv_verified (co_value o') \<and>
        candidate_ok G J (lc_key c) (lc_now c) (obs @ [(s, raw)]) o'"
    using ok by (auto intro: candidate_ok_mono)
  consider "TrimSpace G raw = []" | e where "TrimSpace G raw \<noteq> []" "validateLookupValue G J (lc_key c) raw (lc_now c) = Inl e"
    | v where "TrimSpace G raw \<noteq> []" "validateLookupValue G J (lc_key c) raw (lc_now c) = Inr v" "vv_verified v"
    | v where "TrimSpace G raw \<noteq> []" "validateLookupValue G J (lc_key c) raw (lc_now c) = Inr v" "\<not> vv_verified v"
    by (cases "validateLookupValue G J (lc_key c) raw (lc_now c)") blast+
  then show "collector_ok G J (obs @ [(s, raw)]) (Observe G J R s raw c)"
  proof cases
    case 1
    then show ?thesis using ok old l by (simp add: Observe_def collector_ok_def)
  next
    case 2
    then show ?thesis using ok old l by (simp add: Observe_def collector_ok_def)
  next
    case (3 v)
    let ?o = "observed (vv_family v) v (lc_verified c)"
    have o: "candidate_ok G J (lc_key c) (lc_now c) (obs @ [(s, raw)]) ?o \<and> vv_family (co_value ?o) = vv_family v \<and> vv_verified (co_value ?o)"
      using observed_cases [of "vv_family v" v "lc_verified c"] ok old 3 candidate_ok_new [OF 3(2)]
      by (auto simp: newCandidateObservation_def)
    note n = note_verified_ok [OF 3(2,3) conjunct1 [OF o] conjunct1 [OF conjunct2 [OF o]] conjunct2 [OF conjunct2 [OF o]], of R]
    show ?thesis
      using ok old 3 n l by (auto simp: Observe_def collector_ok_def Let_def set_update_distinct distinct_update update_keys)
  next
    case (4 v)
    let ?o = "observed (vv_fingerprint v) v (lc_raw c)"
    have "vv_fingerprint (co_value ?o) = vv_fingerprint v \<and> \<not> vv_verified (co_value ?o)"
      using observed_cases [of "vv_fingerprint v" v "lc_raw c"] ok 4 by (auto simp: newCandidateObservation_def)
    then show ?thesis
      using ok old 4 l by (auto simp: Observe_def collector_ok_def Let_def set_update_distinct distinct_update update_keys)
  qed
qed

lemma observe_all_ok:
  "collector_ok G J done c \<Longrightarrow> collector_ok G J (done @ obs) (observe_all G J R obs c) \<and>
     lc_key (observe_all G J R obs c) = lc_key c \<and> lc_now (observe_all G J R obs c) = lc_now c"
proof (induction obs arbitrary: "done" c)
  case Nil
  then show ?case by (simp add: observe_all_def)
next
  case (Cons x obs)
  obtain s raw where x: "x = (s, raw)" by force
  show ?case
    using Cons.IH [OF Observe_ok [OF Cons.prems, of s raw R]] Observe_listed(1,2) [of G J R s raw c]
    by (simp add: observe_all_def x)
qed

lemma new_collector_ok: "collector_ok G J [] (newLookupCollector key now)"
  by (simp add: collector_ok_def newLookupCollector_def)

lemmas observations_ok = observe_all_ok [OF new_collector_ok, simplified append_Nil]

section \<open>Verified values\<close>

lemma Resolve_verified:
  assumes "Collector_Resolve G queried c = (res, None)" "lr_Verified res" "collector_ok G J obs c"
  obtains k candidate where "lc_verified c = [(k, candidate)]" "confirmed candidate" "lr_Value res = vv_raw (co_value candidate)"
proof (cases "lc_verified c")
  case Nil
  have "\<not> vv_verified (co_value b)" if "strongest (map snd (lc_raw c)) None = Some (b, n)" for b n
  proof -
    have "(\<forall>x \<in> set cs. \<not> vv_verified (co_value x)) \<Longrightarrow> (case best of None \<Rightarrow> True | Some (b, _) \<Rightarrow> \<not> vv_verified (co_value b)) \<Longrightarrow>
      strongest cs best = Some (b, n) \<Longrightarrow> \<not> vv_verified (co_value b)" for cs best
      by (induction cs best rule: strongest.induct) (auto simp: Let_def split: if_splits)
    moreover have "\<forall>x \<in> set (map snd (lc_raw c)). \<not> vv_verified (co_value x)"
      using assms(3) by (fastforce simp: collector_ok_def)
    ultimately show ?thesis using that by (metis option.case(1))
  qed
  then show ?thesis
    using assms Nil by (auto simp: Collector_Resolve_def resolve_raw_def lookupResult_def split: option.splits if_splits)
next
  case (Cons x xs)
  then obtain k o' where "x = (k, o')" by force
  with Cons that show ?thesis
    using assms by (cases xs) (auto simp: Collector_Resolve_def Let_def lookupResult_def split: if_splits)
qed

text \<open>
  What it takes for a lookup to accept a verified value. When a collector that has seen the given
  observations resolves to a verified value without error, some source returned exactly this value, at
  least two different sources returned a value of the same family with the same fingerprint, and no
  source returned a verified value of another family.
\<close>

lemma accepted_value_is_supported:
  assumes "Collector_Resolve G queried (observe_all G J R obs (newLookupCollector key now)) = (res, None)"
    and "lr_Verified res"
  shows "\<exists>v s raw A. (s, raw) \<in> set obs \<and> validateLookupValue G J key raw now = Inr v \<and> vv_verified v \<and>
     lr_Value res = vv_raw v \<and> 2 \<le> card A \<and> (\<forall>n \<in> A. supports G J key now obs v n) \<and>
     (\<forall>(s', raw') \<in> set obs. \<forall>v'. TrimSpace G raw' \<noteq> [] \<longrightarrow>
        validateLookupValue G J key raw' now = Inr v' \<longrightarrow> vv_verified v' \<longrightarrow> vv_family v' = vv_family v)"
proof -
  define c where "c = observe_all G J R obs (newLookupCollector key now)"
  have ok: "collector_ok G J obs c" "lc_key c = key" "lc_now c = now"
    using observations_ok [of G J obs R key now] by (simp_all add: c_def newLookupCollector_def)
  obtain k o' where one: "lc_verified c = [(k, o')]" "confirmed o'" "lr_Value res = vv_raw (co_value o')"
    using Resolve_verified [OF assms [folded c_def] ok(1)] by blast
  with ok have o': "vv_family (co_value o') = k" "vv_verified (co_value o')" "candidate_ok G J key now obs o'"
    by (auto simp: collector_ok_def)
  let ?A = "set (map fst (co_exactSources o'))"
  have "card ?A = length (co_exactSources o')"
    using o'(3) by (metis candidate_ok_def distinct_card length_map)
  then have "2 \<le> card ?A" using one(2) o'(2) by (auto simp: confirmed_def split: if_splits)
  moreover have "\<forall>n \<in> ?A. supports G J key now obs (co_value o') n" using o'(3) by (simp add: candidate_ok_def)
  moreover obtain s raw where "(s, raw) \<in> set obs" "validateLookupValue G J key raw now = Inr (co_value o')"
    using o'(3) by (auto simp: candidate_ok_def)
  moreover have "vv_family v' = vv_family (co_value o')"
    if "(s', raw') \<in> set obs" "TrimSpace G raw' \<noteq> []" "validateLookupValue G J key raw' now = Inr v'" "vv_verified v'" for s' raw' v'
  proof -
    have "listed G J c raw'" using ok(1) that(1) by (force simp: collector_ok_def)
    then show ?thesis using that ok one(1) o'(1) by (simp add: listed_def)
  qed
  ultimately show ?thesis using one(3) o'(2) by blast
qed

section \<open>Unverified values\<close>

lemma equal_strength: "compareObservationStrength l r = 0 \<Longrightarrow> vv_fingerprint (co_value l) = vv_fingerprint (co_value r)"
  by (auto simp: compareObservationStrength_def split: if_splits)

lemma strongest_single:
  "distinct (map (\<lambda>c. vv_fingerprint (co_value c)) (b # cs)) \<Longrightarrow> \<exists>b'. strongest cs (Some (b, 1)) = Some (b', 1)"
proof (induction cs arbitrary: b)
  case (Cons c cs)
  then have "compareObservationStrength c b \<noteq> 0" using equal_strength [of c b] by auto
  then show ?case using Cons.IH [of c] Cons.IH [of b] Cons.prems by (auto simp: Let_def)
qed simp

text \<open>
  C23: conflicts between unverified values are never reported. The collector keeps one candidate per
  fingerprint and compares candidates down to the fingerprint, so no two are equally strong: whatever
  the sources returned, a lookup with an unverified value and no verified one ends without error and with
  the outcome \<^verbatim>\<open>found_verified\<close>, even when two sources returned different values.
\<close>

theorem unverified_conflicts_unreported:
  assumes "lc_verified (observe_all G J R obs (newLookupCollector key now)) = []"
    and "(s, raw) \<in> set obs" "TrimSpace G raw \<noteq> []" "validateLookupValue G J key raw now = Inr v"
  shows "\<exists>res. Collector_Resolve G queried (observe_all G J R obs (newLookupCollector key now)) = (res, None) \<and>
     lr_Outcome res = LookupFound"
proof -
  define c where "c = observe_all G J R obs (newLookupCollector key now)"
  have ok: "collector_ok G J obs c" "lc_key c = key" "lc_now c = now"
    using observations_ok [of G J obs R key now] by (simp_all add: c_def newLookupCollector_def)
  then have "listed G J c raw" using assms(2) by (force simp: collector_ok_def)
  then have "lc_raw c \<noteq> []" using assms ok by (auto simp: listed_def c_def split: if_splits)
  then obtain b cs where cs: "map snd (lc_raw c) = b # cs" by (cases "lc_raw c") auto
  have keys: "map (\<lambda>o'. vv_fingerprint (co_value o')) (map snd (lc_raw c)) = map fst (lc_raw c)"
    using ok(1) by (auto simp: collector_ok_def)
  have "distinct (map (\<lambda>o'. vv_fingerprint (co_value o')) (b # cs))"
    unfolding cs [symmetric] keys using ok(1) by (simp add: collector_ok_def)
  from strongest_single [OF this] obtain b' where "strongest (map snd (lc_raw c)) None = Some (b', 1)" by (auto simp: cs)
  then show ?thesis
    using assms(1) by (simp add: Collector_Resolve_def resolve_raw_def flip: c_def)
qed

section \<open>The order of the maps does not matter\<close>

lemma stronger_total:
  assumes "vv_fingerprint (co_value l) \<noteq> vv_fingerprint (co_value r)"
  shows "compareObservationStrength l r = 1 \<and> compareObservationStrength r l = -1 \<or>
    compareObservationStrength l r = -1 \<and> compareObservationStrength r l = 1"
  using assms by (auto simp: compareObservationStrength_def)

lemma stronger_iff:
  "compareObservationStrength l r = 1 \<longleftrightarrow>
     length (co_exactSources r) < length (co_exactSources l) \<or> length (co_exactSources r) = length (co_exactSources l) \<and>
     (co_exactWeight r < co_exactWeight l \<or> co_exactWeight r = co_exactWeight l \<and>
     (length (co_exactProviders r) < length (co_exactProviders l) \<or> length (co_exactProviders r) = length (co_exactProviders l) \<and>
     (length (co_exactNetworks r) < length (co_exactNetworks l) \<or> length (co_exactNetworks r) = length (co_exactNetworks l) \<and>
      vv_fingerprint (co_value l) < vv_fingerprint (co_value r))))"
  by (auto simp: compareObservationStrength_def)

lemma stronger_trans:
  "compareObservationStrength a b = 1 \<Longrightarrow> compareObservationStrength b c = 1 \<Longrightarrow> compareObservationStrength a c = 1"
  unfolding stronger_iff by (auto dest: less_trans)

lemma strongest_max:
  "distinct (map (\<lambda>c. vv_fingerprint (co_value c)) (b # cs)) \<Longrightarrow> strongest cs (Some (b, 1)) = Some (b', n) \<Longrightarrow>
     b' \<in> set (b # cs) \<and> (\<forall>c \<in> set (b # cs). c = b' \<or> compareObservationStrength b' c = 1)"
proof (induction cs arbitrary: b)
  case (Cons c cs)
  then have "vv_fingerprint (co_value c) \<noteq> vv_fingerprint (co_value b)" by auto
  then consider "compareObservationStrength c b = 1" | "compareObservationStrength c b = -1" "compareObservationStrength b c = 1"
    using stronger_total [of c b] by auto
  then show ?case
  proof cases
    case 1
    then have "strongest cs (Some (c, 1)) = Some (b', n)" using Cons.prems(2) by simp
    then have "b' \<in> set (c # cs) \<and> (\<forall>x \<in> set (c # cs). x = b' \<or> compareObservationStrength b' x = 1)"
      using Cons.IH [of c] Cons.prems(1) by simp
    then show ?thesis using 1 stronger_trans [of b' c b] by auto
  next
    case 2
    then have "strongest cs (Some (b, 1)) = Some (b', n)" using Cons.prems(2) by simp
    then have "b' \<in> set (b # cs) \<and> (\<forall>x \<in> set (b # cs). x = b' \<or> compareObservationStrength b' x = 1)"
      using Cons.IH [of b] Cons.prems(1) by simp
    then show ?thesis using 2 stronger_trans [of b' b c] by auto
  qed
qed simp

lemma stronger_asym: "compareObservationStrength a b = 1 \<Longrightarrow> compareObservationStrength b a \<noteq> 1"
  unfolding stronger_iff by auto

lemma resolve_raw_order:
  assumes "mset cs = mset cs'" "distinct (map (\<lambda>c. vv_fingerprint (co_value c)) cs)"
  shows "resolve_raw G key queried rejected cs = resolve_raw G key queried rejected cs'"
proof (cases cs)
  case Nil
  then show ?thesis using assms(1) by simp
next
  case (Cons b ds)
  then obtain b2 ds2 where cs': "cs' = b2 # ds2" using assms(1) by (cases cs') auto
  have d: "distinct (map (\<lambda>c. vv_fingerprint (co_value c)) (b2 # ds2))"
    using assms cs' by (metis distinct_map mset_eq_imp_distinct_iff mset_eq_setD)
  obtain m m2 where m: "strongest cs None = Some (m, 1)" "strongest cs' None = Some (m2, 1)"
    using strongest_single assms(2) d Cons cs' by (metis strongest.simps(2))
  have "m \<in> set cs \<and> (\<forall>c \<in> set cs. c = m \<or> compareObservationStrength m c = 1)"
    "m2 \<in> set cs' \<and> (\<forall>c \<in> set cs'. c = m2 \<or> compareObservationStrength m2 c = 1)"
    using strongest_max [of b ds m 1] strongest_max [of b2 ds2 m2 1] m assms(2) d Cons cs' by simp_all
  then have "m = m2" using mset_eq_setD [OF assms(1)] stronger_asym by metis
  then show ?thesis by (simp add: resolve_raw_def m)
qed

lemma conflict_values_order: "mset cs = mset cs' \<Longrightarrow> conflict_values G cs = conflict_values G cs'"
proof -
  assume "mset cs = mset cs'"
  then have "mset (filter (\<lambda>raw. TrimSpace G raw \<noteq> []) (map (\<lambda>c. vv_raw (co_value c)) cs)) =
      mset (filter (\<lambda>raw. TrimSpace G raw \<noteq> []) (map (\<lambda>c. vv_raw (co_value c)) cs'))"
    by (simp only: mset_filter mset_map)
  then show ?thesis unfolding conflict_values_def by (rule properties_for_sort [OF _ sorted_sort, symmetric, OF trans, OF mset_sort])
qed

section \<open>Branches of an older value\<close>

text \<open>
  A newer value clears the exact sources, networks and publishers, but keeps the exact branches, providers
  and systems of the older one: a value returned twice through one branch is confirmed when an older
  value came through another.
\<close>

lemma stale_branches_confirm:
  fixes G R
  assumes "isNewerValue v old" "vv_verified v" "vv_fingerprint old \<noteq> vv_fingerprint v"
    and "weightFor s2 v + weightFor s3 v \<ge> 4" "so_nodeID s2 \<noteq> so_nodeID s3"
    and "so_branch s1 = 1" "so_branch s2 = 2" "so_branch s3 = 2"
  defines "c \<equiv> note_verified G R s3 v (note_verified G R s2 v (note_verified G R s1 old (newCandidateObservation old)))"
  shows "confirmed c \<and> (\<forall>(_, s) \<in> set (co_exactSources c). so_branch s = 2)"
  using assms by (simp add: isNewerValue_irrefl note_verified_def addSource_def addExactSource_def newCandidateObservation_def
      confirmed_def Let_def add_key_def)

section \<open>Instances\<close>

lemma TrimSpace_nonempty: "c \<in> set s \<Longrightarrow> \<not> space_char c \<Longrightarrow> is_ascii s \<Longrightarrow> TrimSpace G s \<noteq> []"
proof -
  assume c: "c \<in> set s" "\<not> space_char c" "is_ascii s"
  then have "c \<in> set (dropWhile space_char s)" by (metis set_takeWhileD takeWhile_dropWhile_id Un_iff set_append)
  then show ?thesis using c by (auto simp: TrimSpace_def trim_ascii_def)
qed

definition demo_source :: "string \<Rightarrow> int \<Rightarrow> int \<Rightarrow> sourceObservation" where
  "demo_source n trust branch = \<lparr>so_nodeID = n, so_addr = [], so_trust = trust, so_branch = branch\<rparr>"

lemma demo_source_keys [simp]:
  "providerKey demo_lib (demo_source n t b) = []" "networkKey demo_lib (demo_source n t b) = []"
  "asnKey demo_lib R (demo_source n t b) = []"
proof -
  have "host_ip demo_lib [] = None" by code_simp
  then show "providerKey demo_lib (demo_source n t b) = []" "networkKey demo_lib (demo_source n t b) = []"
    "asnKey demo_lib R (demo_source n t b) = []"
    by (simp_all add: providerKey_def networkKey_def asnKey_def ResolveASNForAddr_def demo_source_def)
qed

lemma demo_source_sel [simp]:
  "so_nodeID (demo_source n t b) = n" "so_trust (demo_source n t b) = t" "so_branch (demo_source n t b) = b"
  "n \<noteq> [] \<Longrightarrow> 0 < t \<Longrightarrow> fill_source (demo_source n t b) = demo_source n t b"
  by (simp_all add: demo_source_def fill_source_def)

lemma demo_raw_validates:
  assumes "raw = ''one'' \<or> raw = ''two''"
  shows "validateLookupValue demo_lib demo_jsonlib ''app/x'' raw 0 =
      Inr (zero_value\<lparr>vv_storedRaw := raw, vv_raw := raw, vv_fingerprint := rawFingerprint demo_lib raw\<rparr>)"
    and "TrimSpace demo_lib raw \<noteq> []"
proof -
  have "maybeDecodeEnvelope demo_jsonlib raw = Inr None"
    using assms by (auto simp: maybeDecodeEnvelope_def demo_jsonlib_def demo_envelope_of_def)
  then show "validateLookupValue demo_lib demo_jsonlib ''app/x'' raw 0 =
      Inr (zero_value\<lparr>vv_storedRaw := raw, vv_raw := raw, vv_fingerprint := rawFingerprint demo_lib raw\<rparr>)"
    by (simp add: validateLookupValue_def validateInnerLookupValue_def HasPrefix_def)
  have "TrimSpace demo_lib ''one'' \<noteq> []" "TrimSpace demo_lib ''two'' \<noteq> []" by code_simp+
  then show "TrimSpace demo_lib raw \<noteq> []" using assms by auto
qed

theorem unverified_conflicts_unreported_witness:
  "\<exists>res. Collector_Resolve demo_lib 2 (observe_all demo_lib demo_jsonlib (\<lambda>_. None)
       [(demo_source ''a'' 1 1, ''one''), (demo_source ''b'' 1 2, ''two'')] (newLookupCollector ''app/x'' 0)) = (res, None) \<and>
     lr_Outcome res = LookupFound"
proof -
  let ?obs = "[(demo_source ''a'' 1 1, ''one''), (demo_source ''b'' 1 2, ''two'')]"
  have "lc_verified (observe_all demo_lib demo_jsonlib (\<lambda>_. None) ?obs (newLookupCollector ''app/x'' 0)) = []"
    by (simp add: observe_all_def Observe_def newLookupCollector_def demo_raw_validates zero_value_def Let_def)
  then show ?thesis
    by (rule unverified_conflicts_unreported [where s = "demo_source ''a'' 1 1" and raw = "''one''"])
      (simp_all add: demo_raw_validates)
qed

end
