(* ===== verification/LookupFacts.thy ===== *)
theory LookupFacts
  imports Lookup TableFacts CollectorFacts
begin

text \<open>
  Properties of the iterative lookups: the state of the routing table while a lookup runs, and node lookups,
  which return within their limits whatever the peers answer, leave the routing table as they found it, and
  return verified matches.
\<close>

section \<open>Borrowed candidates\<close>

text \<open>
  While a lookup runs, the table \<open>t\<close> differs from the table \<open>t0\<close> it started with by the transient
  candidates and by failure counters.
\<close>

definition borrowed :: "golib \<Rightarrow> RoutingTable \<Rightarrow> RoutingTable \<Rightarrow> string list \<Rightarrow> bool" where
  "borrowed G t0 t tr \<longleftrightarrow> table_ok G t0 \<and> table_ok G t \<and> SelfID t = SelfID t0 \<and> Buckets t = Buckets t0 \<and> offline t = offline t0 \<and>
     distinct tr \<and> (\<forall>i. i \<notin> set tr \<longrightarrow> peerByID t i = peerByID t0 i) \<and>
     (\<forall>i a. peerByID t0 i = Some a \<longrightarrow> be_Node (mem t a) = be_Node (mem t0 a)) \<and>
     (\<forall>i \<in> set tr. peerByID t0 i = None \<and> (\<exists>a. peerByID t i = Some a \<and> a \<in> held (Pending t) \<and> \<not> be_Pinned (mem t a)))"

lemma borrowedD:
  assumes "borrowed G t0 t tr"
  shows "table_ok G t0" "table_ok G t" "SelfID t = SelfID t0" "Buckets t = Buckets t0" "offline t = offline t0" "distinct tr"
    and "i \<notin> set tr \<Longrightarrow> peerByID t i = peerByID t0 i"
    and "peerByID t0 i = Some a \<Longrightarrow> be_Node (mem t a) = be_Node (mem t0 a)"
    and "i \<in> set tr \<Longrightarrow> peerByID t0 i = None \<and> (\<exists>a. peerByID t i = Some a \<and> a \<in> held (Pending t) \<and> \<not> be_Pinned (mem t a))"
  using assms unfolding borrowed_def by blast+

lemma borrowed_none: "table_ok G t \<Longrightarrow> borrowed G t t []"
  by (simp add: borrowed_def)

lemma borrowed_active:
  assumes b: "borrowed G t0 t tr"
  shows "ActiveNode i t = ActiveNode i t0"
proof -
  note D = borrowedD [OF b]
  have "ActiveNode i t = Some n \<longleftrightarrow> ActiveNode i t0 = Some n" for n
  proof (cases "i \<in> set tr")
    case True
    then obtain a where "peerByID t0 i = None" "peerByID t i = Some a" "a \<notin> held (Buckets t)"
      using D(9) table_okD(5) [OF D(2)] by blast
    then show ?thesis unfolding ActiveNode_iff [OF D(1)] ActiveNode_iff [OF D(2)] by simp
  next
    case False
    then show ?thesis
      unfolding ActiveNode_iff [OF D(1)] ActiveNode_iff [OF D(2)] D(4) D(7) [OF False] using D(8) by auto
  qed
  then show ?thesis by (metis option.exhaust)
qed

lemma borrowed_add:
  assumes b: "borrowed G t0 t tr" and r: "AddLookupCandidate G n t = Some (t', added)"
  shows "borrowed G t0 t' (if added then add_key (ni_ID n) tr else tr)"
proof (cases added)
  case False
  then have "t' = t" using r by (auto simp: AddLookupCandidate_def Let_def split: if_splits)
  then show ?thesis using b False by simp
next
  case True
  note D = borrowedD [OF b]
  let ?e = "(zero_entry n)\<lparr>be_Transient := True\<rparr>" and ?i = "ni_ID n" and ?a = "next_addr t"
  from r True have none: "peerByID t ?i = None" and
    ap: "map_option (\<lambda>t'. t'\<lparr>pendingN := pendingN t' + 1\<rparr>) (append_pending ?a (bucketIndex G (SelfID t) ?i) (new_entry ?e t)) = Some t'"
    by (auto simp: AddLookupCandidate_def Let_def split: if_splits)
  have e: "be_Node ?e = n" "\<not> be_Pinned ?e" by (simp_all add: zero_entry_def)
  have t': "SelfID t' = SelfID t" "Buckets t' = Buckets t" "offline t' = offline t" "peerByID t' = (peerByID t)(?i \<mapsto> ?a)"
    "mem t' = (mem t)(?a := ?e)"
    using ap e by (auto simp: append_pending_def new_entry_def split: if_splits)
  have held: "held (Pending t') = insert ?a (held (Pending t))"
    using ap table_okD(3) [OF D(2)] by (auto simp: append_pending_def new_entry_def nat_less_iff split: if_splits)
  have notin: "?i \<notin> set tr" using none D(9) by force
  moreover from this have "peerByID t0 ?i = None" using D(7) none by simp
  moreover have "table_ok G t'" using AddLookupCandidate_ok [OF D(2) r] .
  moreover have fresh: "a \<noteq> ?a" if "peerByID t0 i = Some a \<or> peerByID t i = Some a" for i a
  proof -
    have "peerByID t i = Some a" using that D(7,9) by (cases "i \<in> set tr") force+
    then show ?thesis using peer_lt [OF D(2)] by force
  qed
  ultimately show ?thesis
    using D True e unfolding borrowed_def t' held
    by (auto simp: add_key_def) (metis fresh)+
qed

lemma borrowed_note:
  assumes b: "borrowed G t0 t tr"
  shows "borrowed G t0 (fst (NoteFailureAt i now t)) tr"
proof -
  note D = borrowedD [OF b]
  have "table_ok G (fst (NoteFailureAt i now t))" using D(2) by (rule NoteFailureAt_ok)
  moreover have "SelfID (fst (NoteFailureAt i now t)) = SelfID t" "Buckets (fst (NoteFailureAt i now t)) = Buckets t"
    "offline (fst (NoteFailureAt i now t)) = offline t" "peerByID (fst (NoteFailureAt i now t)) = peerByID t"
    "Pending (fst (NoteFailureAt i now t)) = Pending t"
    "be_Node (mem (fst (NoteFailureAt i now t)) a) = be_Node (mem t a)"
    "be_Pinned (mem (fst (NoteFailureAt i now t)) a) = be_Pinned (mem t a)" for a
    by (simp_all add: NoteFailureAt_def upd_entry_def split: option.splits)
  ultimately show ?thesis using b unfolding borrowed_def by simp
qed

lemma borrowed_discard:
  assumes b: "borrowed G t0 t tr" and i: "i \<in> set tr"
  shows "borrowed G t0 (DiscardCandidate i t) (removeAll i tr)"
proof -
  note D = borrowedD [OF b]
  obtain a where a: "peerByID t0 i = None" "peerByID t i = Some a" "a \<in> held (Pending t)" "\<not> be_Pinned (mem t a)"
    using D(9) [OF i] by blast
  obtain t1 found where r: "removePendingLocked i t = (t1, found)" by force
  note R = removePending_ok [OF D(2) r]
  have found: found using R(10) a in_pending_iff [OF D(2) a(2)] by simp
  have nb: "\<not> inIndexLocked (mem t) (Buckets t) i" "\<not> inIndexLocked (mem t) (NameBuckets t) i"
    using in_buckets_iff [OF D(2) a(2)] in_names_iff [OF D(2) a(2)] table_okD(4,5) [OF D(2)] a(3) by auto
  have "offline t i = None" using offline_peer [OF D(1), of i] a(1) D(5) by (cases "offline t i") auto
  moreover have "\<not> inIndexLocked (mem t1) (Pending t1) i"
    unfolding inIndex_iff R(4,11) by simp
  ultimately have t': "DiscardCandidate i t = t1\<lparr>peerByID := (peerByID t)(i := None)\<rparr>"
    using r found nb a(2,4) by (simp add: DiscardCandidate_def removePeerIfUnindexedLocked_def R(2-6))
  have "table_ok G (DiscardCandidate i t)" using D(2) by (rule DiscardCandidate_ok)
  moreover have "b \<in> held (Pending t1)" if "peerByID t j = Some b" "b \<in> held (Pending t)" "j \<noteq> i" for j b
    using that peer_id [OF D(2) that(1)] by (simp add: R(11))
  ultimately show ?thesis
    using D a unfolding borrowed_def t' by (auto simp: R(2-7) distinct_removeAll) blast
qed

lemma borrowed_discard_all: "borrowed G t0 t tr \<Longrightarrow> borrowed G t0 (discard_transient tr t) []"
proof (induction tr arbitrary: t)
  case Nil
  then show ?case by (simp add: discard_transient_def)
next
  case (Cons i tr)
  have "i \<notin> set tr" using borrowedD(6) [OF Cons.prems] by simp
  then have "borrowed G t0 (DiscardCandidate i t) tr"
    using borrowed_discard [OF Cons.prems, of i] by (simp add: removeAll_id)
  then show ?case using Cons.IH by (simp add: discard_transient_def)
qed

section \<open>Known peers\<close>

text \<open>A peer a lookup may ask: it is active, or its description was verified.\<close>

definition safe :: "golib \<Rightarrow> RoutingTable \<Rightarrow> NodeInfo \<Rightarrow> bool" where
  "safe G t n \<longleftrightarrow> ActiveNode (ni_ID n) t \<noteq> None \<or> (\<exists>now. VerifyNodeInfo G n now = Inr ())"

definition walk_ok :: "golib \<Rightarrow> RoutingTable \<Rightarrow> RoutingTable \<Rightarrow> string list \<Rightarrow> NodeInfo list \<Rightarrow> bool" where
  "walk_ok G t0 t tr known \<longleftrightarrow> borrowed G t0 t tr \<and> distinct (map ni_ID known) \<and> (\<forall>n \<in> set known. safe G t0 n)"

lemma AddLookupCandidate_safe:
  assumes sha: "sha256_ok G" and self: "SelfID t0 = NodeIDFromPublicKey G k"
    and b: "borrowed G t0 t tr" and n: "safe G t0 n" "ActiveNode (ni_ID n) t = None"
  shows "AddLookupCandidate G n t \<noteq> None"
proof (cases "ni_ID n = SelfID t")
  case True
  then show ?thesis by (simp add: AddLookupCandidate_def unusable_def)
next
  case False
  obtain now where "VerifyNodeInfo G n now = Inr ()"
    using n borrowed_active [OF b] by (auto simp: safe_def)
  then obtain k' where "ni_ID n = NodeIDFromPublicKey G k'" using VerifyNodeInfo_NodeID by blast
  then have "0 \<le> bucketIndex G (SelfID t) (ni_ID n)"
    using bucketIndex_NodeIDs [OF sha, of k k'] False self borrowedD(3) [OF b] by simp
  then show ?thesis using addCandidate_total(2) bucketIndex_range [OF sha] by blast
qed

lemma set_put_node: "set (put_node n ns) \<subseteq> insert n (set ns)"
  by (auto simp: put_node_def)

lemma map_id_put_node [simp]: "map ni_ID (put_node n ns) = add_key (ni_ID n) (map ni_ID ns)"
  by (auto simp: put_node_def add_key_def)

lemma set_add_node: "set (add_node n ns) \<subseteq> insert n (set ns)"
  by (auto simp: add_node_def)

lemma map_id_add_node [simp]: "map ni_ID (add_node n ns) = add_key (ni_ID n) (map ni_ID ns)"
  by (auto simp: add_node_def add_key_def)

lemma walk_ok_known:
  assumes "walk_ok G t0 t tr known" "safe G t0 n"
  shows "walk_ok G t0 t tr (put_node n known)" "walk_ok G t0 t tr (add_node n known)"
  using assms set_put_node [of n known] set_add_node [of n known] unfolding walk_ok_def by auto

lemma DiversityContacts_active:
  assumes ok: "table_ok G t" and n: "n \<in> set (DiversityContacts G R ids t)"
  shows "ActiveNode (ni_ID n) t \<noteq> None"
proof -
  have sub: "n \<in> set (diverse_contacts ks es seen) \<Longrightarrow> \<exists>e \<in> set es. n = be_Node e" for ks es seen
    by (induction ks es seen rule: diverse_contacts.induct) (auto simp: Let_def split: if_splits)
  obtain e where e: "e \<in> set (map (mem t) (filter (\<lambda>a. inIndexLocked (mem t) (Buckets t) (entry_id (mem t) a))
      (List.map_filter (peerByID t) ids)))" "n = be_Node e"
    using sub [OF n [unfolded DiversityContacts_def Let_def]] unfolding set_sort_slice by blast
  then obtain a i where a: "peerByID t i = Some a" "inIndexLocked (mem t) (Buckets t) (entry_id (mem t) a)" "n = be_Node (mem t a)"
    by (auto simp: List.map_filter_def)
  then have "ni_ID n = i" using peer_id [OF ok a(1)] by simp
  then show ?thesis using a by (auto simp: ActiveNode_def)
qed

lemma closestUnqueried_sub: "set (closestUnqueried G known queried target limit) \<subseteq> {n \<in> set known. ni_ID n \<notin> set queried}"
  by (auto simp: closestUnqueried_def Let_def dest: in_set_takeD)

lemma closestUnqueried_distinct:
  assumes "distinct (map ni_ID known)"
  shows "distinct (map ni_ID (closestUnqueried G known queried target limit))"
proof -
  have "mset (map ni_ID (sort_slice lt xs)) = mset (map ni_ID xs)" for lt and xs :: "NodeInfo list"
    by (simp only: mset_map mset_sort_slice)
  then have "distinct (map ni_ID (sort_slice lt xs)) = distinct (map ni_ID xs)" for lt and xs :: "NodeInfo list"
    by (rule mset_eq_imp_distinct_iff)
  then show ?thesis using assms by (simp add: closestUnqueried_def Let_def distinct_map_filter take_map [symmetric])
qed

lemma closestUnqueried_length: "0 \<le> limit \<Longrightarrow> int (length (closestUnqueried G known queried target limit)) \<le> limit"
  by (auto simp: closestUnqueried_def Let_def)

section \<open>Node lookups\<close>

definition match_ok :: "golib \<Rightarrow> string \<Rightarrow> NodeInfo \<Rightarrow> bool" where
  "match_ok G target m \<longleftrightarrow> matchesNodeLookupTarget G m target \<and> (\<exists>now. VerifyNodeInfo G m now = Inr ())"

definition node_inv :: "golib \<Rightarrow> RoutingTable \<Rightarrow> string \<Rightarrow> node_lookup \<Rightarrow> bool" where
  "node_inv G t0 target st \<longleftrightarrow> walk_ok G t0 (nl_RT st) (nl_transient st) (nl_known st) \<and>
     distinct (nl_queriedIDs st) \<and> nl_queries st = int (length (nl_queriedIDs st)) \<and>
     distinct (map ni_ID (nl_matches st)) \<and> (\<forall>m \<in> set (nl_matches st). match_ok G target m) \<and> 0 \<le> nl_failures st"

lemma node_inv_start: "table_ok G t \<Longrightarrow> node_inv G t target (start_lookup t)"
  by (simp add: node_inv_def start_lookup_def walk_ok_def borrowed_none)

lemma node_inv_match:
  assumes "node_inv G t0 target st" "match_ok G target m"
  shows "node_inv G t0 target (st\<lparr>nl_matches := put_node m (nl_matches st)\<rparr>)"
  using assms set_put_node [of m "nl_matches st"] unfolding node_inv_def by auto

lemma node_inv_known:
  assumes "node_inv G t0 target st" "safe G t0 n"
  shows "node_inv G t0 target (st\<lparr>nl_known := put_node n (nl_known st)\<rparr>)"
    "node_inv G t0 target (st\<lparr>nl_known := add_node n (nl_known st)\<rparr>)"
  using assms walk_ok_known unfolding node_inv_def by auto

lemma node_inv_seeds:
  "node_inv G t0 target st \<Longrightarrow> node_inv G t0 target (add_seeds G target clk n seeds st) \<and>
     nl_queries (add_seeds G target clk n seeds st) = nl_queries st \<and> nl_rounds (add_seeds G target clk n seeds st) = nl_rounds st"
proof (induction G target clk n seeds st rule: add_seeds.induct)
  case (2 G target clk n node seeds st)
  let ?v = "VerifyNodeInfo G node (clk n) = Inr ()"
  let ?st = "if ActiveNode (ni_ID node) (nl_RT st) \<noteq> None \<or> ?v
    then st\<lparr>nl_known := put_node node (nl_known st),
      nl_matches := (if ?v \<and> matchesNodeLookupTarget G node target then put_node node (nl_matches st) else nl_matches st)\<rparr> else st"
  have b: "borrowed G t0 (nl_RT st) (nl_transient st)" using 2(2) by (simp add: node_inv_def walk_ok_def)
  have "node_inv G t0 target ?st"
  proof (cases "ActiveNode (ni_ID node) (nl_RT st) \<noteq> None \<or> ?v")
    case True
    then have "safe G t0 node" using borrowed_active [OF b] by (auto simp: safe_def)
    from node_inv_known(1) [OF 2(2) this] node_inv_match [of G t0 target "st\<lparr>nl_known := put_node node (nl_known st)\<rparr>" node] True
    show ?thesis by (auto simp: match_ok_def)
  qed (use 2(2) in simp)
  from 2(1) [OF refl this] show ?case by (simp add: Let_def)
qed simp

lemma node_inv_absorb:
  assumes "node_inv G t0 target st"
  shows "node_inv G t0 target (fold (absorb_ref G target) refs st) \<and>
    nl_queries (fold (absorb_ref G target) refs st) = nl_queries st \<and> nl_rounds (fold (absorb_ref G target) refs st) = nl_rounds st"
  using assms
proof (induction refs arbitrary: st)
  case (Cons rn refs)
  obtain ref now where rn: "rn = (ref, now)" by force
  have "node_inv G t0 target (absorb_ref G target rn st)"
  proof (cases "VerifyNodeInfo G ref now \<noteq> Inr () \<or> ni_ID ref = [] \<or> ni_Addr ref = []")
    case False
    then have "safe G t0 ref" by (auto simp: safe_def)
    from node_inv_known(2) [OF Cons.prems this] node_inv_match [of G t0 target "st\<lparr>nl_known := add_node ref (nl_known st)\<rparr>" ref] False
    show ?thesis by (auto simp: absorb_ref_def rn match_ok_def)
  qed (use Cons.prems in \<open>simp add: absorb_ref_def rn\<close>)
  moreover have "nl_queries (absorb_ref G target rn st) = nl_queries st" "nl_rounds (absorb_ref G target rn st) = nl_rounds st"
    by (simp_all add: absorb_ref_def rn)
  ultimately show ?case using Cons.IH by simp
qed simp

lemma node_inv_receive:
  "node_inv G t0 target st \<Longrightarrow> receive_nodes G target n evs st = (stopped, st') \<Longrightarrow>
     node_inv G t0 target st' \<and> nl_queries st' = nl_queries st \<and> nl_rounds st' = nl_rounds st"
proof (induction G target n evs st rule: receive_nodes.induct)
  case (4 G target n node evs st)
  have "node_inv G t0 target (st\<lparr>nl_failures := nl_failures st + 1\<rparr>)" using 4(2) by (simp add: node_inv_def)
  from 4(1) [OF this] 4(3) show ?case by simp
next
  case (5 G target n node refs evs st)
  from 5(1) [OF conjunct1 [OF node_inv_absorb [OF 5(2)]]] 5(3) node_inv_absorb [OF 5(2), of refs]
  show ?case by simp
qed auto

lemma start_queries_ok:
  assumes "node_inv G t0 target st" "sha256_ok G" "SelfID t0 = NodeIDFromPublicKey G k"
    and "\<forall>n \<in> set batch. safe G t0 n" "distinct (map ni_ID batch)" "ni_ID ` set batch \<inter> set (nl_queriedIDs st) = {}"
  shows "\<exists>st'. start_queries G batch st = Some st' \<and> node_inv G t0 target st' \<and>
    nl_queries st' = nl_queries st + int (length batch) \<and> nl_rounds st' = nl_rounds st"
  using assms
proof (induction batch arbitrary: st)
  case (Cons n batch)
  let ?st = "st\<lparr>nl_queriedIDs := nl_queriedIDs st @ [ni_ID n], nl_queries := nl_queries st + 1\<rparr>"
  have inv: "node_inv G t0 target ?st" using Cons.prems by (auto simp: node_inv_def)
  then have b: "borrowed G t0 (nl_RT st) (nl_transient st)" by (simp add: node_inv_def walk_ok_def)
  show ?case
  proof (cases "ActiveNode (ni_ID n) (nl_RT st) = None")
    case False
    then show ?thesis using Cons.IH [OF inv] Cons.prems by (auto simp: Let_def)
  next
    case True
    then obtain t added where a: "AddLookupCandidate G n (nl_RT st) = Some (t, added)"
      using AddLookupCandidate_safe [OF Cons.prems(2,3) b] Cons.prems(4) by force
    let ?st' = "?st\<lparr>nl_RT := t, nl_transient := (if added then add_key (ni_ID n) (nl_transient st) else nl_transient st)\<rparr>"
    have "node_inv G t0 target ?st'" using inv borrowed_add [OF b a] by (simp add: node_inv_def walk_ok_def)
    from Cons.IH [OF this] show ?thesis using Cons.prems True a by (auto simp: Let_def)
  qed
qed simp

section \<open>The rounds of a node lookup\<close>

lemma sortedKnown_all: "mset (sortedKnown G ns target (int (length ns))) = mset ns"
  by (simp add: sortedKnown_def closestUnqueried_def Let_def filter_True)

lemma set_sortedKnown_all [simp]: "set (sortedKnown G ns target (int (length ns))) = set ns"
  "length (sortedKnown G ns target (int (length ns))) = length ns"
  using sortedKnown_all [of G ns target] by (metis mset_eq_setD, metis size_mset)

lemma id_matches_unique:
  assumes "distinct (map ni_ID ms)" "\<forall>m \<in> set ms. match_ok G target m" "\<not> HasPrefix target ''node/name/''"
  shows "length ms \<le> 1"
proof (rule ccontr)
  assume "\<not> length ms \<le> 1"
  then obtain a b xs where ms: "ms = a # b # xs" by (cases ms; cases "tl ms") auto
  then have "ni_ID a = ni_ID b"
    using assms(2,3) by (simp add: match_ok_def matchesNodeLookupTarget_def split: if_splits)
  with ms assms(1) show False by simp
qed

text \<open>What the answer \<open>r\<close> of a lookup that ended in the state \<open>st\<close> says.\<close>

definition node_answer_ok :: "golib \<Rightarrow> string \<Rightarrow> NodeLookupResult \<times> lookup_error option \<Rightarrow> node_lookup \<Rightarrow> bool" where
  "node_answer_ok G target r st \<longleftrightarrow> (case r of (res, err) \<Rightarrow>
     nr_QueriedNodes res = nl_queries st \<and> nr_Rounds res = nl_rounds st \<and> (\<forall>m \<in> set (nr_Matches res). match_ok G target m) \<and>
     (nr_Outcome res = LookupFound \<longrightarrow> err = None \<and> length (nr_Matches res) = 1) \<and>
     (nr_Outcome res = LookupConflict \<longrightarrow> err = None \<and> 2 \<le> length (nr_Matches res)) \<and>
     (nr_Outcome res = LookupNotFound \<longrightarrow> err = None \<and> nr_Matches res = []) \<and>
     (nr_Outcome res = LookupIncomplete \<longleftrightarrow> err \<noteq> None) \<and>
     (err = None \<and> (HasPrefix target ''node/name/'' \<or> nr_Matches res = []) \<longrightarrow>
        nl_failures st = 0 \<and> (\<forall>n \<in> set (nl_known st). ni_ID n \<in> set (nl_queriedIDs st))))"

lemma nobody_left:
  assumes "closestUnqueried G known queried target limit = []" "1 \<le> limit"
  shows "\<forall>n \<in> set known. ni_ID n \<in> set queried"
proof -
  have "sort_slice (nearer G target) (filter (\<lambda>n. ni_ID n \<notin> set queried) known) = []"
    using assms by (auto simp: closestUnqueried_def Let_def split: if_splits)
  then have "filter (\<lambda>n. ni_ID n \<notin> set queried) known = []" by (metis length_0_conv length_sort_slice)
  then show ?thesis by (simp add: filter_empty_conv)
qed

lemma conclude_ok:
  assumes "node_inv G t0 target st" "\<forall>n \<in> set (nl_known st). ni_ID n \<in> set (nl_queriedIDs st)"
  shows "node_answer_ok G target (conclude G target st) st"
proof -
  have empty: "sortedKnown G [] target 0 = []" using set_sortedKnown_all(1) [of G "[]" target] by simp
  show ?thesis
    using assms id_matches_unique [of "nl_matches st" G target]
    by (auto simp: node_answer_ok_def conclude_def node_result_def node_inv_def empty Suc_le_eq less_Suc_eq
        simp flip: length_greater_0_conv split: if_splits)
qed

lemma node_inv_rounds [simp]: "node_inv G t0 target (st\<lparr>nl_rounds := r\<rparr>) = node_inv G t0 target st"
  by (simp add: node_inv_def)

lemma node_inv_diversity:
  assumes "node_inv G t0 target st"
  shows "node_inv G t0 target (st\<lparr>nl_diversityLoaded := True, nl_known := addDiversityFallback (nl_known st) (DiversityContacts G R ids (nl_RT st))\<rparr>)"
proof -
  have b: "borrowed G t0 (nl_RT st) (nl_transient st)" using assms by (simp add: node_inv_def walk_ok_def)
  have "walk_ok G t0 (nl_RT st) (nl_transient st) ns \<Longrightarrow> \<forall>n \<in> set ps. safe G t0 n \<Longrightarrow>
      walk_ok G t0 (nl_RT st) (nl_transient st) (fold add_node ps ns)" for ps ns
    by (induction ps arbitrary: ns) (auto intro: walk_ok_known)
  moreover have "\<forall>n \<in> set (DiversityContacts G R ids (nl_RT st)). safe G t0 n"
    using DiversityContacts_active [OF borrowedD(2) [OF b]] borrowed_active [OF b] by (auto simp: safe_def)
  ultimately show ?thesis using assms by (simp add: node_inv_def addDiversityFallback_def)
qed

lemma node_rounds_ok:
  assumes "node_inv G t0 target st" "nl_queries st \<le> ll_MaxPeerQueries limits" "int round \<le> ll_MaxRounds limits" "nl_rounds st \<le> int round"
    and env: "sha256_ok G" "SelfID t0 = NodeIDFromPublicKey G k" "1 \<le> ll_MaxConcurrent limits"
  shows "\<exists>r st'. node_rounds G R ids env target limits round st = Some (r, st') \<and> node_inv G t0 target st' \<and>
    node_answer_ok G target r st' \<and> nl_queries st' \<le> ll_MaxPeerQueries limits \<and> nl_rounds st' \<le> ll_MaxRounds limits"
  using assms(1-4)
proof (induction "nat (ll_MaxRounds limits - int round)" arbitrary: round st rule: less_induct)
  case less
  let ?go = "int round < ll_MaxRounds limits \<and> nl_queries st < ll_MaxPeerQueries limits"
  let ?st = "st\<lparr>nl_rounds := int round + 1\<rparr>"
  let ?limit = "min (ll_MaxConcurrent limits) (ll_MaxPeerQueries limits - nl_queries st)"
  let ?batch = "closestUnqueried G (nl_known st) (nl_queriedIDs st) target ?limit"
  note U = node_rounds.simps [of G R ids env target limits round st]
  have inv: "node_inv G t0 target ?st" using less.prems(1) by simp
  have again: "\<exists>r st''. node_rounds G R ids env target limits (Suc round) st' = Some (r, st'') \<and> node_inv G t0 target st'' \<and>
    node_answer_ok G target r st'' \<and> nl_queries st'' \<le> ll_MaxPeerQueries limits \<and> nl_rounds st'' \<le> ll_MaxRounds limits"
    if "?go" "node_inv G t0 target st'" "nl_queries st' \<le> ll_MaxPeerQueries limits" "nl_rounds st' = int round + 1" for st'
    using that by (intro less.hyps) auto
  consider "\<not> ?go" | "?go" "?batch = []" | "?go" "?batch \<noteq> []" by blast
  then show ?case
  proof cases
    case 1
    have m: "\<forall>m \<in> set (nl_matches st). match_ok G target m" using less.prems(1) by (simp add: node_inv_def)
    have "node_answer_ok G target (if closestUnqueried G (nl_known st) (nl_queriedIDs st) target 1 \<noteq> []
        then (node_result G target (nl_matches st) LookupIncomplete st, Some (ErrIncompleteLimit None)) else conclude G target st) st"
      using conclude_ok [OF less.prems(1)] nobody_left [of G "nl_known st" "nl_queriedIDs st" target 1] m
      by (auto simp: node_answer_ok_def node_result_def)
    then show ?thesis using 1 less.prems unfolding U by (cases "conclude G target st") auto
  next
    case 2
    let ?st1 = "?st\<lparr>nl_diversityLoaded := True, nl_known := addDiversityFallback (nl_known st) (DiversityContacts G R ids (nl_RT st))\<rparr>"
    have left: "\<forall>n \<in> set (nl_known ?st). ni_ID n \<in> set (nl_queriedIDs ?st)"
      using nobody_left [OF 2(2)] 2(1) env(3) by simp
    show ?thesis
    proof (cases "nl_diversityLoaded st")
      case True
      then show ?thesis using 2 less.prems inv conclude_ok [OF inv left] unfolding U by (simp add: Let_def)
    next
      case False
      have inv1: "node_inv G t0 target ?st1" using node_inv_diversity [OF inv, of R ids] by simp
      show ?thesis
      proof (cases "closestUnqueried G (nl_known ?st1) (nl_queriedIDs ?st1) target 1 = []")
        case True
        have "node_answer_ok G target (conclude G target ?st1) ?st1"
          using nobody_left [OF True] by (intro conclude_ok [OF inv1]) simp
        then show ?thesis using 2 False True less.prems inv1 unfolding U by (simp add: Let_def)
      next
        case go: False
        from again [OF 2(1) inv1] show ?thesis using 2 False go less.prems unfolding U by (simp add: Let_def)
      qed
    qed
  next
    case 3
    have b: "\<forall>n \<in> set ?batch. safe G t0 n" "distinct (map ni_ID ?batch)" "ni_ID ` set ?batch \<inter> set (nl_queriedIDs ?st) = {}"
      using closestUnqueried_sub [of G "nl_known st" "nl_queriedIDs st" target ?limit] closestUnqueried_distinct inv
      by (auto simp: node_inv_def walk_ok_def)
    obtain st1 where st1: "start_queries G ?batch ?st = Some st1" "node_inv G t0 target st1"
      "nl_queries st1 = nl_queries st + int (length ?batch)" "nl_rounds st1 = int round + 1"
      using start_queries_ok [OF inv env(1,2) b] by auto
    have len: "int (length ?batch) \<le> ?limit" using 3(1) env(3) by (intro closestUnqueried_length) simp
    obtain stopped st2 where rc: "receive_nodes G target (length ?batch) (env round ?batch) st1 = (stopped, st2)" by force
    have st2: "node_inv G t0 target st2" "nl_queries st2 \<le> ll_MaxPeerQueries limits" "nl_rounds st2 = int round + 1"
      using node_inv_receive [OF st1(2) rc] st1 len by auto
    have m: "\<forall>m \<in> set (nl_matches st2). match_ok G target m" "distinct (map ni_ID (nl_matches st2))"
      using st2(1) by (auto simp: node_inv_def)
    have found: "node_answer_ok G target (node_result G target (nl_matches st2) LookupFound st2, None) st2"
      if "\<not> HasPrefix target ''node/name/''" "nl_matches st2 \<noteq> []"
    proof -
      have "length (nl_matches st2) = 1" using that id_matches_unique [OF m(2,1)] by (cases "nl_matches st2") auto
      moreover from this have "sortedKnown G (nl_matches st2) target 1 \<noteq> []"
        using set_sortedKnown_all(2) [of G "nl_matches st2" target] by auto
      ultimately show ?thesis using that m set_sortedKnown_all [of G "nl_matches st2" target] by (simp add: node_answer_ok_def node_result_def)
    qed
    have late: "node_answer_ok G target (node_result G target (nl_matches st2) LookupIncomplete st2, Some (ErrIncompleteTimeout (nl_queries st2))) st2"
      using m by (simp add: node_answer_ok_def node_result_def)
    show ?thesis
    proof (cases "stopped \<or> (\<not> HasPrefix target ''node/name/'' \<and> nl_matches st2 \<noteq> [])")
      case True
      then show ?thesis using 3 st1(1) rc st2 late found unfolding U by (cases stopped) (simp_all add: Let_def)
    next
      case False
      then show ?thesis using 3 st1(1) rc again [OF 3(1) st2] unfolding U by (auto simp: Let_def)
    qed
  qed
qed

section \<open>Node lookups return\<close>

lemma valid_limits:
  assumes "limits_valid (ds_lookupLimits s)"
  shows "lookup_limits s = ds_lookupLimits s" "1 \<le> ll_MaxConcurrent (ds_lookupLimits s)" "0 \<le> ll_MaxPeerQueries (ds_lookupLimits s)"
    "0 \<le> ll_MaxRounds (ds_lookupLimits s)" "ll_MaxPeerQueries (ds_lookupLimits s) \<le> 80" "ll_MaxRounds (ds_lookupLimits s) \<le> 20"
  using assms by (auto simp: limits_valid_def lookup_limits_def defaultLookupLimits_def Let_def)

lemma start_queries_zero [simp]: "nl_queries (start_lookup t) = 0" "nl_rounds (start_lookup t) = 0"
  by (simp_all add: start_lookup_def)

lemma restored:
  assumes "borrowed G t0 t tr"
  shows "table_ok G (discard_transient tr t) \<and> peerByID (discard_transient tr t) = peerByID t0 \<and>
    (\<forall>i. ActiveNode i (discard_transient tr t) = ActiveNode i t0)"
proof -
  note b = borrowed_discard_all [OF assms]
  show ?thesis using borrowedD(2,7) [OF b] borrowed_active [OF b] by auto
qed

text \<open>
  C20: node lookups end. Whatever the peers answer, refuse or delay, a lookup on a consistent routing table
  whose own identifier is made from a key returns without a panic, after at most 20 rounds and 80 queries;
  the table it leaves is consistent, lists the same peers and has the same active peers as before.
\<close>

theorem node_lookup_returns:
  assumes "sha256_ok G" "table_ok G (ds_RT s)" "SelfID (ds_RT s) = NodeIDFromPublicKey G k" "limits_valid (ds_lookupLimits s)"
  shows "\<exists>res err s'. recursiveFindNodeDetailed G R ids offs clk env target bootstrap s = Some ((res, err), s') \<and>
    nr_QueriedNodes res \<le> 80 \<and> nr_Rounds res \<le> 20 \<and> table_ok G (ds_RT s') \<and> peerByID (ds_RT s') = peerByID (ds_RT s) \<and>
    (\<forall>i. ActiveNode i (ds_RT s') = ActiveNode i (ds_RT s))"
proof -
  note L = valid_limits [OF assms(4)]
  define st where "st = add_seeds G target clk 1 (lookup_seeds G offs (clk 0) target bootstrap (ds_lookupLimits s) (ds_RT s)) (start_lookup (ds_RT s))"
  have st: "node_inv G (ds_RT s) target st" "nl_queries st = 0" "nl_rounds st = 0"
    using node_inv_seeds [OF node_inv_start [OF assms(2)]] by (simp_all add: st_def)
  obtain r st' where r: "node_rounds G R ids env target (ds_lookupLimits s) 0 st = Some (r, st')" "node_inv G (ds_RT s) target st'"
    "node_answer_ok G target r st'" "nl_queries st' \<le> ll_MaxPeerQueries (ds_lookupLimits s)" "nl_rounds st' \<le> ll_MaxRounds (ds_lookupLimits s)"
    using node_rounds_ok [of G "ds_RT s" target st "ds_lookupLimits s" 0 k R ids env] st L assms by auto
  have "borrowed G (ds_RT s) (nl_RT st') (nl_transient st')" using r(2) by (simp add: node_inv_def walk_ok_def)
  note rest = restored [OF this]
  have U: "recursiveFindNodeDetailed G R ids offs clk env target bootstrap s =
      (if \<not> HasPrefix target ''node/name/'' \<and> nl_matches st \<noteq> [] then Some ((node_result G target (nl_matches st) LookupFound st, None), s)
       else map_option (\<lambda>(r, st'). (r, s\<lparr>ds_RT := discard_transient (nl_transient st') (nl_RT st')\<rparr>))
         (node_rounds G R ids env target (ds_lookupLimits s) 0 st))"
    by (simp only: recursiveFindNodeDetailed_def L(1) Let_def st_def)
  show ?thesis
  proof (cases "\<not> HasPrefix target ''node/name/'' \<and> nl_matches st \<noteq> []")
    case True
    then show ?thesis using st assms(2) unfolding U by (simp add: node_result_def)
  next
    case False
    obtain res err where "r = (res, err)" by force
    then show ?thesis using False r L rest unfolding U by (auto simp: node_answer_ok_def)
  qed
qed

theorem node_lookup_returns_witness:
  "\<exists>res err s'. recursiveFindNodeDetailed demo_lib (\<lambda>_. None) [] [] (\<lambda>_. 0) (\<lambda>_ _. []) ''node/name/ab'' False
     (NewServer demo_lib (NodeIDFromPublicKey demo_lib [7])) = Some ((res, err), s') \<and> nr_QueriedNodes res \<le> 80"
proof -
  let ?s = "NewServer demo_lib (NodeIDFromPublicKey demo_lib [7])"
  have "table_ok demo_lib (ds_RT ?s)" "SelfID (ds_RT ?s) = NodeIDFromPublicKey demo_lib [7]"
    by (simp_all add: NewServer_def NewRoutingTable_ok) (simp add: NewRoutingTable_def)
  moreover have "limits_valid (ds_lookupLimits ?s)"
    by (simp add: NewServer_def limits_valid_def defaultLookupLimits_def Let_def second_def)
  ultimately show ?thesis
    using node_lookup_returns [OF demo_lib_ok(1), of ?s "[7]" "\<lambda>_. None" "[]" "[]" "\<lambda>_. 0" "\<lambda>_ _. []" "''node/name/ab''" False] by blast
qed

text \<open>
  C21: what the answer of a node lookup means. Every peer is asked at most once; every match is a verified
  description of the target; \<^verbatim>\<open>found\<close> means exactly one match, \<^verbatim>\<open>conflict\<close> at least two, \<^verbatim>\<open>not found\<close> none; an
  error is returned exactly for an incomplete lookup; and a name lookup, or a lookup without a match, that
  ends without error has had no failed query and has asked every peer it knew.
\<close>

theorem node_lookup_answer:
  assumes "sha256_ok G" "table_ok G t" "SelfID t = NodeIDFromPublicKey G k" "limits_valid limits"
    and "node_rounds G R ids env target limits 0 (add_seeds G target clk 1 seeds (start_lookup t)) = Some ((res, err), st)"
  shows "distinct (nl_queriedIDs st) \<and> nr_QueriedNodes res = int (length (nl_queriedIDs st)) \<and>
    (\<forall>m \<in> set (nr_Matches res). matchesNodeLookupTarget G m target \<and> (\<exists>now. VerifyNodeInfo G m now = Inr ())) \<and>
    (nr_Outcome res = LookupFound \<longrightarrow> length (nr_Matches res) = 1) \<and> (nr_Outcome res = LookupConflict \<longrightarrow> 2 \<le> length (nr_Matches res)) \<and>
    (nr_Outcome res = LookupNotFound \<longrightarrow> nr_Matches res = []) \<and> (nr_Outcome res = LookupIncomplete \<longleftrightarrow> err \<noteq> None) \<and>
    (err = None \<and> (HasPrefix target ''node/name/'' \<or> nr_Matches res = []) \<longrightarrow>
       nl_failures st = 0 \<and> (\<forall>n \<in> set (nl_known st). ni_ID n \<in> set (nl_queriedIDs st)))"
proof -
  let ?st = "add_seeds G target clk 1 seeds (start_lookup t)"
  have st: "node_inv G t target ?st" "nl_queries ?st = 0" "nl_rounds ?st = 0"
    using node_inv_seeds [OF node_inv_start [OF assms(2)]] by simp_all
  have L: "1 \<le> ll_MaxConcurrent limits" "0 \<le> ll_MaxPeerQueries limits" "0 \<le> ll_MaxRounds limits"
    using assms(4) by (auto simp: limits_valid_def Let_def)
  have "node_inv G t target st" "node_answer_ok G target (res, err) st"
    using node_rounds_ok [of G t target ?st limits 0 k R ids env] st L assms by auto
  then show ?thesis by (simp add: node_answer_ok_def match_ok_def node_inv_def)
qed

theorem node_lookup_answer_witness:
  "\<exists>res err st. node_rounds demo_lib (\<lambda>_. None) [] (\<lambda>_ _. []) ''node/name/ab'' defaultLookupLimits 0
      (add_seeds demo_lib ''node/name/ab'' (\<lambda>_. 0) 1 [] (start_lookup (NewRoutingTable demo_lib (NodeIDFromPublicKey demo_lib [7])))) =
      Some ((res, err), st) \<and> distinct (nl_queriedIDs st) \<and> nr_QueriedNodes res = int (length (nl_queriedIDs st))"
proof -
  let ?t = "NewRoutingTable demo_lib (NodeIDFromPublicKey demo_lib [7])"
  let ?st = "add_seeds demo_lib ''node/name/ab'' (\<lambda>_. 0) 1 [] (start_lookup ?t)"
  have self: "SelfID ?t = NodeIDFromPublicKey demo_lib [7]" by (simp add: NewRoutingTable_def)
  have L: "limits_valid defaultLookupLimits" by (simp add: limits_valid_def defaultLookupLimits_def Let_def second_def)
  have "node_inv demo_lib ?t ''node/name/ab'' ?st" by (simp add: node_inv_start NewRoutingTable_ok)
  then obtain res err st where r: "node_rounds demo_lib (\<lambda>_. None) [] (\<lambda>_ _. []) ''node/name/ab'' defaultLookupLimits 0 ?st = Some ((res, err), st)"
    using node_rounds_ok [of demo_lib ?t "''node/name/ab''" ?st defaultLookupLimits 0 "[7]" "\<lambda>_. None" "[]" "\<lambda>_ _. []"] self demo_lib_ok(1)
    by (auto simp: defaultLookupLimits_def)
  from node_lookup_answer [OF demo_lib_ok(1) NewRoutingTable_ok self L r] r show ?thesis by blast
qed

end
