(* ===== verification/ValueLookupFacts.thy ===== *)
theory ValueLookupFacts
  imports LookupFacts
begin

text \<open>
  Properties of value lookups: they return within their limits, restore the routing table, and return a
  verified value only when two sources supported it.
\<close>

section \<open>Value lookups\<close>

text \<open>Where an observation of the collector comes from: the local store or the answer of a peer.\<close>

definition answered :: "(nat \<Rightarrow> NodeInfo list \<Rightarrow> value_event list) \<Rightarrow> Server \<Rightarrow> string \<Rightarrow> sourceObservation \<Rightarrow> string \<Rightarrow> bool" where
  "answered env s key src raw \<longleftrightarrow>
     so_nodeID src = ''local:'' @ SelfID (ds_RT s) \<and> ds_Values s key = Some raw \<or>
     (\<exists>round batch node refs. ValueReply node raw refs \<in> set (env round batch) \<and> so_nodeID src = ni_ID node)"

definition value_inv ::
  "golib \<Rightarrow> jsonlib \<Rightarrow> asn_resolver \<Rightarrow> (nat \<Rightarrow> NodeInfo list \<Rightarrow> value_event list) \<Rightarrow> string \<Rightarrow> time \<Rightarrow> Server \<Rightarrow> value_lookup \<Rightarrow> bool" where
  "value_inv G J R env key now s st \<longleftrightarrow> walk_ok G (ds_RT s) (vl_RT st) (vl_transient st) (vl_known st) \<and> distinct (vl_queriedIDs st) \<and>
     (\<exists>obs. vl_collector st = observe_all G J R obs (newLookupCollector key now) \<and> (\<forall>(src, raw) \<in> set obs. answered env s key src raw))"

lemma value_inv_frame:
  assumes "value_inv G J R env key now s st" "walk_ok G (ds_RT s) (vl_RT st') (vl_transient st') (vl_known st')"
    and "vl_queriedIDs st' = vl_queriedIDs st" "vl_collector st' = vl_collector st"
  shows "value_inv G J R env key now s st'"
  using assms by (simp add: value_inv_def)

lemma value_inv_borrow:
  assumes "value_inv G J R env key now s st"
  shows "borrowed G (ds_RT s) (vl_RT st) (vl_transient st)" "walk_ok G (ds_RT s) (vl_RT st) (vl_transient st) (vl_known st)"
  using assms by (simp_all add: value_inv_def walk_ok_def)

lemma value_inv_observe:
  assumes "value_inv G J R env key now s st" "answered env s key src raw"
  shows "value_inv G J R env key now s (st\<lparr>vl_collector := Observe G J R src raw (vl_collector st)\<rparr>)"
proof -
  obtain obs where o: "vl_collector st = observe_all G J R obs (newLookupCollector key now)" "\<forall>(src, raw) \<in> set obs. answered env s key src raw"
    using assms(1) by (auto simp: value_inv_def)
  then have "Observe G J R src raw (vl_collector st) = observe_all G J R (obs @ [(src, raw)]) (newLookupCollector key now)"
    by (simp add: observe_all_def)
  moreover have "\<forall>(src, raw) \<in> set (obs @ [(src, raw)]). answered env s key src raw" using o(2) assms(2) by auto
  ultimately show ?thesis using assms(1) unfolding value_inv_def by fastforce
qed

lemma value_inv_start: "table_ok G (ds_RT s) \<Longrightarrow> value_inv G J R env key now s (start_value_lookup key now (ds_RT s))"
  by (auto simp: value_inv_def start_value_lookup_def walk_ok_def borrowed_none observe_all_def intro: exI [of _ "[]"])

lemma value_inv_seeds:
  "value_inv G J R env key now s st \<Longrightarrow> value_inv G J R env key now s (add_value_seeds G clk n seeds st) \<and>
     vl_queried (add_value_seeds G clk n seeds st) = vl_queried st"
proof (induction G clk n seeds st rule: add_value_seeds.induct)
  case (2 G clk n node seeds st)
  let ?c = "ActiveNode (ni_ID node) (vl_RT st) \<noteq> None \<or> VerifyNodeInfo G node (clk n) = Inr ()"
  let ?st = "if ?c then st\<lparr>vl_known := put_node node (vl_known st), vl_branchByID := AList.update (ni_ID node) (int n + 1) (vl_branchByID st)\<rparr> else st"
  have "value_inv G J R env key now s ?st"
  proof (cases ?c)
    case True
    then have "safe G (ds_RT s) node" using borrowed_active [OF value_inv_borrow(1) [OF 2(2)]] by (auto simp: safe_def)
    from walk_ok_known(1) [OF value_inv_borrow(2) [OF 2(2)] this] show ?thesis
      using True by (intro value_inv_frame [OF 2(2)]) simp_all
  qed (use 2(2) in simp)
  from 2(1) [OF this] show ?case by simp
qed simp

lemma value_inv_local:
  assumes "value_inv G J R env key now s st"
  shows "value_inv G J R env key now s (observe_local G J R key s st) \<and> vl_queried (observe_local G J R key s st) = vl_queried st"
  using assms by (auto simp: observe_local_def answered_def intro!: value_inv_observe split: option.splits)

lemma value_inv_drop:
  assumes "value_inv G J R env key now s st"
  shows "value_inv G J R env key now s (drop_transient i st) \<and> vl_queried (drop_transient i st) = vl_queried st"
proof -
  have "walk_ok G (ds_RT s) (vl_RT (drop_transient i st)) (vl_transient (drop_transient i st)) (vl_known (drop_transient i st))"
    using value_inv_borrow [OF assms] borrowed_discard by (auto simp: drop_transient_def walk_ok_def)
  from value_inv_frame [OF assms this] show ?thesis by (simp add: drop_transient_def)
qed

lemma value_inv_absorb:
  assumes "value_inv G J R env key now s st"
  shows "value_inv G J R env key now s (fold (absorb_value_ref G branch) refs st) \<and>
    vl_queried (fold (absorb_value_ref G branch) refs st) = vl_queried st"
  using assms
proof (induction refs arbitrary: st)
  case (Cons rn refs)
  obtain ref t where rn: "rn = (ref, t)" by force
  have "walk_ok G (ds_RT s) (vl_RT (absorb_value_ref G branch rn st)) (vl_transient (absorb_value_ref G branch rn st))
      (vl_known (absorb_value_ref G branch rn st))"
    using value_inv_borrow(2) [OF Cons.prems] by (auto simp: absorb_value_ref_def rn walk_ok_def safe_def)
  then have "value_inv G J R env key now s (absorb_value_ref G branch rn st)"
    by (rule value_inv_frame [OF Cons.prems]) (simp_all add: absorb_value_ref_def rn)
  moreover have "vl_queried (absorb_value_ref G branch rn st) = vl_queried st" by (simp add: absorb_value_ref_def rn)
  ultimately show ?case using Cons.IH by simp
qed simp

lemma value_inv_receive:
  assumes "value_inv G J R env key now s st" "set evs \<subseteq> set (env round batch)"
    and "receive_values G J R fl n evs st = (stopped, st')"
  shows "value_inv G J R env key now s st' \<and> vl_queried st \<le> vl_queried st' \<and> vl_queried st' \<le> vl_queried st + int n"
  using assms
proof (induction G J R fl n evs st rule: receive_values.induct)
  case (4 G J R fl n node t evs st)
  let ?st = "st\<lparr>vl_queried := vl_queried st + 1, vl_failures := vl_failures st + 1, vl_RT := fst (NoteFailureAt (ni_ID node) t (vl_RT st))\<rparr>"
  have "value_inv G J R env key now s ?st"
    using value_inv_borrow [OF 4(2)] borrowed_note by (intro value_inv_frame [OF 4(2)]) (auto simp: walk_ok_def)
  note d = value_inv_drop [OF this, of "ni_ID node"]
  from 4(1) [OF conjunct1 [OF d]] 4(3,4) d show ?case by simp
next
  case (5 G J R fl n node val refs evs st)
  let ?st = "st\<lparr>vl_queried := vl_queried st + 1\<rparr>"
  let ?src = "\<lparr>so_nodeID = ni_ID node, so_addr = ni_Addr node, so_trust = 1, so_branch = branch_of fl (ni_ID node)\<rparr>"
  let ?st1 = "drop_transient (ni_ID node) ?st"
  let ?st2 = "if val \<noteq> [] then ?st1\<lparr>vl_collector := Observe G J R ?src val (vl_collector ?st1)\<rparr> else ?st1"
  have "value_inv G J R env key now s ?st"
    using value_inv_borrow(2) [OF 5(2)] by (intro value_inv_frame [OF 5(2)]) simp_all
  note d = value_inv_drop [OF this, of "ni_ID node"]
  have "answered env s key ?src val" using 5(3) unfolding answered_def by (intro disjI2 exI [of _ round] exI [of _ batch] exI [of _ node] exI [of _ refs]) simp
  with d have "value_inv G J R env key now s ?st2" by (auto intro: value_inv_observe)
  note a = value_inv_absorb [OF this, of "branch_of fl (ni_ID node)" refs]
  have q: "vl_queried ?st2 = vl_queried st + 1" using d by simp
  have rec: "receive_values G J R fl n evs (fold (absorb_value_ref G (branch_of fl (ni_ID node))) refs ?st2) = (stopped, st')"
    using 5(4) by (simp add: Let_def)
  from 5(1) [OF refl refl refl conjunct1 [OF a] _ rec] 5(3) a q show ?case by simp
qed auto

lemma start_value_queries_ok:
  assumes "value_inv G J R env key now s st" "sha256_ok G" "SelfID (ds_RT s) = NodeIDFromPublicKey G k"
    and "\<forall>n \<in> set batch. safe G (ds_RT s) n" "distinct (map ni_ID batch)" "ni_ID ` set batch \<inter> set (vl_queriedIDs st) = {}"
  shows "\<exists>st'. start_value_queries G batch st = Some st' \<and> value_inv G J R env key now s st' \<and> vl_queried st' = vl_queried st"
  using assms
proof (induction batch arbitrary: st)
  case (Cons n batch)
  let ?st = "st\<lparr>vl_queriedIDs := vl_queriedIDs st @ [ni_ID n]\<rparr>"
  have inv: "value_inv G J R env key now s ?st" using Cons.prems by (auto simp: value_inv_def)
  note b = value_inv_borrow [OF Cons.prems(1)]
  show ?case
  proof (cases "ActiveNode (ni_ID n) (vl_RT st) = None")
    case False
    then show ?thesis using Cons.IH [OF inv] Cons.prems by (auto simp: Let_def)
  next
    case True
    then obtain t added where a: "AddLookupCandidate G n (vl_RT st) = Some (t, added)"
      using AddLookupCandidate_safe [OF Cons.prems(2,3) b(1)] Cons.prems(4) by force
    let ?st' = "?st\<lparr>vl_RT := t, vl_transient := (if added then add_key (ni_ID n) (vl_transient st) else vl_transient st)\<rparr>"
    have "value_inv G J R env key now s ?st'"
      using b(2) borrowed_add [OF b(1) a] by (intro value_inv_frame [OF inv]) (simp_all add: walk_ok_def)
    from Cons.IH [OF this] show ?thesis using Cons.prems True a by (auto simp: Let_def)
  qed
qed simp

lemma value_inv_diversity:
  assumes "value_inv G J R env key now s st" "\<forall>n \<in> set ps. safe G (ds_RT s) n"
  shows "value_inv G J R env key now s (add_diversity_values ps st) \<and> vl_queried (add_diversity_values ps st) = vl_queried st"
  using assms
proof (induction ps st rule: add_diversity_values.induct)
  case (2 peer peers st)
  let ?st = "if ni_ID peer \<in> ni_ID ` set (vl_known st) then st
    else st\<lparr>vl_known := vl_known st @ [peer], vl_branchByID := AList.update (ni_ID peer) (int (length (vl_branchByID st)) + 1) (vl_branchByID st)\<rparr>"
  have "value_inv G J R env key now s ?st"
    using value_inv_borrow(2) [OF 2(2)] 2(2,3) by (auto intro!: value_inv_frame [OF 2(2)] simp: walk_ok_def)
  from 2(1) [OF this] 2(3) show ?case by simp
qed simp

lemma value_rounds_ok:
  assumes "value_inv G J R env key now s st" "0 \<le> vl_queried st" "vl_queried st \<le> ll_MaxPeerQueries limits"
    and env: "sha256_ok G" "SelfID (ds_RT s) = NodeIDFromPublicKey G k" "1 \<le> ll_MaxConcurrent limits"
  shows "\<exists>stopped st'. value_rounds G J R ids env key limits round st = Some (stopped, st') \<and>
    value_inv G J R env key now s st' \<and> 0 \<le> vl_queried st' \<and> vl_queried st' \<le> ll_MaxPeerQueries limits"
  using assms(1-3)
proof (induction "nat (ll_MaxRounds limits - int round)" arbitrary: round st rule: less_induct)
  case less
  let ?go = "int round < ll_MaxRounds limits \<and> vl_queried st < ll_MaxPeerQueries limits"
  let ?limit = "min (ll_MaxConcurrent limits) (ll_MaxPeerQueries limits - vl_queried st)"
  let ?batch = "closestUnqueried G (vl_known st) (vl_queriedIDs st) key ?limit"
  note U = value_rounds.simps [of G J R ids env key limits round st]
  note b = value_inv_borrow [OF less.prems(1)]
  have again: "\<exists>stopped st''. value_rounds G J R ids env key limits (Suc round) st' = Some (stopped, st'') \<and>
      value_inv G J R env key now s st'' \<and> 0 \<le> vl_queried st'' \<and> vl_queried st'' \<le> ll_MaxPeerQueries limits"
    if "?go" "value_inv G J R env key now s st'" "0 \<le> vl_queried st'" "vl_queried st' \<le> ll_MaxPeerQueries limits" for st'
    using that by (intro less.hyps) auto
  consider "\<not> ?go" | "?go" "?batch = []" | "?go" "?batch \<noteq> []" by blast
  then show ?case
  proof cases
    case 1
    then show ?thesis using less.prems unfolding U by auto
  next
    case 2
    let ?st0 = "st\<lparr>vl_diversityLoaded := True\<rparr>"
    let ?st1 = "add_diversity_values (DiversityContacts G R ids (vl_RT st)) ?st0"
    have "value_inv G J R env key now s ?st0" by (rule value_inv_frame [OF less.prems(1)]) (simp_all add: b(2))
    then have "value_inv G J R env key now s ?st1 \<and> vl_queried ?st1 = vl_queried ?st0"
      using DiversityContacts_active [OF borrowedD(2) [OF b(1)]] borrowed_active [OF b(1)]
      by (intro value_inv_diversity) (auto simp: safe_def)
    then show ?thesis using 2 less.prems again [OF 2(1), of ?st1] unfolding U by (auto simp: Let_def)
  next
    case 3
    have bt: "\<forall>n \<in> set ?batch. safe G (ds_RT s) n" "distinct (map ni_ID ?batch)" "ni_ID ` set ?batch \<inter> set (vl_queriedIDs st) = {}"
      using closestUnqueried_sub [of G "vl_known st" "vl_queriedIDs st" key ?limit] closestUnqueried_distinct b(2)
      by (auto simp: walk_ok_def)
    obtain st1 where st1: "start_value_queries G ?batch st = Some st1" "value_inv G J R env key now s st1" "vl_queried st1 = vl_queried st"
      using start_value_queries_ok [OF less.prems(1) env(1,2) bt] by auto
    let ?fl = "map (\<lambda>n. (ni_ID n, branch_of (vl_branchByID st) (ni_ID n))) ?batch"
    have len: "int (length ?batch) \<le> ?limit" using 3(1) env(3) by (intro closestUnqueried_length) simp
    obtain stopped st2 where rc: "receive_values G J R ?fl (length ?batch) (env round ?batch) st1 = (stopped, st2)" by force
    have st2: "value_inv G J R env key now s st2" "0 \<le> vl_queried st2" "vl_queried st2 \<le> ll_MaxPeerQueries limits"
      using value_inv_receive [OF st1(2) subset_refl rc] st1(3) len less.prems(2) by auto
    show ?thesis
      using 3 st1(1) rc st2 again [OF 3(1) st2] unfolding U by (cases stopped) (auto simp: Let_def)
  qed
qed

lemma value_lookup_runs:
  assumes "sha256_ok G" "table_ok G (ds_RT s)" "SelfID (ds_RT s) = NodeIDFromPublicKey G k" "limits_valid (ds_lookupLimits s)"
  obtains stopped st where "value_inv G J R env key now s st" "0 \<le> vl_queried st" "vl_queried st \<le> 80"
    "RecursiveFindValueDetailed G J R ids clk now env key s =
       Some (if stopped then ((fst (Collector_Resolve G (vl_queried st) (vl_collector st)))\<lparr>lr_Outcome := LookupIncomplete\<rparr>,
                              Some (ErrIncompleteTimeout (vl_queried st)))
             else settle G key st, s\<lparr>ds_RT := discard_transient (vl_transient st) (vl_RT st)\<rparr>)"
proof -
  note L = valid_limits [OF assms(4)]
  let ?seeded = "add_value_seeds G clk 0 (closestForTarget G key (ll_MaxConcurrent (ds_lookupLimits s)) (ds_RT s)) (start_value_lookup key now (ds_RT s))"
  note v1 = value_inv_seeds [OF value_inv_start [OF assms(2)], of J R env key now clk 0 "closestForTarget G key (ll_MaxConcurrent (ds_lookupLimits s)) (ds_RT s)"]
  note v2 = value_inv_local [OF conjunct1 [OF v1]]
  have q: "vl_queried (observe_local G J R key s ?seeded) = 0" using v1 v2 by (simp add: start_value_lookup_def)
  obtain stopped st where r: "value_rounds G J R ids env key (ds_lookupLimits s) 0 (observe_local G J R key s ?seeded) = Some (stopped, st)"
    "value_inv G J R env key now s st" "0 \<le> vl_queried st" "vl_queried st \<le> ll_MaxPeerQueries (ds_lookupLimits s)"
    using value_rounds_ok [OF conjunct1 [OF v2], of "ds_lookupLimits s" k ids 0] q L(2,3) assms by auto
  show ?thesis
    by (rule that [OF r(2,3)]) (use r L in \<open>simp_all add: RecursiveFindValueDetailed_def Let_def\<close>)
qed

text \<open>
  C22: value lookups end. Whatever the peers answer, a value lookup on a consistent routing table whose own
  identifier is made from a key returns without a panic after at most 80 answered queries, and leaves a
  consistent table with the same peers and the same active peers.
\<close>

theorem value_lookup_returns:
  assumes "sha256_ok G" "table_ok G (ds_RT s)" "SelfID (ds_RT s) = NodeIDFromPublicKey G k" "limits_valid (ds_lookupLimits s)"
  shows "\<exists>res err s'. RecursiveFindValueDetailed G J R ids clk now env key s = Some ((res, err), s') \<and> lr_QueriedNodes res \<le> 80 \<and>
    table_ok G (ds_RT s') \<and> peerByID (ds_RT s') = peerByID (ds_RT s) \<and> (\<forall>i. ActiveNode i (ds_RT s') = ActiveNode i (ds_RT s))"
proof -
  obtain stopped st where r: "value_inv G J R env key now s st" "0 \<le> vl_queried st" "vl_queried st \<le> 80"
    "RecursiveFindValueDetailed G J R ids clk now env key s =
       Some (if stopped then ((fst (Collector_Resolve G (vl_queried st) (vl_collector st)))\<lparr>lr_Outcome := LookupIncomplete\<rparr>,
                              Some (ErrIncompleteTimeout (vl_queried st)))
             else settle G key st, s\<lparr>ds_RT := discard_transient (vl_transient st) (vl_RT st)\<rparr>)"
    by (rule value_lookup_runs [OF assms])
  note rest = restored [OF value_inv_borrow(1) [OF r(1)]]
  have q: "lr_QueriedNodes (fst (Collector_Resolve G q c)) = q" for q c
    by (auto simp: Collector_Resolve_def resolve_raw_def lookupResult_def Let_def split: list.splits option.splits prod.splits)
  obtain res err where cr: "Collector_Resolve G (vl_queried st) (vl_collector st) = (res, err)" by force
  then have "lr_QueriedNodes res = vl_queried st" using q [of "vl_queried st" "vl_collector st"] by simp
  then have "lr_QueriedNodes (fst (settle G key st)) = vl_queried st"
    unfolding settle_def cr by (simp split: option.splits lookup_error.splits)
  then show ?thesis using r(3,4) rest q by (cases "settle G key st") auto
qed

text \<open>
  C19: what it takes to find a verified value. When a lookup returns a verified value without error, the value
  validates for the key at the time of the lookup, and at least two different sources, among the local
  store and the peers that answered, returned a verified value of the same family with the same fingerprint.
\<close>

theorem found_value_is_supported:
  assumes "sha256_ok G" "table_ok G (ds_RT s)" "SelfID (ds_RT s) = NodeIDFromPublicKey G k" "limits_valid (ds_lookupLimits s)"
    and "RecursiveFindValueDetailed G J R ids clk now env key s = Some ((res, None), s')" "lr_Verified res"
  shows "\<exists>raw v A. validateLookupValue G J key raw now = Inr v \<and> vv_verified v \<and> lr_Value res = vv_raw v \<and> 2 \<le> card A \<and>
    (\<forall>n \<in> A. \<exists>src raw' v'. answered env s key src raw' \<and> so_nodeID (fill_source src) = n \<and>
       validateLookupValue G J key raw' now = Inr v' \<and> vv_verified v' \<and> vv_family v' = vv_family v \<and> vv_fingerprint v' = vv_fingerprint v)"
proof -
  obtain stopped st where r: "value_inv G J R env key now s st"
    "RecursiveFindValueDetailed G J R ids clk now env key s =
       Some (if stopped then ((fst (Collector_Resolve G (vl_queried st) (vl_collector st)))\<lparr>lr_Outcome := LookupIncomplete\<rparr>,
                              Some (ErrIncompleteTimeout (vl_queried st)))
             else settle G key st, s\<lparr>ds_RT := discard_transient (vl_transient st) (vl_RT st)\<rparr>)"
    by (rule value_lookup_runs [OF assms(1-4)])
  have "settle G key st = (res, None)" using r(2) assms(5) by (cases stopped) auto
  then have "Collector_Resolve G (vl_queried st) (vl_collector st) = (res, None)"
    by (cases "Collector_Resolve G (vl_queried st) (vl_collector st)")
      (auto simp: settle_def split: option.splits if_splits lookup_error.splits)
  moreover obtain obs where o: "vl_collector st = observe_all G J R obs (newLookupCollector key now)"
    "\<forall>(src, raw) \<in> set obs. answered env s key src raw"
    using r(1) by (auto simp: value_inv_def)
  ultimately have "Collector_Resolve G (vl_queried st) (observe_all G J R obs (newLookupCollector key now)) = (res, None)" by simp
  from accepted_value_is_supported [OF this assms(6)] obtain v src raw A where
    v: "validateLookupValue G J key raw now = Inr v" "vv_verified v" "lr_Value res = vv_raw v" "2 \<le> card A"
      "\<forall>n \<in> A. supports G J key now obs v n"
    by (elim exE conjE)
  have "\<forall>n \<in> A. \<exists>src raw' v'. answered env s key src raw' \<and> so_nodeID (fill_source src) = n \<and>
      validateLookupValue G J key raw' now = Inr v' \<and> vv_verified v' \<and> vv_family v' = vv_family v \<and> vv_fingerprint v' = vv_fingerprint v"
    using v(2,5) o(2) unfolding supports_def by fastforce
  with v show ?thesis by blast
qed

section \<open>Instances\<close>

lemma demo_self_key: "demo_self = NodeIDFromPublicKey demo_lib []"
  by code_simp

definition demo_walker :: Server where
  "demo_walker = (NewServer demo_lib demo_self)\<lparr>ds_RT := AddNode demo_lib demo_node 5 demo_table, ds_Values := [demo_key \<mapsto> demo_text 7]\<rparr>"

abbreviation demo_peers :: RoutingTable where
  "demo_peers \<equiv> AddNode demo_lib demo_node 5 demo_table"

lemma demo_peers_ok: "table_ok demo_lib demo_peers"
  by (intro AddNode_ok NewRoutingTable_ok)

lemmas demo_peers_active = AddNode_active [OF NewRoutingTable_ok demo_usable, where now = 5]

lemma demo_closest: "ClosestNodes demo_lib demo_key 4 demo_peers = [demo_node]"
proof -
  note C = ClosestNodes_spec [OF demo_peers_ok, where target = demo_key and cnt = 4]
  have "ActiveNode j demo_table = None" for j by (simp add: ActiveNode_def NewRoutingTable_def)
  then have one: "n = demo_node" if "n \<in> set (ClosestNodes demo_lib demo_key 4 demo_peers)" for n
    using C(3) that demo_peers_active(1,4) by (metis option.distinct(1) option.inject)
  obtain a where "a \<in> set (concat (Buckets demo_peers))"
    using demo_peers_active(1) unfolding active_entries [OF demo_peers_ok] by blast
  then have "concat (Buckets demo_peers) \<noteq> []" by (metis list.distinct(1) list.set_cases)
  then have "0 < ActivePeerCount demo_peers" by (simp only: ActivePeerCount_concat length_greater_0_conv not_False_eq_True)
  then have "ClosestNodes demo_lib demo_key 4 demo_peers \<noteq> []" using C(1) by (metis list.size(3) min_less_iff_conj less_numeral_extra(3) nat_numeral zero_less_numeral)
  then show ?thesis
  proof (cases "ClosestNodes demo_lib demo_key 4 demo_peers")
    case (Cons x xs)
    then show ?thesis using one C(2) by (cases xs) auto
  qed simp
qed

lemma SelfID_AddNode [simp]: "SelfID (AddNode G node now t) = SelfID t"
proof -
  have "SelfID (fst (removePendingLocked i t)) = SelfID t" for i t
    by (cases "removePendingLocked i t") (simp add: removePending_frame)
  moreover have "SelfID (upd_entry a f t) = SelfID t" "SelfID (drop_offline i t) = SelfID t" "SelfID (new_entry e t) = SelfID t"
    "SelfID (rename_entry G a n t) = SelfID t" "SelfID (insert_active G a t) = SelfID t" "SelfID (insert_name G a t) = SelfID t" for a f t i e n
    by (simp_all add: upd_entry_def drop_offline_def new_entry_def rename_entry_def insert_active_def insert_name_def Let_def)
  ultimately show ?thesis by (simp add: AddNode_def Let_def split: option.split prod.split)
qed

lemma demo_walker_ok:
  "table_ok demo_lib (ds_RT demo_walker)" "SelfID (ds_RT demo_walker) = NodeIDFromPublicKey demo_lib []"
  "limits_valid (ds_lookupLimits demo_walker)"
proof -
  show "SelfID (ds_RT demo_walker) = NodeIDFromPublicKey demo_lib []"
    by (simp add: demo_walker_def demo_self_key [symmetric]) (simp add: NewRoutingTable_def)
  show "limits_valid (ds_lookupLimits demo_walker)"
    by (simp add: demo_walker_def NewServer_def limits_valid_def defaultLookupLimits_def Let_def second_def)
qed (simp add: demo_walker_def demo_peers_ok)

theorem value_lookup_returns_witness:
  "\<exists>res err s'. RecursiveFindValueDetailed demo_lib demo_jsonlib (\<lambda>_. None) [] (\<lambda>_. 0) second (\<lambda>_ _. []) demo_key demo_walker =
     Some ((res, err), s') \<and> lr_QueriedNodes res \<le> 80"
  using value_lookup_returns [OF demo_lib_ok(1) demo_walker_ok, of demo_jsonlib "\<lambda>_. None" "[]" "\<lambda>_. 0" second "\<lambda>_ _. []" demo_key] by blast

definition demo_answers :: "nat \<Rightarrow> NodeInfo list \<Rightarrow> value_event list" where
  "demo_answers round batch = map (\<lambda>n. ValueReply n (demo_text 7) []) batch"

definition demo_collected :: lookupCollector where
  "demo_collected = Observe demo_lib demo_jsonlib (\<lambda>_. None)
     \<lparr>so_nodeID = ni_ID demo_node, so_addr = ni_Addr demo_node, so_trust = 1, so_branch = 1\<rparr> (demo_text 7)
     (Observe demo_lib demo_jsonlib (\<lambda>_. None)
       \<lparr>so_nodeID = ''local:'' @ demo_self, so_addr = [], so_trust = 3, so_branch = 0\<rparr> (demo_text 7) (newLookupCollector demo_key second))"

lemma demo_collected_ok:
  "IsConfirmed demo_collected" "\<exists>res. Collector_Resolve demo_lib q demo_collected = (res, None) \<and> lr_Verified res"
proof -
  let ?v = "own_endpoint_value demo_lib demo_identity (demo_endpoint 7) (demo_text 7) 0 (60 * second) 7"
  have v: "validateLookupValue demo_lib demo_jsonlib demo_key (demo_text 7) second = Inr ?v"
    by (rule demo_validates) (simp_all add: second_def)
  have t: "TrimSpace demo_lib (demo_text 7) \<noteq> []"
    using demo_text_ascii [of 7] by (intro TrimSpace_nonempty [of "CHR ''P''"]) (simp_all add: demo_endpoint_text_def space_char_def)
  have h: "host_ip demo_lib ''[::1]:4242'' = None" "host_ip demo_lib [] = None" by code_simp+
  have n: "ni_ID demo_node \<noteq> []" "ni_ID demo_node \<noteq> ''local:'' @ demo_self" "ni_Addr demo_node = ''[::1]:4242''"
    by (simp_all add: demo_node_def zero_node_def)
  note eval = demo_collected_def Observe_def newLookupCollector_def Let_def observed_def note_verified_def fill_source_def
      isNewerValue_irrefl addSource_def addExactSource_def newCandidateObservation_def add_key_def add_nonempty_def
      providerKey_def networkKey_def asnKey_def ResolveASNForAddr_def IsConfirmed_def confirmed_def weightFor_def
      own_endpoint_value_def verified_value_def zero_value_def onlyLoopbackNetworks_def lookupResult_def Collector_Resolve_def
  show "IsConfirmed demo_collected" "\<exists>res. Collector_Resolve demo_lib q demo_collected = (res, None) \<and> lr_Verified res"
    using v t h n by (simp_all add: eval)
qed

lemma demo_lookup:
  "\<exists>res s'. RecursiveFindValueDetailed demo_lib demo_jsonlib (\<lambda>_. None) [] (\<lambda>_. 0) second demo_answers demo_key demo_walker =
     Some ((res, None), s') \<and> lr_Verified res"
proof -
  have t: "demo_text 7 \<noteq> []" using demo_text_ascii by simp
  have w: "ds_RT demo_walker = demo_peers" "ds_Values demo_walker demo_key = Some (demo_text 7)" "lookup_limits demo_walker = defaultLookupLimits"
    by (simp_all add: demo_walker_def NewServer_def lookup_limits_def defaultLookupLimits_def)
  have self: "SelfID demo_table = demo_self" by (simp add: NewRoutingTable_def)
  have seeds: "closestForTarget demo_lib demo_key 4 demo_peers = [demo_node]"
    using demo_closest by (simp add: closestForTarget_def NodeIDKey_def HasPrefix_def)
  have batch: "closestUnqueried demo_lib [demo_node] [] demo_key 4 = [demo_node]"
    by (simp add: closestUnqueried_def sort_slice_def)
  define st where "st = (start_value_lookup demo_key second demo_peers)\<lparr>vl_known := [demo_node], vl_branchByID := [(ni_ID demo_node, 1)],
    vl_collector := Observe demo_lib demo_jsonlib (\<lambda>_. None)
       \<lparr>so_nodeID = ''local:'' @ demo_self, so_addr = [], so_trust = 3, so_branch = 0\<rparr> (demo_text 7) (newLookupCollector demo_key second)\<rparr>"
  have st: "observe_local demo_lib demo_jsonlib (\<lambda>_. None) demo_key demo_walker
      (add_value_seeds demo_lib (\<lambda>_. 0) 0 [demo_node] (start_value_lookup demo_key second demo_peers)) = st"
    using demo_peers_active(1) t by (simp add: observe_local_def w self st_def start_value_lookup_def put_node_def)
  define st2 where "st2 = st\<lparr>vl_queriedIDs := [ni_ID demo_node], vl_queried := 1, vl_collector := demo_collected\<rparr>"
  have sq: "start_value_queries demo_lib [demo_node] st = Some (st\<lparr>vl_queriedIDs := [ni_ID demo_node]\<rparr>)"
    using demo_peers_active(1) by (simp add: st_def start_value_lookup_def)
  have rc: "receive_values demo_lib demo_jsonlib (\<lambda>_. None) [(ni_ID demo_node, 1)] 1 (demo_answers 0 [demo_node])
      (st\<lparr>vl_queriedIDs := [ni_ID demo_node]\<rparr>) = (False, st2)"
    using t by (simp add: demo_answers_def st_def st2_def start_value_lookup_def drop_transient_def branch_of_def Let_def demo_collected_def)
  have "value_rounds demo_lib demo_jsonlib (\<lambda>_. None) [] demo_answers demo_key defaultLookupLimits 0 st = Some (False, st2)"
    using sq rc batch demo_collected_ok(1)
    by (subst value_rounds.simps)
      (simp add: defaultLookupLimits_def st_def start_value_lookup_def st2_def branch_of_def)
  moreover obtain res where "Collector_Resolve demo_lib 1 demo_collected = (res, None)" "lr_Verified res"
    using demo_collected_ok(2) by blast
  moreover have "ll_MaxConcurrent defaultLookupLimits = 4" by (simp add: defaultLookupLimits_def)
  ultimately show ?thesis
    unfolding RecursiveFindValueDetailed_def w Let_def by (simp only: seeds st) (simp add: settle_def st2_def)
qed

theorem found_value_is_supported_witness:
  "\<exists>res s' v A. RecursiveFindValueDetailed demo_lib demo_jsonlib (\<lambda>_. None) [] (\<lambda>_. 0) second demo_answers demo_key demo_walker =
     Some ((res, None), s') \<and> lr_Value res = vv_raw (v :: validatedValue) \<and> 2 \<le> card (A :: string set)"
proof -
  obtain res s' where r: "RecursiveFindValueDetailed demo_lib demo_jsonlib (\<lambda>_. None) [] (\<lambda>_. 0) second demo_answers demo_key demo_walker =
     Some ((res, None), s')" "lr_Verified res"
    using demo_lookup by blast
  from found_value_is_supported [OF demo_lib_ok(1) demo_walker_ok r] r(1) show ?thesis by (elim exE conjE) (intro exI conjI)
qed

end
