(* ===== verification/HiddenLookup.thy ===== *)
theory HiddenLookup
  imports Lookup Circuit "HOL-Library.Signed_Division"
begin

text \<open>
  Resolving hidden services: \<^verbatim>\<open>internal/dht/hidden_lookup.go\<close> and \<^verbatim>\<open>internal/dht/privacy_transport.go\<close>.
  The fields of the DHT server these files use form the record \<open>hidden_state\<close>. The value lookups of a
  group run in parallel: their results, in the order in which they arrive, are an argument, and so are
  the random draws. The anomaly average and its thresholds are floating-point numbers that are only
  compared, so the number of thresholds reached is an argument; the average itself is not modelled.
\<close>

section \<open>Configuration\<close>

record HiddenDescriptorPrivacyConfig =
  hc_TransportMode :: string
  hc_RelayHopCount :: int
  hc_RelayCandidates :: "EndpointRecord list option"   \<comment> \<open>what the function returns; None for a nil function\<close>
  hc_ExcludeAddrs :: "string list option"
  hc_PollInterval :: duration
  hc_CacheWindow :: duration
  hc_CoverLookups :: int
  hc_CoverInterval :: duration
  hc_PollJitter :: duration
  hc_FetchParallel :: int
  hc_FetchBatchSize :: int
  hc_DiversityAttempts :: int
  hc_MinRelayNetworkGroups :: int
  hc_MinRelayProviderGroups :: int
  hc_MinRelayASNGroups :: int
  hc_ConsensusGroups :: int
  hc_ConsensusMinMatches :: int
  hc_BucketPeriod :: duration
  hc_BucketBaseCover :: "int list"

record cachedHiddenService =
  ch_Invite :: string
  ch_LookupKey :: string
  ch_Record :: ServiceRecord
  ch_CachedAt :: time
  ch_RefreshAfter :: time
  ch_ExpiresAt :: time

record hidden_state =
  hs_hidden :: HiddenDescriptorPrivacyConfig
  hs_cache :: "string \<rightharpoonup> cachedHiddenService"
  hs_warmers :: "string set"
  hs_tracked :: "string set"
  hs_coverOn :: bool

definition positive_or :: "int \<Rightarrow> int \<Rightarrow> int" where
  "positive_or d x = (if x \<le> 0 then d else x)"

definition SetHiddenDescriptorPrivacy :: "HiddenDescriptorPrivacyConfig \<Rightarrow> hidden_state \<Rightarrow> hidden_state" where
  "SetHiddenDescriptorPrivacy cfg0 s =
     (let hops = positive_or 3 (hc_RelayHopCount cfg0);
          parallel = positive_or 2 (hc_FetchParallel cfg0);
          size0 = positive_or 6 (hc_FetchBatchSize cfg0);
          groups = positive_or 3 (hc_ConsensusGroups cfg0);
          matches = positive_or 2 (hc_ConsensusMinMatches cfg0);
          cfg = cfg0\<lparr>hc_RelayHopCount := hops,
            hc_PollInterval := positive_or (12 * second) (hc_PollInterval cfg0),
            hc_CacheWindow := positive_or (45 * second) (hc_CacheWindow cfg0),
            hc_CoverLookups := positive_or 1 (hc_CoverLookups cfg0),
            hc_CoverInterval := positive_or (18 * second) (hc_CoverInterval cfg0),
            hc_PollJitter := positive_or (3 * second) (hc_PollJitter cfg0),
            hc_FetchParallel := parallel,
            hc_FetchBatchSize := (if size0 < parallel then parallel else size0),
            hc_DiversityAttempts := positive_or 4 (hc_DiversityAttempts cfg0),
            hc_MinRelayNetworkGroups := positive_or (min hops 3) (hc_MinRelayNetworkGroups cfg0),
            hc_MinRelayProviderGroups := positive_or (min hops 2) (hc_MinRelayProviderGroups cfg0),
            hc_MinRelayASNGroups := max 0 (hc_MinRelayASNGroups cfg0),
            hc_ConsensusGroups := groups,
            hc_ConsensusMinMatches := (if matches > groups then groups else matches),
            hc_BucketPeriod := positive_or (10 * minute) (hc_BucketPeriod cfg0),
            hc_BucketBaseCover := (if hc_BucketBaseCover cfg0 = [] then [1, 2, 1, 3, 2, 1] else hc_BucketBaseCover cfg0)\<rparr>
      in s\<lparr>hs_hidden := cfg, hs_coverOn := True\<rparr>)"

section \<open>Batches of lookup keys\<close>

text \<open>\<^verbatim>\<open>randomHiddenDescriptorCoverKey\<close> from its 20 random bytes; \<open>None\<close> when reading them fails.\<close>

definition randomHiddenDescriptorCoverKey :: "time \<Rightarrow> bytes option \<Rightarrow> time \<Rightarrow> string option" where
  "randomHiddenDescriptorCoverKey clock raw now =
     map_option (\<lambda>raw. ''hidden-desc/v1/'' @ FormatInt (hiddenDescriptorEpoch clock now) @ ''/'' @ b64_encode RawURLEncoding raw) raw"

fun add_cover :: "time \<Rightarrow> (nat \<Rightarrow> bytes option) \<Rightarrow> time \<Rightarrow> nat \<Rightarrow> nat \<Rightarrow> string list" where
  "add_cover clock draw now i 0 = []"
| "add_cover clock draw now i (Suc n) =
     (case randomHiddenDescriptorCoverKey clock (draw i) now of
        None \<Rightarrow> []
      | Some key \<Rightarrow> key # add_cover clock draw now (Suc i) n)"

definition buildHiddenLookupBatch :: "time \<Rightarrow> (nat \<Rightarrow> bytes option) \<Rightarrow> string list \<Rightarrow> time \<Rightarrow> int \<Rightarrow> int \<Rightarrow> string list" where
  "buildHiddenLookupBatch clock draw realKeys now parallel0 batchSize0 =
     (let parallel = positive_or 2 parallel0;
          size0 = positive_or 6 batchSize0;
          minBatch = int (length realKeys) * parallel;
          batchSize = (if size0 < minBatch then minBatch else size0);
          real = concat (map (\<lambda>key. replicate (nat parallel) key) realKeys)
      in real @ add_cover clock draw now 0 (nat batchSize - length real))"

section \<open>One group of lookups\<close>

definition hiddenDescriptorConsensusFingerprint :: "golib \<Rightarrow> ServiceRecord \<Rightarrow> string" where
  "hiddenDescriptorConsensusFingerprint G rec = b64_encode RawURLEncoding (take 16 (sha256 G (bytes_of
     (concat (map (\<lambda>f. f @ [CHR 0x0A]) [sv_NodeID rec, sv_NodeName rec, sv_ServiceName rec, sv_Alias rec, sv_PublicKey rec,
        sv_IssuedAt rec, sv_ExpiresAt rec, sv_Signature rec])))))"

record hiddenDescriptorCandidate =
  hk_record :: ServiceRecord
  hk_key :: string

datatype hidden_error =
    HiddenLookupFailed lookup_error
  | HiddenDecode value_error
  | HiddenNoConsensus nat int
  | HiddenNotFound

record fetchResult =
  fr_key :: string
  fr_val :: "lookup_error + string"

text \<open>The map of candidates is a list in the order of insertion. \<^verbatim>\<open>None\<close> is the panic of decoding a value.\<close>

fun collect_group ::
  "golib \<Rightarrow> jsonlib \<Rightarrow> aadlib \<Rightarrow> string \<Rightarrow> time \<Rightarrow> string list \<Rightarrow> fetchResult list \<Rightarrow>
     (string \<times> hiddenDescriptorCandidate) list \<times> hidden_error option \<Rightarrow>
     ((string \<times> hiddenDescriptorCandidate) list \<times> hidden_error option) option" where
  "collect_group G J A lookup now realKeys [] acc = Some acc"
| "collect_group G J A lookup now realKeys (r # rs) (out, lastErr) =
     (if fr_key r \<notin> set realKeys then collect_group G J A lookup now realKeys rs (out, lastErr)
      else case fr_val r of
          Inl e \<Rightarrow> collect_group G J A lookup now realKeys rs (out, Some (HiddenLookupFailed e))
        | Inr val \<Rightarrow>
            if val = [] then collect_group G J A lookup now realKeys rs (out, lastErr)
            else (case DecodeHiddenServiceRecord G J A (fr_key r) val lookup now of
                None \<Rightarrow> None
              | Some (Inl e) \<Rightarrow> collect_group G J A lookup now realKeys rs (out, Some (HiddenDecode e))
              | Some (Inr rec) \<Rightarrow>
                  let fp = hiddenDescriptorConsensusFingerprint G rec in
                  collect_group G J A lookup now realKeys rs
                    (if map_of out fp = None then out @ [(fp, \<lparr>hk_record = rec, hk_key = fr_key r\<rparr>)] else out, lastErr)))"

definition fetchHiddenDescriptorGroup ::
  "golib \<Rightarrow> jsonlib \<Rightarrow> aadlib \<Rightarrow> string \<Rightarrow> time \<Rightarrow> string list \<Rightarrow> fetchResult list \<Rightarrow>
     ((string \<times> hiddenDescriptorCandidate) list \<times> hidden_error option) option" where
  "fetchHiddenDescriptorGroup G J A lookup now realKeys results = collect_group G J A lookup now realKeys results ([], None)"

section \<open>Consensus\<close>

record consensusRecord =
  cr_record :: ServiceRecord
  cr_key :: string
  cr_groups :: "nat list"

definition consensus_limits :: "HiddenDescriptorPrivacyConfig \<Rightarrow> int \<times> int" where
  "consensus_limits cfg =
     (let groups = positive_or 3 (hc_ConsensusGroups cfg); minMatches = positive_or 2 (hc_ConsensusMinMatches cfg)
      in (groups, if minMatches > groups then groups else minMatches))"

text \<open>The candidates of one group: the first that reaches the required number of groups is the answer.\<close>

fun tally ::
  "int \<Rightarrow> nat \<Rightarrow> (string \<times> hiddenDescriptorCandidate) list \<Rightarrow> (string \<times> consensusRecord) list \<Rightarrow>
     (ServiceRecord \<times> string) + (string \<times> consensusRecord) list" where
  "tally minMatches grp [] seen = Inr seen"
| "tally minMatches grp ((fp, c) # cs) seen =
     (let entry0 = (case map_of seen fp of Some e \<Rightarrow> e | None \<Rightarrow> \<lparr>cr_record = hk_record c, cr_key = hk_key c, cr_groups = []\<rparr>);
          entry = entry0\<lparr>cr_groups := add_key grp (cr_groups entry0)\<rparr>
      in if int (length (cr_groups entry)) \<ge> minMatches then Inl (cr_record entry, cr_key entry)
         else tally minMatches grp cs (AList.update fp entry seen))"

text \<open>
  The groups that are left, each with the results its lookups return. Go ranges over the candidates of a
  group in an arbitrary order: \<open>order\<close> permutes them.
\<close>

fun run_groups ::
  "golib \<Rightarrow> jsonlib \<Rightarrow> aadlib \<Rightarrow> string \<Rightarrow> time \<Rightarrow> string list \<Rightarrow> int \<Rightarrow>
     (nat \<Rightarrow> (string \<times> hiddenDescriptorCandidate) list \<Rightarrow> (string \<times> hiddenDescriptorCandidate) list) \<Rightarrow> (nat \<Rightarrow> fetchResult list) \<Rightarrow>
     nat \<Rightarrow> nat \<Rightarrow> (string \<times> consensusRecord) list \<Rightarrow> hidden_error option \<Rightarrow> (hidden_error + (ServiceRecord \<times> string)) option" where
  "run_groups G J A lookup now keys minMatches order fetch grp 0 seen lastErr =
     Some (Inl (if seen \<noteq> [] then HiddenNoConsensus (Max (set (map (\<lambda>(_, e). length (cr_groups e)) seen))) minMatches
                else case lastErr of None \<Rightarrow> HiddenNotFound | Some e \<Rightarrow> e))"
| "run_groups G J A lookup now keys minMatches order fetch grp (Suc left) seen lastErr =
     (case fetchHiddenDescriptorGroup G J A lookup now keys (fetch grp) of
        None \<Rightarrow> None
      | Some (candidates, err) \<Rightarrow>
          (case tally minMatches grp (order grp candidates) seen of
             Inl r \<Rightarrow> Some (Inr r)
           | Inr seen' \<Rightarrow> run_groups G J A lookup now keys minMatches order fetch (Suc grp) left seen'
               (case err of None \<Rightarrow> lastErr | Some e \<Rightarrow> Some e)))"

definition swap_keys :: "bool \<Rightarrow> string list \<Rightarrow> string list" where
  "swap_keys coin keys = (case keys of k0 # k1 # ks \<Rightarrow> if coin then k1 # k0 # ks else keys | _ \<Rightarrow> keys)"

definition refreshHiddenServiceNetwork ::
  "golib \<Rightarrow> jsonlib \<Rightarrow> aadlib \<Rightarrow> time \<Rightarrow> bool \<Rightarrow>
     (nat \<Rightarrow> (string \<times> hiddenDescriptorCandidate) list \<Rightarrow> (string \<times> hiddenDescriptorCandidate) list) \<Rightarrow> (nat \<Rightarrow> fetchResult list) \<Rightarrow>
     string \<Rightarrow> time \<Rightarrow> hidden_state \<Rightarrow> (hidden_error + (ServiceRecord \<times> string)) option" where
  "refreshHiddenServiceNetwork G J A clock coin order fetch lookup now s =
     (let keys = swap_keys coin (HiddenServiceLookupKeys G clock lookup now);
          (groups, minMatches) = consensus_limits (hs_hidden s)
      in run_groups G J A lookup now keys minMatches order fetch 0 (nat groups) [] None)"

section \<open>The cache\<close>

definition entry_current :: "time \<Rightarrow> cachedHiddenService \<Rightarrow> bool" where
  "entry_current now e \<longleftrightarrow> \<not> (\<not> IsZero (ch_ExpiresAt e) \<and> \<not> ch_ExpiresAt e > now)"

definition lookupHiddenServiceCache :: "string \<Rightarrow> time \<Rightarrow> hidden_state \<Rightarrow> cachedHiddenService option" where
  "lookupHiddenServiceCache lookup now s = (case hs_cache s lookup of
     None \<Rightarrow> None
   | Some e \<Rightarrow> if \<not> entry_current now e then None else if ch_RefreshAfter e > now then Some e else None)"

definition lookupStaleHiddenServiceCache :: "string \<Rightarrow> time \<Rightarrow> hidden_state \<Rightarrow> cachedHiddenService option" where
  "lookupStaleHiddenServiceCache lookup now s = (case hs_cache s lookup of
     None \<Rightarrow> None
   | Some e \<Rightarrow> if \<not> entry_current now e then None else Some e)"

definition storeHiddenServiceCache :: "golib \<Rightarrow> string \<Rightarrow> string \<Rightarrow> ServiceRecord \<Rightarrow> time \<Rightarrow> hidden_state \<Rightarrow> hidden_state" where
  "storeHiddenServiceCache G lookup key rec now s =
     (let window = (if hc_CacheWindow (hs_hidden s) > 0 then hc_CacheWindow (hs_hidden s) else 45 * second);
          expiresAt0 = now + window;
          expiresAt = (case rfc3339_parse G (sv_ExpiresAt rec) of
              None \<Rightarrow> expiresAt0
            | Some recExpiry \<Rightarrow> if recExpiry < expiresAt0 then recExpiry else expiresAt0)
      in s\<lparr>hs_cache := (hs_cache s)(lookup \<mapsto> \<lparr>ch_Invite = lookup, ch_LookupKey = key, ch_Record = rec, ch_CachedAt = now,
             ch_RefreshAfter = now + window div 2, ch_ExpiresAt = expiresAt\<rparr>)\<rparr>)"

text \<open>Starting a warmer; its polls are steps of their own.\<close>

definition startHiddenDescriptorWarmer :: "string \<Rightarrow> hidden_state \<Rightarrow> hidden_state" where
  "startHiddenDescriptorWarmer lookup s =
     (if lookup \<in> hs_warmers s then s
      else if hc_PollInterval (hs_hidden s) \<le> 0 \<or> hc_CacheWindow (hs_hidden s) \<le> 0 then s
      else s\<lparr>hs_warmers := insert lookup (hs_warmers s)\<rparr>)"

definition warmer_stops :: "string \<Rightarrow> hidden_state \<Rightarrow> hidden_state" where
  "warmer_stops lookup s = s\<lparr>hs_warmers := hs_warmers s - {lookup}\<rparr>"

definition TrackHiddenLookupInvite :: "string \<Rightarrow> hidden_state \<Rightarrow> hidden_state" where
  "TrackHiddenLookupInvite invite s =
     (if invite = [] then s
      else startHiddenDescriptorWarmer invite (s\<lparr>hs_tracked := insert invite (hs_tracked s)\<rparr>))"

text \<open>A poll of a warmer or of the cover worker, with the result of its refresh.\<close>

definition poll :: "golib \<Rightarrow> string \<Rightarrow> hidden_error + (ServiceRecord \<times> string) \<Rightarrow> time \<Rightarrow> hidden_state \<Rightarrow> hidden_state" where
  "poll G lookup r now s = (case r of Inl _ \<Rightarrow> s | Inr (rec, key) \<Rightarrow> storeHiddenServiceCache G lookup key rec now s)"

definition ResolveHiddenService ::
  "golib \<Rightarrow> jsonlib \<Rightarrow> aadlib \<Rightarrow> time \<Rightarrow> bool \<Rightarrow>
     (nat \<Rightarrow> (string \<times> hiddenDescriptorCandidate) list \<Rightarrow> (string \<times> hiddenDescriptorCandidate) list) \<Rightarrow> (nat \<Rightarrow> fetchResult list) \<Rightarrow>
     string \<Rightarrow> time \<Rightarrow> hidden_state \<Rightarrow> ((hidden_error + ServiceRecord) \<times> hidden_state) option" where
  "ResolveHiddenService G J A clock coin order fetch lookup now0 s =
     (let now = (if IsZero now0 then clock else now0) in
      case lookupHiddenServiceCache lookup now s of
        Some cached \<Rightarrow> Some (Inr (ch_Record cached), startHiddenDescriptorWarmer lookup s)
      | None \<Rightarrow>
          (case refreshHiddenServiceNetwork G J A clock coin order fetch lookup now s of
             None \<Rightarrow> None
           | Some (Inl err) \<Rightarrow>
               (case lookupStaleHiddenServiceCache lookup now s of
                  Some stale \<Rightarrow> Some (Inr (ch_Record stale), startHiddenDescriptorWarmer lookup s)
                | None \<Rightarrow> Some (Inl err, s))
           | Some (Inr (rec, key)) \<Rightarrow>
               Some (Inr rec, startHiddenDescriptorWarmer lookup (storeHiddenServiceCache G lookup key rec now s))))"

section \<open>Cover traffic\<close>

text \<open>\<^verbatim>\<open>slotDur/time.Second\<close> may be zero; the division by it panics, which is \<^verbatim>\<open>None\<close>.\<close>

definition scheduleBucketCover :: "HiddenDescriptorPrivacyConfig \<Rightarrow> time \<Rightarrow> int option" where
  "scheduleBucketCover cfg now =
     (if hc_BucketBaseCover cfg = [] then Some 0
      else let period = positive_or (10 * minute) (hc_BucketPeriod cfg);
               steps = int (length (hc_BucketBaseCover cfg));
               slotDur = positive_or minute (period div steps)
        in if slotDur div second = 0 then None
           else let idx0 = (Unix now sdiv (slotDur div second)) smod steps;
                    idx = (if idx0 < 0 then idx0 + steps else idx0);
                    cover = hc_BucketBaseCover cfg ! nat idx
                in Some (if cover < 0 then 0 else cover))"

text \<open>\<open>reached\<close> is the number of anomaly thresholds the average has reached.\<close>

definition effectiveCoverLookupCount :: "HiddenDescriptorPrivacyConfig \<Rightarrow> time \<Rightarrow> nat \<Rightarrow> int option" where
  "effectiveCoverLookupCount cfg now reached =
     map_option (\<lambda>cover. (positive_or 1 (hc_CoverLookups cfg) + cover) * (1 + int reached)) (scheduleBucketCover cfg now)"

text \<open>\<open>draw\<close> is the result of \<^verbatim>\<open>rand.Int63n(2 * jitter + 1)\<close>.\<close>

definition jitterDuration :: "int \<Rightarrow> duration \<Rightarrow> duration \<Rightarrow> duration" where
  "jitterDuration draw base0 jitter =
     (let base = positive_or second base0 in
      if jitter \<le> 0 then base
      else let out = base + (draw - jitter) in if out < second then second else out)"

section \<open>Anonymous transport\<close>

fun drop_seen_nodes :: "string set \<Rightarrow> string set \<Rightarrow> EndpointRecord list \<Rightarrow> EndpointRecord list" where
  "drop_seen_nodes addrs ids [] = []"
| "drop_seen_nodes addrs ids (rec # recs) =
     (if er_NodeID rec = [] \<or> er_Address rec = [] \<or> er_PublicKey rec = [] then drop_seen_nodes addrs ids recs
      else if er_Address rec \<in> addrs then drop_seen_nodes addrs ids recs
      else if er_NodeID rec \<in> ids then drop_seen_nodes addrs ids recs
      else rec # drop_seen_nodes addrs (insert (er_NodeID rec) ids) recs)"

definition filterRelayCandidates :: "EndpointRecord list \<Rightarrow> string list \<Rightarrow> EndpointRecord list" where
  "filterRelayCandidates nodes excludeAddrs =
     sort_key er_NodeID (drop_seen_nodes (set (filter (\<lambda>a. a \<noteq> []) excludeAddrs)) {} nodes)"

definition addr_source :: "string \<Rightarrow> sourceObservation" where
  "addr_source addr = \<lparr>so_nodeID = [], so_addr = addr, so_trust = 0, so_branch = 0\<rparr>"

definition circuitRelayDiversity :: "golib \<Rightarrow> asn_resolver \<Rightarrow> EndpointRecord list \<Rightarrow> nat \<times> nat \<times> nat" where
  "circuitRelayDiversity G R relays =
     (let srcs = map (\<lambda>r. addr_source (er_Address r)) relays;
          groups = (\<lambda>key. card (set (map key srcs) - {[]}))
      in (groups (networkKey G), groups (providerKey G), groups (asnKey G R)))"

datatype plan_error = PlanFailed onion_error | DiversityBelowThreshold | NotEnoughRelays string | NoPlan

record plan_search =
  ps_best :: "CircuitPlan option"
  ps_score :: int
  ps_err :: "plan_error option"

text \<open>The attempts that are left; attempt \<open>i\<close> draws \<open>shuffle i\<close> and \<open>rnd i\<close>.\<close>

fun try_plans ::
  "golib \<Rightarrow> asn_resolver \<Rightarrow> (nat \<Rightarrow> EndpointRecord list \<Rightarrow> EndpointRecord list) \<Rightarrow> (nat \<Rightarrow> bytes) \<Rightarrow> HiddenDescriptorPrivacyConfig \<Rightarrow>
     ServiceRecord \<Rightarrow> EndpointRecord list \<Rightarrow> int \<Rightarrow> string list \<Rightarrow> nat \<Rightarrow> nat \<Rightarrow> plan_search \<Rightarrow> plan_search" where
  "try_plans G R shuffle rnd cfg svc relays hopCount exclude attempt 0 st = st"
| "try_plans G R shuffle rnd cfg svc relays hopCount exclude attempt (Suc left) st =
     (case PlanAutomatedCircuit 0 (shuffle attempt) (rnd attempt) svc relays hopCount exclude of
        Inl e \<Rightarrow> try_plans G R shuffle rnd cfg svc relays hopCount exclude (Suc attempt) left (st\<lparr>ps_err := Some (PlanFailed e)\<rparr>)
      | Inr plan \<Rightarrow>
          (case circuitRelayDiversity G R (cp_Relays plan) of (networkGroups, providerGroups, asnGroups) \<Rightarrow>
           let score = int networkGroups * 100 + int providerGroups * 10 + int asnGroups;
               st1 = (if score > ps_score st then st\<lparr>ps_score := score, ps_best := Some plan\<rparr> else st)
           in if int networkGroups \<ge> hc_MinRelayNetworkGroups cfg \<and> int providerGroups \<ge> hc_MinRelayProviderGroups cfg \<and>
                (int asnGroups \<ge> hc_MinRelayASNGroups cfg \<or> hc_MinRelayASNGroups cfg = 0)
              then st1\<lparr>ps_best := Some plan, ps_err := None\<rparr>
              else try_plans G R shuffle rnd cfg svc relays hopCount exclude (Suc attempt) left
                     (st1\<lparr>ps_err := Some DiversityBelowThreshold\<rparr>)))"

definition target_service :: "string \<Rightarrow> ServiceRecord" where
  "target_service addr = \<lparr>sv_NodeID = [], sv_NodeName = [], sv_ServiceName = [], sv_Alias = [], sv_Address = addr, sv_IsHidden = False,
     sv_IsPrivate = False, sv_HiddenProfile = [], sv_IntroPoints = [], sv_StandbyIntroPoints = [], sv_PublicKey = [], sv_IssuedAt = [],
     sv_ExpiresAt = [], sv_Signature = []\<rparr>"

text \<open>
  \<^verbatim>\<open>dialHiddenDescriptorConn\<close> up to the dial of the planned circuit. \<^verbatim>\<open>None\<close> is a connection that is not
  handled here and is dialled directly.
\<close>

definition dialHiddenDescriptorConn ::
  "golib \<Rightarrow> asn_resolver \<Rightarrow> (nat \<Rightarrow> EndpointRecord list \<Rightarrow> EndpointRecord list) \<Rightarrow> (nat \<Rightarrow> bytes) \<Rightarrow> string \<Rightarrow> string \<Rightarrow> string \<Rightarrow>
     hidden_state \<Rightarrow> (plan_error + CircuitPlan) option" where
  "dialHiddenDescriptorConn G R shuffle rnd targetAddr key action s =
     (if \<not> stringsHasHiddenDescriptorKey key then None
      else let cfg = hs_hidden s in
        case hc_RelayCandidates cfg of None \<Rightarrow> None
        | Some candidates \<Rightarrow>
            let hopCount = positive_or 3 (hc_RelayHopCount cfg);
                exclude = targetAddr # (case hc_ExcludeAddrs cfg of None \<Rightarrow> [] | Some addrs \<Rightarrow> addrs);
                relays = filterRelayCandidates candidates exclude
            in Some (if int (length relays) < hopCount then Inl (NotEnoughRelays action)
               else let st = try_plans G R shuffle rnd cfg (target_service targetAddr) relays hopCount exclude 0
                         (nat (hc_DiversityAttempts cfg)) \<lparr>ps_best = None, ps_score = -1, ps_err = None\<rparr>
                 in case (case ps_best st of Some p \<Rightarrow> if cp_Relays p = [] then None else Some p | None \<Rightarrow> None) of
                      None \<Rightarrow> Inl (case ps_err st of Some e \<Rightarrow> e | None \<Rightarrow> NoPlan)
                    | Some plan \<Rightarrow> Inr (plan\<lparr>cp_Purpose := ''dht-hidden-desc-'' @ action\<rparr>)))"

end
