(* ===== verification/DescriptorFacts.thy ===== *)
theory DescriptorFacts
  imports StoreFacts
begin

text \<open>
  Hidden service descriptors: what is published is found under the keys a client derives from the
  invite and decodes to the published record; and what an outsider can do to a stored descriptor.
\<close>

section \<open>Padding\<close>

lemma pad_target_ge: "len \<le> pad_target len target"
proof (induction len target rule: pad_target.induct)
  case (1 len target)
  then show ?case by (subst pad_target.simps) auto
qed

lemma pad_target_steps:
  "\<exists>k. pad_target len target = target + 256 * k \<and> (k > 0 \<longrightarrow> target + 256 * (k - 1) < len)"
proof (induction len target rule: pad_target.induct)
  case (1 len target)
  show ?case
  proof (cases "len > target")
    case True
    from 1 [OF True] obtain k where "pad_target len (target + 256) = target + 256 + 256 * k"
      "k > 0 \<longrightarrow> target + 256 + 256 * (k - 1) < len" by blast
    then show ?thesis using True
      by (subst pad_target.simps, intro exI [of _ "Suc k"]) (cases k; auto)
  next
    case False
    then show ?thesis by (subst pad_target.simps) (auto intro: exI [of _ 0])
  qed
qed

lemma marshalHiddenDescriptorPayload_ok:
  assumes "payload_json_ok J" "list_all is_ascii (sv_strings rec)"
  defines "len \<equiv> length (js_marshal_payload J \<lparr>hp_Record = rec, hp_Padding = []\<rparr>)"
  shows "\<exists>pad. js_payload J (marshalHiddenDescriptorPayload J rec) = Some \<lparr>hp_Record = rec, hp_Padding = pad\<rparr>"
    and "length (marshalHiddenDescriptorPayload J rec) = pad_target len 1024"
proof -
  let ?m = "\<lambda>n. js_marshal_payload J \<lparr>hp_Record = rec, hp_Padding = replicate n (CHR ''x'')\<rparr>"
  define n where "n = pad_target len 1024 - len"
  have j: "js_payload J (?m n) = Some \<lparr>hp_Record = rec, hp_Padding = replicate n (CHR ''x'')\<rparr>"
    "length (?m n) = len + n"
    using assms(1,2) by (auto simp: payload_json_ok_def Let_def len_def)
  have "len + n = pad_target len 1024" using pad_target_ge [of len 1024] by (simp add: n_def)
  then have "marshalHiddenDescriptorPayload J rec = ?m n"
    using j(2) by (simp add: marshalHiddenDescriptorPayload_def Let_def len_def [symmetric] n_def [symmetric])
  then show "\<exists>pad. js_payload J (marshalHiddenDescriptorPayload J rec) = Some \<lparr>hp_Record = rec, hp_Padding = pad\<rparr>"
    "length (marshalHiddenDescriptorPayload J rec) = pad_target len 1024"
    using j \<open>len + n = pad_target len 1024\<close> by simp_all
qed

section \<open>Encoding and decoding\<close>

lemma extract_plain_descriptor:
  assumes "descriptor_json_ok J" "list_all is_ascii (hd_fields d)"
  shows "extractHiddenDescriptor G J key (js_marshal_descriptor J d) now = parseHiddenDescriptor G J (js_marshal_descriptor J d)"
    and "maybeDecodeEnvelope J (js_marshal_descriptor J d) = Inr None"
proof -
  show "maybeDecodeEnvelope J (js_marshal_descriptor J d) = Inr None"
    using assms by (simp add: maybeDecodeEnvelope_def descriptor_json_ok_def)
  then show "extractHiddenDescriptor G J key (js_marshal_descriptor J d) now = parseHiddenDescriptor G J (js_marshal_descriptor J d)"
    by (simp add: extractHiddenDescriptor_def extractLookupPayload_def)
qed

lemma parse_marshalled_descriptor:
  assumes "descriptor_json_ok J" "list_all is_ascii (hd_fields d)" "list_all (\<lambda>s. s \<noteq> []) (hd_fields d)"
    and "rfc3339_parse G (hd_IssuedAt d) \<noteq> None" "rfc3339_parse G (hd_ExpiresAt d) \<noteq> None"
    and "b64_decode RawURLEncoding (hd_Nonce d) \<noteq> None" "b64_decode RawURLEncoding (hd_Ciphertext d) \<noteq> None"
  shows "parseHiddenDescriptor G J (js_marshal_descriptor J d) = Inr d"
  using assms by (auto simp: parseHiddenDescriptor_def descriptor_json_ok_def hd_fields_def)

lemma verified_service_fields:
  assumes "VerifyServiceRecord G rec now = Inr ()"
  shows "sv_NodeID rec \<noteq> []" "sv_ServiceName rec \<noteq> []"
    "rfc3339_parse G (sv_IssuedAt rec) \<noteq> None" "rfc3339_parse G (sv_ExpiresAt rec) \<noteq> None"
  using assms by (auto simp: VerifyServiceRecord_iff verify_service_shape_def split: if_splits)

text \<open>
  A hidden descriptor round-trips. The record of a hidden service, encrypted for a lookup key and
  a secret, is decoded from that key with the invite that carries the alias and the secret, and is
  the published record.
\<close>

lemma descriptor_decodes:
  assumes laws: "sha256_ok G" "descriptor_json_ok J" "payload_json_ok J" "aad_ok A"
    and rec: "VerifyServiceRecord G rec now = Inr ()" "list_all is_ascii (sv_strings rec)"
      "sv_IssuedAt rec \<noteq> []" "sv_ExpiresAt rec \<noteq> []"
    and enc: "EncodeHiddenServiceDescriptor G J A nonce rec lookupKey secret = Inr w" "length nonce = 12"
    and inv: "ParseHiddenLookupRef G invite = Inr \<lparr>hr_Alias = sv_Alias rec, hr_Secret = secret\<rparr>"
  shows "DecodeHiddenServiceRecord G J A lookupKey w invite now = Some (Inr rec)"
proof -
  obtain epoch where ep: "parseHiddenDescriptorEpoch lookupKey = Inr epoch" and hid: "sv_IsHidden rec"
    using enc(1) by (auto simp: EncodeHiddenServiceDescriptor_def split: if_splits sum.splits)
  define aad where "aad = hiddenDescriptorAAD lookupKey (hiddenServiceTag G rec) (sv_NodeID rec)"
  define k where "k = hiddenDescriptorCipherKey G (sv_Alias rec) secret epoch"
  define c where "c = gcm_seal_aad A k nonce (marshalHiddenDescriptorPayload J rec) aad"
  define d where "d = \<lparr>hd_NodeID = sv_NodeID rec, hd_ServiceTag = hiddenServiceTag G rec, hd_IssuedAt = sv_IssuedAt rec,
    hd_ExpiresAt = sv_ExpiresAt rec, hd_Nonce = b64_encode RawURLEncoding nonce, hd_Ciphertext = b64_encode RawURLEncoding c\<rparr>"
  note f = verified_service_fields [OF rec(1)]
  have w: "w = js_marshal_descriptor J d"
    using enc(1) ep by (simp add: EncodeHiddenServiceDescriptor_def d_def c_def k_def aad_def Let_def split: if_splits)
  have ascii: "list_all is_ascii (hd_fields d)"
    using rec(2) by (simp add: hd_fields_def d_def sv_strings_def hiddenServiceTag_def)
  have c: "gcm_open_aad A k nonce c aad = Some (marshalHiddenDescriptorPayload J rec)" "c \<noteq> []"
    using laws(4) enc(2) by (auto simp: aad_ok_def c_def) (metis add_is_0 length_0_conv zero_neq_numeral)
  have "sha256 G m \<noteq> []" for m using laws(1) by (auto simp: sha256_ok_def) (metis length_0_conv zero_neq_numeral)
  then have ne: "list_all (\<lambda>s. s \<noteq> []) (hd_fields d)"
    using f rec(3,4) enc(2) c(2) by (auto simp: hd_fields_def d_def hiddenServiceTag_def)
  have ex: "extractHiddenDescriptor G J lookupKey w now = Inr d"
    unfolding w extract_plain_descriptor(1) [OF laws(2) ascii]
    using f by (intro parse_marshalled_descriptor [OF laws(2) ascii ne]) (simp_all add: d_def)
  obtain pad where "js_payload J (marshalHiddenDescriptorPayload J rec) = Some \<lparr>hp_Record = rec, hp_Padding = pad\<rparr>"
    using marshalHiddenDescriptorPayload_ok(1) [OF laws(3) rec(2)] by blast
  then have "check_decrypted G J d \<lparr>hr_Alias = sv_Alias rec, hr_Secret = secret\<rparr> (marshalHiddenDescriptorPayload J rec) now = Inr rec"
    using f rec(1) hid by (simp add: check_decrypted_def decodeHiddenDescriptorPayload_def d_def)
  then show ?thesis
    using ex inv ep c(1) enc(2) by (simp add: DecodeHiddenServiceRecord_def d_def k_def aad_def)
qed

section \<open>What an outsider can do\<close>

lemma descriptor_branch:
  "HasPrefix key ''hidden-desc/v1/'' \<Longrightarrow> validateInnerLookupValue G J key raw now = validate_descriptor G J key raw now"
  by (auto simp: HasPrefix_iff [of key "''hidden-desc/v1/''"] validateInnerLookupValue_def) (simp_all add: HasPrefix_def)

lemma descriptor_key_facts:
  assumes "HasPrefix key ''hidden-desc/v1/''"
  shows "signed_key key" "isTrustedLookupKey key"
  using assms by (auto simp: signed_key_def isTrustedLookupKey_def)

lemma validate_descriptor_ok:
  assumes "parseHiddenDescriptorEpoch key = Inr epoch" "parseHiddenDescriptor G J raw = Inr d"
    and "rfc3339_parse G (hd_IssuedAt d) = Some i" "rfc3339_parse G (hd_ExpiresAt d) = Some e"
  shows "validate_descriptor G J key raw now = Inr (verified_value raw (''hidden:'' @ hd_NodeID d @ '':'' @ hd_ServiceTag d)
     (hiddenDescriptorFingerprint G d) (i, e, word_of_int (Unix i)) (hd_NodeID d))"
  using assms by (simp add: validate_descriptor_def recordTimes_def)

text \<open>A descriptor made from the public fields of a stored one, with no key and a nonce of one byte.\<close>

definition forged_descriptor :: "golib \<Rightarrow> HiddenDescriptor \<Rightarrow> time \<Rightarrow> HiddenDescriptor" where
  "forged_descriptor G d t = d\<lparr>hd_IssuedAt := rfc3339_format G t, hd_ExpiresAt := rfc3339_format G (t + hour),
     hd_Nonce := b64_encode RawURLEncoding [0], hd_Ciphertext := b64_encode RawURLEncoding [0]\<rparr>"

lemma unix_word_less:
  assumes "0 \<le> Unix s" "Unix s < Unix t" "Unix t < 2 ^ 63"
  shows "(word_of_int (Unix s) :: u64) < word_of_int (Unix t)"
  using assms by (simp add: word_less_def word_of_int_inverse unsigned_of_int take_bit_int_eq_self)

lemma forged_descriptor_validates:
  assumes laws: "descriptor_json_ok J" "rfc3339_ok G" "rfc3339_ascii G"
    and key: "HasPrefix key ''hidden-desc/v1/''" "parseHiddenDescriptorEpoch key = Inr epoch"
    and d: "is_ascii (hd_NodeID d)" "is_ascii (hd_ServiceTag d)" "hd_NodeID d \<noteq> []" "hd_ServiceTag d \<noteq> []"
    and t: "0 \<le> t" "t + hour < rfc3339_end" "t mod second = 0"
  defines "f \<equiv> forged_descriptor G d t"
  shows "parseHiddenDescriptor G J (js_marshal_descriptor J f) = Inr f"
    and "maybeDecodeEnvelope J (js_marshal_descriptor J f) = Inr None"
    and "validateLookupValue G J key (js_marshal_descriptor J f) now = Inr (verified_value (js_marshal_descriptor J f)
      (''hidden:'' @ hd_NodeID d @ '':'' @ hd_ServiceTag d) (hiddenDescriptorFingerprint G f) (t, t + hour, word_of_int (Unix t)) (hd_NodeID d))"
proof -
  have te: "(t + hour) mod second = 0" "0 \<le> t + hour" "t < rfc3339_end"
    using t by (auto simp: hour_def minute_def second_def)
  note p = rfc3339_whole [OF laws(2) t(1) te(3) t(3)] rfc3339_whole [OF laws(2) te(2) t(2) te(1)]
  have ascii: "list_all is_ascii (hd_fields f)"
    using d laws(3) by (simp add: f_def forged_descriptor_def hd_fields_def rfc3339_ascii_def del: b64_encode.simps)
  show pd: "parseHiddenDescriptor G J (js_marshal_descriptor J f) = Inr f"
    using d p by (intro parse_marshalled_descriptor [OF laws(1) ascii]) (simp_all add: f_def forged_descriptor_def hd_fields_def del: b64_encode.simps)
  show m: "maybeDecodeEnvelope J (js_marshal_descriptor J f) = Inr None"
    by (rule extract_plain_descriptor(2) [OF laws(1) ascii])
  have times: "rfc3339_parse G (hd_IssuedAt f) = Some t" "rfc3339_parse G (hd_ExpiresAt f) = Some (t + hour)"
    and same: "hd_NodeID f = hd_NodeID d" "hd_ServiceTag f = hd_ServiceTag d"
    using p by (simp_all add: f_def forged_descriptor_def)
  show "validateLookupValue G J key (js_marshal_descriptor J f) now = Inr (verified_value (js_marshal_descriptor J f)
      (''hidden:'' @ hd_NodeID d @ '':'' @ hd_ServiceTag d) (hiddenDescriptorFingerprint G f) (t, t + hour, word_of_int (Unix t)) (hd_NodeID d))"
    using validate_descriptor_ok [OF key(2) pd times, of now] by (simp add: validateLookupValue_def m descriptor_branch [OF key(1)] same)
qed

text \<open>
  C25: hidden descriptors are not authenticated when they are stored. Whoever sees a stored descriptor
  can replace it: a descriptor with the same node ID and service tag, a later issue time and an
  arbitrary ciphertext, without any signature, is admitted by the store handler (if the sender is not
  rate limited) and stored over the genuine one. If its nonce has one byte, every client that looks the
  service up with a well-formed invite panics when it decodes the value.
\<close>

theorem forged_descriptor_replaces:
  assumes laws: "descriptor_json_ok J" "rfc3339_ok G" "rfc3339_ascii G"
    and key: "HasPrefix key ''hidden-desc/v1/''" "parseHiddenDescriptorEpoch key = Inr epoch"
    and ex: "current_value s key = stored" "stored \<noteq> []" "validateLookupValue G J key stored now = Inr ev"
      "parseHiddenDescriptor G J (inner_raw J stored) = Inr d" "rfc3339_parse G (hd_IssuedAt d) = Some i"
    and d: "is_ascii (hd_NodeID d)" "is_ascii (hd_ServiceTag d)"
    and t: "0 \<le> Unix i" "Unix i < Unix t" "t + hour < rfc3339_end" "t mod second = 0"
    and fp: "hiddenDescriptorFingerprint G (forged_descriptor G d t) \<noteq> vv_fingerprint ev"
    and s: "ds_storeRates s = Map.empty" and ref: "ParseHiddenLookupRef G invite = Inr ref"
  defines "raw \<equiv> js_marshal_descriptor J (forged_descriptor G d t)"
  shows "fst (admitStoreValue G J remote key raw now s) = Inr () \<and>
    current_value (snd (storeValidated G J put key raw now (snd (admitStoreValue G J remote key raw now s)))) key = raw \<and>
    DecodeHiddenServiceRecord G J A key raw invite now' = None"
proof -
  have ne: "hd_NodeID d \<noteq> []" "hd_ServiceTag d \<noteq> []"
    using ex(4) by (auto simp: parseHiddenDescriptor_def split: option.splits if_splits)
  have t0: "0 \<le> t" using t(1,2) by (simp add: Unix_def second_def)
  note f = forged_descriptor_validates [OF laws key d(1,2) ne t0 t(3,4)]
  obtain e where "rfc3339_parse G (hd_ExpiresAt d) = Some e"
    using ex(4) by (auto simp: parseHiddenDescriptor_def split: option.splits if_splits)
  with validateLookupValue_inner [OF ex(3)] validate_descriptor_ok [OF key(2) ex(4,5)]
  have ev: "vv_family ev = ''hidden:'' @ hd_NodeID d @ '':'' @ hd_ServiceTag d" "vv_version ev = word_of_int (Unix i)" "vv_verified ev"
    by (auto simp: descriptor_branch [OF key(1)])
  let ?iv = "verified_value raw (''hidden:'' @ hd_NodeID d @ '':'' @ hd_ServiceTag d) (hiddenDescriptorFingerprint G (forged_descriptor G d t))
      (t, t + hour, word_of_int (Unix t)) (hd_NodeID d)"
  have "Unix t < 2 ^ 63" using t(3) by (simp add: Unix_def second_def rfc3339_end_def hour_def minute_def)
  then have new: "isNewerValue ?iv ev" using unix_word_less [OF t(1,2)] ev(2) by (simp add: isNewerValue_def)
  have iv: "validateLookupValue G J key raw now = Inr ?iv" using f(3) [of now] by (simp add: raw_def)
  obtain r s1 where al: "allowStoreRequest remote key True now s = (r, s1)" by force
  then have r: "r = Inr ()" using allowStoreRequest_fresh [OF s, of remote key True now] by simp
  have cv: "current_value s1 key = stored"
    using current_value_cong [OF admitStoreValue_keeps [of G J remote key raw now s]] ex(1) al
    by (simp add: admitStoreValue_state descriptor_key_facts [OF key(1)])
  have ad: "admitStoreValue G J remote key raw now s = (Inr (), s1)"
    using al r cv iv ev new ex(3) by (simp add: admitStoreValue_def descriptor_key_facts [OF key(1)] rejectStaleStoreValue_def)
  have "current_value (snd (storeValidated G J put key raw now s1)) key = raw"
  proof -
    have "ch_changed (chooseStoredValue G J key (current_value s1 key) raw now)"
      using cv ex(2,3) iv ev new fp by (simp add: chooseStoredValue_def)
    then show ?thesis using key(1) by (simp add: storeValidated_value)
  qed
  moreover have "DecodeHiddenServiceRecord G J A key raw invite now' = None"
    using f(1,2) key(2) ref
    by (simp add: raw_def DecodeHiddenServiceRecord_def extractHiddenDescriptor_def extractLookupPayload_def forged_descriptor_def
        del: b64_encode.simps)
  ultimately show ?thesis using ad by simp
qed

section \<open>Publishing and looking up meet\<close>

lemma length_b64_triples: "length bs = 3 * n \<Longrightarrow> length (b64_encode e bs) = 4 * n"
proof (induction e bs arbitrary: n rule: b64_encode.induct)
  case (4 e a b c bs)
  then show ?case by (cases n) (auto simp: Let_def)
qed (simp_all add: Let_def, presburger+)

lemma secret_chars:
  assumes "c \<in> set (b64_encode RawURLEncoding bs)"
  shows "\<not> space_char c" "c \<noteq> CHR ''#''" "c \<noteq> CHR ''/''"
proof -
  have "(of_char c :: nat) \<notin> {9, 10, 11, 12, 13, 32, 35, 47}"
    using b64_set [OF assms] by (auto simp: of_char_b64_char split: if_splits)
  then show "\<not> space_char c" "c \<noteq> CHR ''#''" "c \<noteq> CHR ''/''" by (auto simp: space_char_def)
qed

lemma dropWhile_none: "\<forall>x \<in> set xs. \<not> P x \<Longrightarrow> dropWhile P xs = xs"
  by (cases xs) auto

lemma TrimSpace_id: "is_ascii s \<Longrightarrow> \<forall>c \<in> set s. \<not> space_char c \<Longrightarrow> TrimSpace G s = s"
  by (simp add: TrimSpace_def trim_ascii_def dropWhile_none)

lemma parse_invite:
  assumes nm: "ValidateHiddenAlias alias = Inr ()" "is_ascii alias" "\<forall>c \<in> set alias. \<not> space_char c"
    and "length buf = 18"
  defines "secret \<equiv> NewHiddenLookupSecret buf"
  shows "ParseHiddenLookupRef G (ComposeHiddenLookupInvite G alias secret) = Inr \<lparr>hr_Alias = alias, hr_Secret = secret\<rparr>"
    and "TrimSpace G secret \<noteq> []"
proof -
  have sec: "is_ascii secret" "\<forall>c \<in> set secret. \<not> space_char c \<and> c \<noteq> CHR ''#'' \<and> c \<noteq> CHR ''/''" "length secret = 24"
    unfolding secret_def NewHiddenLookupSecret_def
    using length_b64_triples [of buf 6 RawURLEncoding] assms(4) by (simp_all add: secret_chars)
  have ts: "TrimSpace G secret = secret" "secret \<noteq> []"
    using sec by (simp add: TrimSpace_id, intro notI, simp)
  then show "TrimSpace G secret \<noteq> []" by simp
  have "TrimSpace G (alias @ ''#'' @ secret) = alias @ ''#'' @ secret"
    using sec nm by (intro TrimSpace_id) (auto simp: is_ascii_def space_char_def)
  moreover have "CHR ''#'' \<notin> set alias"
    using nm(1) by (auto simp: ValidateHiddenAlias_def ContainsAny_def list_ex_iff split: if_splits)
  then have "Cut (alias @ ''#'' @ secret) (CHR ''#'') = Some (alias, secret)" by (simp add: Cut_append)
  moreover have "c \<notin> set [CHR '' '', CHR 0x09, CHR 0x0D, CHR 0x0A, CHR ''/'', CHR ''#'']" if "c \<in> set secret" for c
    using bspec [OF sec(2) that] by (auto simp: space_char_def)
  then have "\<not> ContainsAny secret [CHR '' '', CHR 0x09, CHR 0x0D, CHR 0x0A, CHR ''/'', CHR ''#'']"
    unfolding ContainsAny_def list_ex_iff by blast
  then have "ValidateHiddenLookupSecret G secret = Inr ()"
    using sec(3) ts by (simp add: ValidateHiddenLookupSecret_def)
  ultimately show "ParseHiddenLookupRef G (ComposeHiddenLookupInvite G alias secret) = Inr \<lparr>hr_Alias = alias, hr_Secret = secret\<rparr>"
    using nm(1) ts by (simp add: ParseHiddenLookupRef_def ComposeHiddenLookupInvite_def)
qed

lemma set_dedup_keys: "set (dedup_keys seen keys) = set keys - seen"
  by (induction keys arbitrary: seen) auto

text \<open>
  C24: a hidden service stays reachable between two publications. A service that published under the
  keys of its alias and generated secret is found by a client that derives its keys from the invite at
  any time during the following hour: the two sets of keys share one.
\<close>

theorem publish_and_lookup_keys_meet:
  assumes nm: "ValidateHiddenAlias alias = Inr ()" "is_ascii alias" "\<forall>c \<in> set alias. \<not> space_char c"
    and buf: "length buf = 18"
    and t: "0 \<le> Unix now" "now \<le> now'" "now' < now + hour"
  shows "set (HiddenServicePublishKeys G clock alias (NewHiddenLookupSecret buf) now) \<inter>
    set (HiddenServiceLookupKeys G clock' (ComposeHiddenLookupInvite G alias (NewHiddenLookupSecret buf)) now') \<noteq> {}"
proof -
  let ?ref = "\<lparr>hr_Alias = alias, hr_Secret = NewHiddenLookupSecret buf\<rparr>"
  have ref: "parsed_ref G (ComposeHiddenLookupInvite G alias (NewHiddenLookupSecret buf)) = ?ref"
    by (simp add: parsed_ref_def parse_invite(1) [OF nm buf])
  define e e' where "e = Unix now div 3600" and "e' = Unix now' div 3600"
  have nz: "\<not> IsZero now" "\<not> IsZero now'" using t by (auto simp: IsZero_def Unix_def second_def)
  have u: "Unix now \<le> Unix now'" "Unix now' \<le> Unix now + 3600"
    using t(2,3) by (simp_all add: Unix_def second_def hour_def minute_def zdiv_mono1)
  then have ep: "hiddenDescriptorEpoch clock now = e" "hiddenDescriptorEpoch clock' now' = e'" "0 \<le> e"
    using nz t(1) by (simp_all add: hiddenDescriptorEpoch_def e_def e'_def Let_def)
  have "e \<le> e'" "e' \<le> (Unix now + 3600) div 3600" using u unfolding e_def e'_def by (simp_all only: zdiv_mono1 zero_less_numeral)
  then have "e' = e \<or> e' = e + 1" by (auto simp: e_def)
  then have "hiddenServiceKeyForRefEpoch G ?ref e \<in>
      set (HiddenServiceLookupKeys G clock' (ComposeHiddenLookupInvite G alias (NewHiddenLookupSecret buf)) now')"
    using ep by (auto simp: HiddenServiceLookupKeys_def Let_def ref)
  moreover have "hiddenServiceKeyForRefEpoch G ?ref e \<in> set (HiddenServicePublishKeys G clock alias (NewHiddenLookupSecret buf) now)"
    using ep by (simp add: HiddenServicePublishKeys_def set_dedup_keys hiddenServiceLookupKeysForRef_def Let_def)
  ultimately show ?thesis by blast
qed

section \<open>Instances\<close>

lemma demo_service_verified:
  "VerifyServiceRecord demo_lib (SignServiceRecord demo_lib demo_identity demo_service) (30 * second) = Inr ()"
  by (rule signed_service_verifies [OF demo_lib_ok(2) demo_identity_ok demo_service_shape _ _ demo_service_times])
    (simp_all add: demo_service_def second_def)

lemma demo_service_strings: "list_all is_ascii (sv_strings (SignServiceRecord demo_lib demo_identity demo_service))"
proof -
  have "is_ascii ''NODE-1''" "is_ascii ''web''" "is_ascii ''shop''" "is_ascii ''Fast''" "is_ascii ''a''" "is_ascii ''b''" "is_ascii []" by code_simp+
  then show ?thesis
    by (simp add: sv_strings_def SignServiceRecord_def demo_service_def demo_identity_sel(1))
qed

abbreviation demo_desc_key :: string where
  "demo_desc_key \<equiv> ''hidden-desc/v1/7/abc''"

lemma demo_desc_epoch: "parseHiddenDescriptorEpoch demo_desc_key = Inr 7"
  by code_simp

theorem publish_and_lookup_keys_meet_witness:
  "set (HiddenServicePublishKeys demo_lib 0 ''shop'' (NewHiddenLookupSecret (replicate 18 7)) (63000000000 * second)) \<inter>
   set (HiddenServiceLookupKeys demo_lib 0 (ComposeHiddenLookupInvite demo_lib ''shop'' (NewHiddenLookupSecret (replicate 18 7)))
     (63000001800 * second)) \<noteq> {}"
proof -
  have "ValidateHiddenAlias ''shop'' = Inr ()" "is_ascii ''shop''" "list_all (\<lambda>c. \<not> space_char c) ''shop''" by code_simp+
  then show ?thesis
    by (intro publish_and_lookup_keys_meet) (simp_all add: list_all_iff Unix_def second_def hour_def minute_def)
qed

definition demo_descriptor :: HiddenDescriptor where
  "demo_descriptor = forged_descriptor demo_lib \<lparr>hd_NodeID = ''n'', hd_ServiceTag = ''t'', hd_IssuedAt = [], hd_ExpiresAt = [],
     hd_Nonce = [], hd_Ciphertext = []\<rparr> (62135596800 * second)"

definition demo_holder :: Server where
  "demo_holder = demo_peer_server\<lparr>ds_Values := [demo_desc_key \<mapsto> js_marshal_descriptor demo_jsonlib demo_descriptor]\<rparr>"

lemma demo_formats:
  "rfc3339_format demo_lib (62135596800 * second) = ''0000000e7791f700''"
  "rfc3339_format demo_lib (70725531392 * second) = ''000000107791f700''"
  by code_simp+

lemma demo_fingerprint_text:
  assumes "hd_NodeID d = ''n''" "hd_ServiceTag d = ''t''" "hd_IssuedAt d = x @ y" "length x = 8"
  shows "hiddenDescriptorFingerprint demo_lib d = b64_encode RawURLEncoding (bytes_of (CHR ''n'' # CHR 0x0A # CHR ''t'' # CHR 0x0A # x))"
  using assms by (simp add: hiddenDescriptorFingerprint_def demo_lib_def fit_def bytes_of_def b64_encode_inj)

lemma demo_fingerprints:
  "hiddenDescriptorFingerprint demo_lib (forged_descriptor demo_lib demo_descriptor (70725531392 * second)) \<noteq>
   hiddenDescriptorFingerprint demo_lib demo_descriptor"
proof -
  have "hiddenDescriptorFingerprint demo_lib (forged_descriptor demo_lib demo_descriptor (70725531392 * second)) =
      b64_encode RawURLEncoding (bytes_of (CHR ''n'' # CHR 0x0A # CHR ''t'' # CHR 0x0A # ''00000010''))"
    by (rule demo_fingerprint_text [where y = "''7791f700''"]) (simp_all add: forged_descriptor_def demo_descriptor_def demo_formats)
  moreover have "hiddenDescriptorFingerprint demo_lib demo_descriptor =
      b64_encode RawURLEncoding (bytes_of (CHR ''n'' # CHR 0x0A # CHR ''t'' # CHR 0x0A # ''0000000e''))"
    by (rule demo_fingerprint_text [where y = "''7791f700''"]) (simp_all add: forged_descriptor_def demo_descriptor_def demo_formats)
  ultimately show ?thesis by (simp only: b64_encode_inj bytes_of_inj) simp
qed

theorem forged_descriptor_replaces_witness:
  "fst (admitStoreValue demo_lib demo_jsonlib demo_addr demo_desc_key
      (js_marshal_descriptor demo_jsonlib (forged_descriptor demo_lib demo_descriptor (70725531392 * second))) 0 demo_holder) = Inr () \<and>
   DecodeHiddenServiceRecord demo_lib demo_jsonlib demo_aad demo_desc_key
      (js_marshal_descriptor demo_jsonlib (forged_descriptor demo_lib demo_descriptor (70725531392 * second)))
      ''shop#0123456789abcdef'' 0 = None"
proof -
  let ?base = "\<lparr>hd_NodeID = ''n'', hd_ServiceTag = ''t'', hd_IssuedAt = [], hd_ExpiresAt = [], hd_Nonce = [], hd_Ciphertext = []\<rparr>"
  have key: "HasPrefix demo_desc_key ''hidden-desc/v1/''" by code_simp
  have a: "is_ascii ''n''" "is_ascii ''t''" by code_simp+
  have t: "(0 :: time) \<le> 62135596800 * second" "62135596800 * second + hour < rfc3339_end" "62135596800 * second mod second = 0"
    by (simp_all add: second_def hour_def minute_def rfc3339_end_def)
  note v = forged_descriptor_validates [OF demo_jsonlib_ok(2) demo_lib_ok(3) demo_rfc3339_ascii key demo_desc_epoch, of ?base,
      simplified HiddenDescriptor.simps, OF a _ _ t, folded demo_descriptor_def, simplified]
  have i: "rfc3339_parse demo_lib (hd_IssuedAt demo_descriptor) = Some (62135596800 * second)"
    using rfc3339_whole [OF demo_lib_ok(3) t(1) _ t(3)] by (simp add: demo_descriptor_def forged_descriptor_def second_def rfc3339_end_def)
  have ref: "ParseHiddenLookupRef demo_lib ''shop#0123456789abcdef'' = Inr \<lparr>hr_Alias = ''shop'', hr_Secret = ''0123456789abcdef''\<rparr>"
    by code_simp
  have s: "current_value demo_holder demo_desc_key = js_marshal_descriptor demo_jsonlib demo_descriptor"
    "ds_storeRates demo_holder = Map.empty"
    by (simp_all add: demo_holder_def current_value_def demo_peer_server_def NewServer_def)
  have sel: "hd_NodeID demo_descriptor = ''n''" "hd_ServiceTag demo_descriptor = ''t''"
    by (simp_all add: demo_descriptor_def forged_descriptor_def)
  have "js_marshal_descriptor demo_jsonlib demo_descriptor \<noteq> []"
    by (simp add: demo_jsonlib_def demo_descriptor_text_def)
  moreover have "parseHiddenDescriptor demo_lib demo_jsonlib (inner_raw demo_jsonlib (js_marshal_descriptor demo_jsonlib demo_descriptor)) =
      Inr demo_descriptor"
    by (simp add: inner_raw_def v(1,2))
  ultimately show ?thesis
    using forged_descriptor_replaces [OF demo_jsonlib_ok(2) demo_lib_ok(3) demo_rfc3339_ascii key demo_desc_epoch s(1) _ v(3) _ i,
        where t = "70725531392 * second" and invite = "''shop#0123456789abcdef''" and remote = demo_addr and now = 0 and now' = 0
          and A = demo_aad, OF _ _ _ _ _ _ _ _ _ s(2) ref] a demo_fingerprints
    by (simp add: sel Unix_def second_def hour_def minute_def rfc3339_end_def)
qed

end
