(* ===== verification/HiddenFacts.thy ===== *)
theory HiddenFacts
  imports HiddenLookup DescriptorFacts CollectorFacts
begin

text \<open>
  Properties of the resolution of hidden services: the records it returns are verified and current, come
  from enough independent groups of lookups, and the circuits for hidden descriptors avoid the target.
\<close>

section \<open>Decoded records\<close>

text \<open>A record that answers the lookup: it is hidden and has the alias of the invite.\<close>

definition answers_lookup :: "golib \<Rightarrow> string \<Rightarrow> ServiceRecord \<Rightarrow> bool" where
  "answers_lookup G lookup rec \<longleftrightarrow> sv_IsHidden rec \<and>
     (sv_Alias rec = lookup \<or> (\<exists>ref. ParseHiddenLookupRef G lookup = Inr ref \<and> sv_Alias rec = hr_Alias ref))"

lemma check_decrypted_sound:
  assumes "check_decrypted G J d ref plain now = Inr rec"
  shows "VerifyServiceRecord G rec now = Inr () \<and> sv_IsHidden rec \<and> sv_Alias rec = hr_Alias ref"
  using assms by (auto simp: check_decrypted_def split: option.splits sum.splits if_splits)

lemma decodeLegacy_sound:
  assumes "decodeLegacyHiddenServiceRecord G J key val alias now = Inr rec"
  shows "VerifyServiceRecord G rec now = Inr () \<and> sv_IsHidden rec \<and> sv_Alias rec = alias"
  using assms by (auto simp: decodeLegacyHiddenServiceRecord_def Let_def split: option.splits sum.splits if_splits)

lemma Decode_sound:
  assumes "DecodeHiddenServiceRecord G J A key val lookup now = Some (Inr rec)"
  shows "VerifyServiceRecord G rec now = Inr () \<and> answers_lookup G lookup rec"
proof (cases "extractHiddenDescriptor G J key val now")
  case (Inl e)
  then show ?thesis
    using assms decodeLegacy_sound [of G J key val lookup now rec]
    by (auto simp: DecodeHiddenServiceRecord_def answers_lookup_def split: sum.splits)
next
  case (Inr d)
  then obtain ref plain where "ParseHiddenLookupRef G lookup = Inr ref" "check_decrypted G J d ref plain now = Inr rec"
    using assms by (auto simp: DecodeHiddenServiceRecord_def split: sum.splits option.splits if_splits)
  then show ?thesis using check_decrypted_sound by (auto simp: answers_lookup_def)
qed

section \<open>Consensus\<close>

text \<open>Group \<open>g\<close> returned, under one of the keys, a value that decodes to a record with the fingerprint.\<close>

definition group_returned ::
  "golib \<Rightarrow> jsonlib \<Rightarrow> aadlib \<Rightarrow> string \<Rightarrow> time \<Rightarrow> string list \<Rightarrow> (nat \<Rightarrow> fetchResult list) \<Rightarrow> string \<Rightarrow> nat \<Rightarrow> bool" where
  "group_returned G J A lookup now keys fetch fp g \<longleftrightarrow> (\<exists>r \<in> set (fetch g). fr_key r \<in> set keys \<and>
     (\<exists>val rec. fr_val r = Inr val \<and> DecodeHiddenServiceRecord G J A (fr_key r) val lookup now = Some (Inr rec) \<and>
        hiddenDescriptorConsensusFingerprint G rec = fp))"

definition candidate_sound ::
  "golib \<Rightarrow> jsonlib \<Rightarrow> aadlib \<Rightarrow> string \<Rightarrow> time \<Rightarrow> string list \<Rightarrow> fetchResult list \<Rightarrow> string \<times> hiddenDescriptorCandidate \<Rightarrow> bool" where
  "candidate_sound G J A lookup now keys results c \<longleftrightarrow> (\<exists>r \<in> set results. fr_key r \<in> set keys \<and> hk_key (snd c) = fr_key r \<and>
     (\<exists>val. fr_val r = Inr val \<and> DecodeHiddenServiceRecord G J A (fr_key r) val lookup now = Some (Inr (hk_record (snd c)))) \<and>
     fst c = hiddenDescriptorConsensusFingerprint G (hk_record (snd c)))"

lemma collect_group_sound:
  assumes "collect_group G J A lookup now keys rs (cs, err0) = Some (out, err)" "set rs \<subseteq> set results"
    "\<forall>c \<in> set cs. candidate_sound G J A lookup now keys results c"
  shows "\<forall>c \<in> set out. candidate_sound G J A lookup now keys results c"
  using assms
proof (induction rs arbitrary: cs err0)
  case (Cons r rs)
  have rs: "set rs \<subseteq> set results" "r \<in> set results" using Cons.prems(2) by simp_all
  note IH = Cons.IH [OF _ rs(1)]
  consider "fr_key r \<notin> set keys" | e where "fr_key r \<in> set keys" "fr_val r = Inl e" | "fr_key r \<in> set keys" "fr_val r = Inr []"
    | val where "fr_key r \<in> set keys" "fr_val r = Inr val" "val \<noteq> []"
    by (cases "fr_val r") auto
  then show ?case
  proof cases
    case 1
    then show ?thesis using Cons.prems(1) IH [OF _ Cons.prems(3)] by simp
  next
    case 2
    then show ?thesis using Cons.prems(1) IH [OF _ Cons.prems(3)] by simp
  next
    case 3
    then show ?thesis using Cons.prems(1) IH [OF _ Cons.prems(3)] by simp
  next
    case (4 val)
    show ?thesis
    proof (cases "DecodeHiddenServiceRecord G J A (fr_key r) val lookup now")
      case None
      then show ?thesis using Cons.prems(1) 4 by simp
    next
      case (Some d)
      show ?thesis
      proof (cases d)
        case (Inl e)
        then show ?thesis using Cons.prems(1) Some 4 IH [OF _ Cons.prems(3)] by simp
      next
        case (Inr rec)
        let ?c = "(hiddenDescriptorConsensusFingerprint G rec, \<lparr>hk_record = rec, hk_key = fr_key r\<rparr>)"
        have "candidate_sound G J A lookup now keys results ?c"
          using Some Inr 4 rs(2) by (auto simp: candidate_sound_def)
        then have "\<forall>c \<in> set (if map_of cs (fst ?c) = None then cs @ [?c] else cs). candidate_sound G J A lookup now keys results c"
          using Cons.prems(3) by auto
        from IH [OF _ this] Cons.prems(1) Some Inr 4 show ?thesis by (simp add: Let_def)
      qed
    qed
  qed
qed simp

text \<open>What the entries of the tally say after the groups before \<open>g\<close>.\<close>

definition tally_ok ::
  "golib \<Rightarrow> jsonlib \<Rightarrow> aadlib \<Rightarrow> string \<Rightarrow> time \<Rightarrow> string list \<Rightarrow> (nat \<Rightarrow> fetchResult list) \<Rightarrow> string \<times> consensusRecord \<Rightarrow> bool" where
  "tally_ok G J A lookup now keys fetch e \<longleftrightarrow> distinct (cr_groups (snd e)) \<and>
     (\<forall>g \<in> set (cr_groups (snd e)). group_returned G J A lookup now keys fetch (fst e) g) \<and>
     fst e = hiddenDescriptorConsensusFingerprint G (cr_record (snd e)) \<and> cr_key (snd e) \<in> set keys \<and>
     (\<exists>val. DecodeHiddenServiceRecord G J A (cr_key (snd e)) val lookup now = Some (Inr (cr_record (snd e))))"

definition agreed ::
  "golib \<Rightarrow> jsonlib \<Rightarrow> aadlib \<Rightarrow> string \<Rightarrow> time \<Rightarrow> string list \<Rightarrow> (nat \<Rightarrow> fetchResult list) \<Rightarrow> int \<Rightarrow> ServiceRecord \<Rightarrow> string \<Rightarrow> bool" where
  "agreed G J A lookup now keys fetch minMatches rec key \<longleftrightarrow> key \<in> set keys \<and>
     (\<exists>val. DecodeHiddenServiceRecord G J A key val lookup now = Some (Inr rec)) \<and>
     (\<exists>D. finite D \<and> minMatches \<le> int (card D) \<and>
        (\<forall>g \<in> D. group_returned G J A lookup now keys fetch (hiddenDescriptorConsensusFingerprint G rec) g))"

lemma set_update_sub: "set (AList.update k x al) \<subseteq> insert (k, x) (set al)"
  by (induction al) auto

lemma tally_sound:
  assumes "\<forall>e \<in> set seen. tally_ok G J A lookup now keys fetch e"
    and "\<forall>c \<in> set cs. candidate_sound G J A lookup now keys (fetch g) c"
  shows "case tally minMatches g cs seen of
     Inl (rec, key) \<Rightarrow> agreed G J A lookup now keys fetch minMatches rec key
   | Inr seen' \<Rightarrow> \<forall>e \<in> set seen'. tally_ok G J A lookup now keys fetch e"
  using assms
proof (induction minMatches g cs seen rule: tally.induct)
  case (2 minMatches g fp c cs seen)
  define old where "old = (case map_of seen fp of Some e \<Rightarrow> e | None \<Rightarrow> \<lparr>cr_record = hk_record c, cr_key = hk_key c, cr_groups = []\<rparr>)"
  define entry where "entry = old\<lparr>cr_groups := add_key g (cr_groups old)\<rparr>"
  have U: "tally minMatches g ((fp, c) # cs) seen =
      (if int (length (cr_groups entry)) \<ge> minMatches then Inl (cr_record entry, cr_key entry)
       else tally minMatches g cs (AList.update fp entry seen))"
    by (simp only: tally.simps Let_def entry_def old_def)
  obtain r val where r: "r \<in> set (fetch g)" "fr_key r \<in> set keys" "hk_key c = fr_key r" "fr_val r = Inr val"
    "DecodeHiddenServiceRecord G J A (fr_key r) val lookup now = Some (Inr (hk_record c))"
    "fp = hiddenDescriptorConsensusFingerprint G (hk_record c)"
    using "2.prems"(2) by (auto simp: candidate_sound_def)
  then have ret: "group_returned G J A lookup now keys fetch fp g" by (auto simp: group_returned_def)
  have "tally_ok G J A lookup now keys fetch (fp, old)"
  proof (cases "map_of seen fp")
    case None
    have "tally_ok G J A lookup now keys fetch (fp, \<lparr>cr_record = hk_record c, cr_key = hk_key c, cr_groups = []\<rparr>)"
      using r by (auto simp: tally_ok_def)
    then show ?thesis using None by (simp add: old_def)
  next
    case (Some e)
    then show ?thesis using "2.prems"(1) map_of_SomeD [OF Some] by (auto simp: old_def)
  qed
  then have ok: "tally_ok G J A lookup now keys fetch (fp, entry)" using ret by (auto simp: tally_ok_def entry_def)
  show ?case
  proof (cases "minMatches \<le> int (length (cr_groups entry))")
    case True
    have "card (set (cr_groups entry)) = length (cr_groups entry)" using ok by (simp add: tally_ok_def distinct_card)
    then have "agreed G J A lookup now keys fetch minMatches (cr_record entry) (cr_key entry)"
      using ok True unfolding agreed_def tally_ok_def by (metis List.finite_set fst_conv snd_conv)
    then show ?thesis unfolding U using True by simp
  next
    case False
    have "\<forall>e \<in> set (AList.update fp entry seen). tally_ok G J A lookup now keys fetch e"
      using set_update_sub [of fp entry seen] "2.prems"(1) ok by blast
    moreover have "\<forall>c \<in> set cs. candidate_sound G J A lookup now keys (fetch g) c" using "2.prems"(2) by simp
    ultimately show ?thesis unfolding U using "2.IH" [OF old_def entry_def False] False by simp
  qed
qed simp

lemma run_groups_sound:
  assumes "run_groups G J A lookup now keys minMatches order fetch g n seen err = Some (Inr (rec, key))"
    and "\<forall>e \<in> set seen. tally_ok G J A lookup now keys fetch e" and "\<And>g cs. set (order g cs) = set cs"
  shows "agreed G J A lookup now keys fetch minMatches rec key"
  using assms(1,2)
proof (induction n arbitrary: g seen err)
  case (Suc n)
  obtain cs e where f: "collect_group G J A lookup now keys (fetch g) ([], None) = Some (cs, e)"
    using Suc.prems(1) by (auto simp: fetchHiddenDescriptorGroup_def split: option.splits)
  have "\<forall>c \<in> set (order g cs). candidate_sound G J A lookup now keys (fetch g) c"
    using collect_group_sound [OF f subset_refl] assms(3) by simp
  note t = tally_sound [OF Suc.prems(2) this, of minMatches]
  show ?case
  proof (cases "tally minMatches g (order g cs) seen")
    case (Inl p)
    then show ?thesis using Suc.prems(1) f t by (cases p) (simp add: fetchHiddenDescriptorGroup_def)
  next
    case (Inr seen')
    then show ?thesis using Suc f t by (simp add: fetchHiddenDescriptorGroup_def)
  qed
qed simp

section \<open>The cache\<close>

text \<open>
  A cached record answers its invite and verifies until the entry expires; an entry does expire.
\<close>

definition entry_ok :: "golib \<Rightarrow> string \<Rightarrow> cachedHiddenService \<Rightarrow> bool" where
  "entry_ok G lookup e \<longleftrightarrow> ch_Invite e = lookup \<and> answers_lookup G lookup (ch_Record e) \<and> 0 < ch_ExpiresAt e \<and>
     (\<forall>t \<le> ch_ExpiresAt e. VerifyServiceRecord G (ch_Record e) t = Inr ())"

definition hidden_ok :: "golib \<Rightarrow> hidden_state \<Rightarrow> bool" where
  "hidden_ok G s \<longleftrightarrow> (\<forall>lookup e. hs_cache s lookup = Some e \<longrightarrow> entry_ok G lookup e)"

lemma store_cache_ok [inv_intros]:
  assumes "hidden_ok G s" "VerifyServiceRecord G rec t = Inr ()" "answers_lookup G lookup rec" "0 < t" "0 < now"
  shows "hidden_ok G (storeHiddenServiceCache G lookup key rec now s)"
proof -
  obtain x where x: "rfc3339_parse G (sv_ExpiresAt rec) = Some x" "t \<le> x" "VerifyServiceRecord G rec x = Inr ()"
    using assms(2) by (auto simp: VerifyServiceRecord_iff)
  let ?w = "if hc_CacheWindow (hs_hidden s) > 0 then hc_CacheWindow (hs_hidden s) else 45 * second"
  have "0 < ?w" by (simp add: second_def)
  then show ?thesis
    using assms x VerifyServiceRecord_earlier [OF x(3)]
    by (auto simp: hidden_ok_def entry_ok_def storeHiddenServiceCache_def Let_def)
qed

lemma warmer_ok [inv_intros]: "hidden_ok G s \<Longrightarrow> hidden_ok G (startHiddenDescriptorWarmer lookup s)"
  "hidden_ok G s \<Longrightarrow> hidden_ok G (warmer_stops lookup s)"
  "hidden_ok G s \<Longrightarrow> hidden_ok G (TrackHiddenLookupInvite lookup s)"
  "hidden_ok G s \<Longrightarrow> hidden_ok G (SetHiddenDescriptorPrivacy cfg s)"
  by (simp_all add: hidden_ok_def startHiddenDescriptorWarmer_def warmer_stops_def TrackHiddenLookupInvite_def
      SetHiddenDescriptorPrivacy_def Let_def)

lemma refresh_agreed:
  assumes "refreshHiddenServiceNetwork G J A clock coin order fetch lookup now s = Some (Inr (rec, key))"
    and "\<And>g cs. set (order g cs) = set cs"
  shows "agreed G J A lookup now (swap_keys coin (HiddenServiceLookupKeys G clock lookup now)) fetch (snd (consensus_limits (hs_hidden s))) rec key"
  using assms by (auto simp: refreshHiddenServiceNetwork_def Let_def split: prod.splits intro!: run_groups_sound [OF _ _ assms(2)])

lemma swap_keys_set [simp]: "set (swap_keys coin ks) = set ks"
  by (auto simp: swap_keys_def split: list.splits)

lemma agreed_verified:
  "agreed G J A lookup now keys fetch m rec key \<Longrightarrow> VerifyServiceRecord G rec now = Inr () \<and> answers_lookup G lookup rec"
  by (auto simp: agreed_def dest: Decode_sound)

lemma current_entry:
  assumes "entry_ok G lookup e" "entry_current now e"
  shows "VerifyServiceRecord G (ch_Record e) now = Inr () \<and> answers_lookup G lookup (ch_Record e)"
  using assms by (auto simp: entry_ok_def entry_current_def IsZero_def)

lemma Resolve_cases:
  assumes ok: "hidden_ok G s" and ord: "\<And>g cs. set (order g cs) = set cs"
    and now: "0 < (if IsZero now0 then clock else now0)"
    and r: "ResolveHiddenService G J A clock coin order fetch lookup now0 s = Some (r, s')"
  shows "hidden_ok G s' \<and> (\<forall>rec. r = Inr rec \<longrightarrow>
    VerifyServiceRecord G rec (if IsZero now0 then clock else now0) = Inr () \<and> answers_lookup G lookup rec)"
proof -
  define now where "now = (if IsZero now0 then clock else now0)"
  have e: "entry_ok G lookup e" if "hs_cache s lookup = Some e" for e using ok that by (simp add: hidden_ok_def)
  show ?thesis
  proof (cases "lookupHiddenServiceCache lookup now s")
    case (Some c)
    then have "entry_ok G lookup c" "entry_current now c"
      using e by (auto simp: lookupHiddenServiceCache_def split: option.splits if_splits)
    then show ?thesis using r Some current_entry ok by (auto simp: ResolveHiddenService_def Let_def simp flip: now_def intro: inv_intros)
  next
    case None
    show ?thesis
    proof (cases "refreshHiddenServiceNetwork G J A clock coin order fetch lookup now s")
      case n: None
      then show ?thesis using r None by (simp add: ResolveHiddenService_def Let_def flip: now_def)
    next
      case (Some res)
      show ?thesis
      proof (cases res)
        case (Inl err)
        have "entry_ok G lookup c \<and> entry_current now c" if "lookupStaleHiddenServiceCache lookup now s = Some c" for c
          using that e by (auto simp: lookupStaleHiddenServiceCache_def split: option.splits if_splits)
        then show ?thesis
          using r None Some Inl ok current_entry
          by (auto simp: ResolveHiddenService_def Let_def simp flip: now_def split: option.splits intro: inv_intros)
      next
        case (Inr p)
        obtain rec key where p: "p = (rec, key)" by force
        have v: "VerifyServiceRecord G rec now = Inr ()" "answers_lookup G lookup rec"
          using agreed_verified [OF refresh_agreed [where order = order, OF _ ord, of G J A clock coin fetch lookup now s rec key]] Some Inr p
          by simp_all
        then have "hidden_ok G (storeHiddenServiceCache G lookup key rec now s)"
          using ok assms(3) by (intro store_cache_ok) (simp_all add: now_def)
        then show ?thesis
          using r None Some Inr p v by (auto simp: ResolveHiddenService_def Let_def simp flip: now_def intro: inv_intros)
      qed
    qed
  qed
qed

section \<open>Runs\<close>

text \<open>
  What happens to the hidden-service state of a node: resolutions, polls of a warmer or the cover worker
  (the refresh at \<open>t\<close>, the store at \<open>t'\<close>), invites tracked, warmers that end, new configurations.
  Clocks show times after the zero time, and ranging over a map visits its entries.
\<close>

datatype hidden_event = HResolve string time | HPoll string time time | HTrack string | HStop string | HPrivacy HiddenDescriptorPrivacyConfig

inductive hidden_step :: "golib \<Rightarrow> jsonlib \<Rightarrow> aadlib \<Rightarrow> hidden_state \<Rightarrow> hidden_event \<Rightarrow> hidden_state \<Rightarrow> bool" for G J A where
  resolve: "(\<And>g cs. set (order g cs) = set cs) \<Longrightarrow> 0 < (if IsZero now then clock else now) \<Longrightarrow>
     ResolveHiddenService G J A clock coin order fetch lookup now s = Some (r, s') \<Longrightarrow> hidden_step G J A s (HResolve lookup now) s'"
| poll: "(\<And>g cs. set (order g cs) = set cs) \<Longrightarrow> 0 < t \<Longrightarrow> 0 < t' \<Longrightarrow>
     refreshHiddenServiceNetwork G J A clock coin order fetch lookup t s = Some r \<Longrightarrow> hidden_step G J A s (HPoll lookup t t') (poll G lookup r t' s)"
| track: "hidden_step G J A s (HTrack lookup) (TrackHiddenLookupInvite lookup s)"
| stop: "hidden_step G J A s (HStop lookup) (warmer_stops lookup s)"
| privacy: "hidden_step G J A s (HPrivacy cfg) (SetHiddenDescriptorPrivacy cfg s)"

lemma poll_ok:
  assumes ok: "hidden_ok G s" and ord: "\<And>g cs. set (order g cs) = set cs" and t: "0 < t" "0 < t'"
    and r: "refreshHiddenServiceNetwork G J A clock coin order fetch lookup t s = Some r"
  shows "hidden_ok G (poll G lookup r t' s)"
proof (cases r)
  case (Inr p)
  obtain rec key where p: "p = (rec, key)" by force
  have "VerifyServiceRecord G rec t = Inr ()" "answers_lookup G lookup rec"
    using agreed_verified [OF refresh_agreed [where order = order, OF _ ord, of G J A clock coin fetch lookup t s rec key]] r Inr p
    by simp_all
  then show ?thesis using ok t Inr p by (simp add: poll_def store_cache_ok)
qed (use ok in \<open>simp add: poll_def\<close>)

lemma hidden_step_ok: "hidden_step G J A s e s' \<Longrightarrow> hidden_ok G s \<Longrightarrow> hidden_ok G s'"
proof (induction rule: hidden_step.induct)
  case (resolve order now clock coin fetch lookup s r s')
  then show ?case using Resolve_cases [where order = order] by blast
next
  case (poll order t t' clock coin fetch lookup s r)
  then show ?case by (intro poll_ok [where order = order])
qed (auto intro: inv_intros)

interpretation hidden: event_system "hidden_step G J A" "hidden_ok G" for G J A
  by unfold_locales (rule hidden_step_ok)

definition new_hidden_state :: "HiddenDescriptorPrivacyConfig \<Rightarrow> hidden_state" where
  "new_hidden_state cfg = \<lparr>hs_hidden = cfg, hs_cache = Map.empty, hs_warmers = {}, hs_tracked = {}, hs_coverOn = False\<rparr>"

text \<open>
  C27: a resolved hidden service is genuine and current. After any run of resolutions, polls, invites and
  configuration changes of a node, a resolution at a time \<open>now\<close> that returns a record, from the network,
  the cache or the stale cache, returns a hidden-service record with the alias of the invite whose
  signature verifies and which has not expired at \<open>now\<close>.
\<close>

theorem resolved_hidden_service_current:
  assumes "steps (hidden_step G J A) (new_hidden_state cfg) es s" "\<And>g cs. set (order g cs) = set cs" "0 < now"
    and "ResolveHiddenService G J A clock coin order fetch lookup now s = Some (Inr rec, s')"
  shows "VerifyServiceRecord G rec now = Inr () \<and> sv_IsHidden rec \<and>
    (sv_Alias rec = lookup \<or> (\<exists>ref. ParseHiddenLookupRef G lookup = Inr ref \<and> sv_Alias rec = hr_Alias ref))"
proof -
  have "hidden_ok G (new_hidden_state cfg)" by (simp add: hidden_ok_def new_hidden_state_def)
  then have ok: "hidden_ok G s" using hidden.steps_inv [OF assms(1)] by blast
  have "0 < (if IsZero now then clock else now)" using assms(3) by (simp add: IsZero_def)
  from Resolve_cases [OF ok assms(2) this assms(4)] assms(3) show ?thesis by (simp add: IsZero_def answers_lookup_def)
qed

text \<open>
  C28: consensus. A record that comes from the network was decoded, under a lookup key of the invite, in at
  least as many different groups of lookups as the configuration requires (two of three by default), with
  the same consensus fingerprint each time.
\<close>

theorem hidden_consensus:
  assumes "refreshHiddenServiceNetwork G J A clock coin order fetch lookup now s = Some (Inr (rec, key))"
    and "\<And>g cs. set (order g cs) = set cs"
  shows "key \<in> set (HiddenServiceLookupKeys G clock lookup now) \<and>
    (\<exists>D. snd (consensus_limits (hs_hidden s)) \<le> int (card D) \<and> (\<forall>g \<in> D. \<exists>r \<in> set (fetch g).
       fr_key r \<in> set (HiddenServiceLookupKeys G clock lookup now) \<and> (\<exists>val rec'. fr_val r = Inr val \<and>
         DecodeHiddenServiceRecord G J A (fr_key r) val lookup now = Some (Inr rec') \<and>
         hiddenDescriptorConsensusFingerprint G rec' = hiddenDescriptorConsensusFingerprint G rec)))"
  using refresh_agreed [OF assms] by (auto simp: agreed_def group_returned_def)

section \<open>Published services are found\<close>

text \<open>Every result for a key of the invite is an error, empty, or a value that decodes to \<open>rec\<close>.\<close>

definition honest_results :: "golib \<Rightarrow> jsonlib \<Rightarrow> aadlib \<Rightarrow> string \<Rightarrow> time \<Rightarrow> string list \<Rightarrow> ServiceRecord \<Rightarrow> fetchResult list \<Rightarrow> bool" where
  "honest_results G J A lookup now keys rec rs \<longleftrightarrow> (\<forall>r \<in> set rs. fr_key r \<in> set keys \<longrightarrow> (case fr_val r of Inl _ \<Rightarrow> True
     | Inr val \<Rightarrow> val = [] \<or> DecodeHiddenServiceRecord G J A (fr_key r) val lookup now = Some (Inr rec)))"

definition has_value :: "string list \<Rightarrow> fetchResult list \<Rightarrow> bool" where
  "has_value keys rs \<longleftrightarrow> (\<exists>r \<in> set rs. fr_key r \<in> set keys \<and> (\<exists>val. fr_val r = Inr val \<and> val \<noteq> []))"

definition only_record :: "golib \<Rightarrow> ServiceRecord \<Rightarrow> (string \<times> hiddenDescriptorCandidate) list \<Rightarrow> bool" where
  "only_record G rec cs \<longleftrightarrow> cs = [] \<or> (\<exists>key. cs = [(hiddenDescriptorConsensusFingerprint G rec, \<lparr>hk_record = rec, hk_key = key\<rparr>)])"

lemma collect_honest:
  assumes "honest_results G J A lookup now keys rec rs" "only_record G rec cs"
  shows "\<exists>out err. collect_group G J A lookup now keys rs (cs, err0) = Some (out, err) \<and> only_record G rec out \<and>
    (out = [] \<longleftrightarrow> cs = [] \<and> \<not> has_value keys rs)"
  using assms
proof (induction rs arbitrary: cs err0)
  case Nil
  then show ?case by (simp add: has_value_def)
next
  case (Cons r rs)
  have h: "honest_results G J A lookup now keys rec rs" using Cons.prems(1) by (simp add: honest_results_def)
  consider "fr_key r \<notin> set keys \<or> fr_val r = Inr []" | e where "fr_key r \<in> set keys" "fr_val r = Inl e"
    | val where "fr_key r \<in> set keys" "fr_val r = Inr val" "val \<noteq> []"
    by (cases "fr_val r") auto
  then show ?case
  proof cases
    case 1
    then have "has_value keys (r # rs) = has_value keys rs" by (auto simp: has_value_def)
    then show ?thesis using 1 Cons.IH [OF h Cons.prems(2), of err0] by auto
  next
    case (2 e)
    then have "has_value keys (r # rs) = has_value keys rs" by (auto simp: has_value_def)
    then show ?thesis using 2 Cons.IH [OF h Cons.prems(2), of "Some (HiddenLookupFailed e)"] by auto
  next
    case (3 val)
    have d: "DecodeHiddenServiceRecord G J A (fr_key r) val lookup now = Some (Inr rec)"
      using Cons.prems(1) 3 by (auto simp: honest_results_def)
    let ?fp = "hiddenDescriptorConsensusFingerprint G rec"
    define cs' where "cs' = (if map_of cs ?fp = None then cs @ [(?fp, \<lparr>hk_record = rec, hk_key = fr_key r\<rparr>)] else cs)"
    have c: "only_record G rec cs'" "cs' \<noteq> []" using Cons.prems(2) by (auto simp: only_record_def cs'_def)
    have "has_value keys (r # rs)" using 3 by (auto simp: has_value_def)
    then show ?thesis using 3 d c Cons.IH [OF h c(1), of err0] by (auto simp: Let_def cs'_def)
  qed
qed

text \<open>The tally of one record, seen in the groups \<open>gs\<close> so far.\<close>

definition only_seen :: "golib \<Rightarrow> ServiceRecord \<Rightarrow> nat list \<Rightarrow> (string \<times> consensusRecord) list \<Rightarrow> bool" where
  "only_seen G rec gs seen \<longleftrightarrow> (if gs = [] then seen = []
     else \<exists>key. seen = [(hiddenDescriptorConsensusFingerprint G rec, \<lparr>cr_record = rec, cr_key = key, cr_groups = gs\<rparr>)])"

lemma run_groups_honest:
  assumes hon: "\<forall>i. honest_results G J A lookup now keys rec (fetch i)" and ord: "\<And>g cs. set (order g cs) = set cs"
      "\<And>g cs. length (order g cs) = length cs"
    and "only_seen G rec gs seen" "\<forall>i \<in> set gs. i < g" "int (length gs) < m"
    and "m \<le> int (length gs) + int (card {i \<in> {g..<g + n}. has_value keys (fetch i)})"
  shows "\<exists>key. run_groups G J A lookup now keys m order fetch g n seen err = Some (Inr (rec, key))"
  using assms(4-)
proof (induction n arbitrary: g gs seen err)
  case (Suc n)
  obtain cs e where f: "collect_group G J A lookup now keys (fetch g) ([], None) = Some (cs, e)" "only_record G rec cs"
    "cs = [] \<longleftrightarrow> \<not> has_value keys (fetch g)"
    using collect_honest [OF spec [OF hon], of "[]" g None] by (auto simp: only_record_def)
  have o: "order g cs = cs" using ord(1) [of g cs] ord(2) [of g cs] f(2) by (auto simp: only_record_def length_Suc_conv)
  have split: "{i \<in> {g..<g + Suc n}. has_value keys (fetch i)} =
      (if has_value keys (fetch g) then {g} else {}) \<union> {i \<in> {Suc g..<Suc g + n}. has_value keys (fetch i)}"
    by (auto simp: Suc_le_eq order.order_iff_strict)
  show ?case
  proof (cases "cs = []")
    case True
    then have "m \<le> int (length gs) + int (card {i \<in> {Suc g..<Suc g + n}. has_value keys (fetch i)})"
      using Suc.prems(4) f(3) split by simp
    moreover have "\<forall>i \<in> set gs. i < Suc g" using Suc.prems(2) by auto
    ultimately show ?thesis
      using Suc.IH [OF Suc.prems(1) _ Suc.prems(3), of "Suc g" "case e of None \<Rightarrow> err | Some x \<Rightarrow> Some x"] True f(1) o
      by (simp add: fetchHiddenDescriptorGroup_def)
  next
    case False
    let ?fp = "hiddenDescriptorConsensusFingerprint G rec"
    obtain k where cs: "cs = [(?fp, \<lparr>hk_record = rec, hk_key = k\<rparr>)]" using f(2) False by (auto simp: only_record_def)
    have g: "g \<notin> set gs" using Suc.prems(2) by auto
    have card: "m \<le> int (length (gs @ [g])) + int (card {i \<in> {Suc g..<Suc g + n}. has_value keys (fetch i)})"
      using Suc.prems(4) f(3) split False by simp
    obtain key where t: "tally m g cs seen = (if m \<le> int (length (gs @ [g])) then Inl (rec, key)
        else Inr [(?fp, \<lparr>cr_record = rec, cr_key = key, cr_groups = gs @ [g]\<rparr>)])"
      using Suc.prems(1) g by (cases "gs = []") (auto simp: cs only_seen_def Let_def add_key_def)
    show ?thesis
    proof (cases "m \<le> int (length (gs @ [g]))")
      case True
      then show ?thesis using t f(1) o by (simp add: fetchHiddenDescriptorGroup_def)
    next
      case low: False
      have "only_seen G rec (gs @ [g]) [(?fp, \<lparr>cr_record = rec, cr_key = key, cr_groups = gs @ [g]\<rparr>)]"
        by (simp add: only_seen_def)
      from Suc.IH [OF this _ _ card, of "case e of None \<Rightarrow> err | Some x \<Rightarrow> Some x"] low Suc.prems(2) t f(1) o
      show ?thesis by (fastforce simp: fetchHiddenDescriptorGroup_def)
    qed
  qed
qed simp

text \<open>The values of a group of lookups are descriptors of the service, made for the keys they are found under.\<close>

definition genuine_results ::
  "golib \<Rightarrow> jsonlib \<Rightarrow> aadlib \<Rightarrow> string \<Rightarrow> string list \<Rightarrow> ServiceRecord \<Rightarrow> fetchResult list \<Rightarrow> bool" where
  "genuine_results G J A secret keys rec rs \<longleftrightarrow> (\<forall>r \<in> set rs. fr_key r \<in> set keys \<longrightarrow> (case fr_val r of Inl _ \<Rightarrow> True
     | Inr val \<Rightarrow> val = [] \<or> (\<exists>nonce. length nonce = 12 \<and> EncodeHiddenServiceDescriptor G J A nonce rec (fr_key r) secret = Inr val)))"

lemma refresh_genuine:
  assumes laws: "sha256_ok G" "descriptor_json_ok J" "payload_json_ok J" "aad_ok A"
    and rec: "VerifyServiceRecord G rec now = Inr ()" "list_all is_ascii (sv_strings rec)"
      "sv_IssuedAt rec \<noteq> []" "sv_ExpiresAt rec \<noteq> []"
    and inv: "ParseHiddenLookupRef G invite = Inr \<lparr>hr_Alias = sv_Alias rec, hr_Secret = secret\<rparr>"
    and keys: "keys = HiddenServiceLookupKeys G clock invite now"
    and fetch: "\<forall>g. genuine_results G J A secret keys rec (fetch g)"
      "snd (consensus_limits (hs_hidden s)) \<le> int (card {g \<in> {0..<nat (fst (consensus_limits (hs_hidden s)))}. has_value keys (fetch g)})"
    and ord: "\<And>g cs. set (order g cs) = set cs" "\<And>g cs. length (order g cs) = length cs"
  shows "\<exists>key. refreshHiddenServiceNetwork G J A clock coin order fetch invite now s = Some (Inr (rec, key))"
proof -
  let ?keys = "swap_keys coin keys"
  have hv: "has_value (swap_keys coin ks) rs = has_value ks rs" for ks rs by (simp add: has_value_def)
  have "honest_results G J A invite now ?keys rec (fetch g)" for g
    using spec [OF fetch(1), of g] descriptor_decodes [OF laws rec _ _ inv]
    by (fastforce simp: honest_results_def genuine_results_def split: sum.splits)
  moreover have "0 < snd (consensus_limits (hs_hidden s))" by (simp add: consensus_limits_def positive_or_def Let_def)
  ultimately show ?thesis
    using run_groups_honest [where order = order and gs = "[]" and seen = "[]" and g = 0 and keys = ?keys and err = None
        and m = "snd (consensus_limits (hs_hidden s))" and n = "nat (fst (consensus_limits (hs_hidden s)))", OF _ ord, of G J A invite now rec fetch] fetch(2)
    by (simp add: refreshHiddenServiceNetwork_def Let_def case_prod_beta only_seen_def hv keys)
qed

text \<open>
  C26: a published hidden service is found. If the lookups of enough groups return a descriptor made by the
  service for the key, and no lookup returns anything else (lookups may fail, return nothing or be cover
  traffic), then resolving an invite that is not in the cache returns the published record and caches it.
\<close>

theorem published_service_resolves:
  assumes laws: "sha256_ok G" "descriptor_json_ok J" "payload_json_ok J" "aad_ok A"
    and rec: "VerifyServiceRecord G rec now = Inr ()" "list_all is_ascii (sv_strings rec)"
      "sv_IssuedAt rec \<noteq> []" "sv_ExpiresAt rec \<noteq> []"
    and inv: "ParseHiddenLookupRef G invite = Inr \<lparr>hr_Alias = sv_Alias rec, hr_Secret = secret\<rparr>"
    and keys: "keys = HiddenServiceLookupKeys G clock invite now"
    and fetch: "\<forall>g. genuine_results G J A secret keys rec (fetch g)"
      "snd (consensus_limits (hs_hidden s)) \<le> int (card {g \<in> {0..<nat (fst (consensus_limits (hs_hidden s)))}. has_value keys (fetch g)})"
    and ord: "\<And>g cs. set (order g cs) = set cs" "\<And>g cs. length (order g cs) = length cs"
    and new: "hs_cache s invite = None" "\<not> IsZero now"
  shows "\<exists>s' c. ResolveHiddenService G J A clock coin order fetch invite now s = Some (Inr rec, s') \<and>
    hs_cache s' invite = Some c \<and> ch_Record c = rec"
proof -
  obtain key where "refreshHiddenServiceNetwork G J A clock coin order fetch invite now s = Some (Inr (rec, key))"
    using refresh_genuine [where order = order, OF laws rec inv keys fetch ord] by blast
  then show ?thesis
    using new by (simp add: ResolveHiddenService_def lookupHiddenServiceCache_def storeHiddenServiceCache_def
        startHiddenDescriptorWarmer_def Let_def)
qed

section \<open>Instances\<close>

definition demo_hidden :: ServiceRecord where
  "demo_hidden = SignServiceRecord demo_lib demo_identity (demo_service\<lparr>sv_IssuedAt := rfc3339_format demo_lib (62135596800 * second),
     sv_ExpiresAt := rfc3339_format demo_lib (62135600400 * second)\<rparr>)"

abbreviation demo_invite :: string where
  "demo_invite \<equiv> ''shop#0123456789abcdef''"

abbreviation demo_time :: time where
  "demo_time \<equiv> 62135596830 * second"

definition demo_hidden_keys :: "string list" where
  "demo_hidden_keys = HiddenServiceLookupKeys demo_lib 0 demo_invite demo_time"

definition demo_published :: string where
  "demo_published = (case EncodeHiddenServiceDescriptor demo_lib demo_jsonlib demo_aad (replicate 12 0) demo_hidden (hd demo_hidden_keys)
     ''0123456789abcdef'' of Inr w \<Rightarrow> w | Inl _ \<Rightarrow> [])"

definition demo_fetch :: "nat \<Rightarrow> fetchResult list" where
  "demo_fetch g = [\<lparr>fr_key = hd demo_hidden_keys, fr_val = Inr demo_published\<rparr>]"

definition demo_privacy :: HiddenDescriptorPrivacyConfig where
  "demo_privacy = \<lparr>hc_TransportMode = [], hc_RelayHopCount = 3, hc_RelayCandidates = None, hc_ExcludeAddrs = None, hc_PollInterval = 12 * second,
     hc_CacheWindow = 45 * second, hc_CoverLookups = 1, hc_CoverInterval = 18 * second, hc_PollJitter = 3 * second, hc_FetchParallel = 2,
     hc_FetchBatchSize = 6, hc_DiversityAttempts = 4, hc_MinRelayNetworkGroups = 3, hc_MinRelayProviderGroups = 2, hc_MinRelayASNGroups = 0,
     hc_ConsensusGroups = 3, hc_ConsensusMinMatches = 2, hc_BucketPeriod = 10 * minute, hc_BucketBaseCover = [1, 2, 1, 3, 2, 1]\<rparr>"

lemma demo_hidden_key: "\<exists>key. demo_hidden_keys = [key] \<and> parseHiddenDescriptorEpoch key = Inr 0"
proof -
  have n: "FormatInt 0 = ''0''" "ParseInt ''0'' = Some 0" by code_simp+
  have "hiddenDescriptorEpoch 0 demo_time = 0" by (simp add: hiddenDescriptorEpoch_def Unix_def second_def IsZero_def)
  then have keys: "demo_hidden_keys = [hiddenServiceKeyForRefEpoch demo_lib (parsed_ref demo_lib demo_invite) 0]"
    by (simp add: demo_hidden_keys_def HiddenServiceLookupKeys_def Let_def)
  obtain h where h: "hd demo_hidden_keys = ''hidden-desc'' @ CHR ''/'' # ''v1'' @ CHR ''/'' # ''0'' @ CHR ''/'' # b64_encode RawURLEncoding h" "length h = 20"
    using demo_lib_ok(1) by (simp add: keys hiddenServiceKeyForRefEpoch_def Let_def n sha256_ok_def)
  have b: "CHR ''/'' \<notin> set (b64_encode RawURLEncoding h)" using secret_chars(3) by blast
  have "b64_encode RawURLEncoding h \<noteq> []" using h(2) by (metis b64_encode_inj list.size(3) b64_encode.simps(1) zero_neq_numeral)
  then have "parseHiddenDescriptorEpoch (hd demo_hidden_keys) = Inr 0"
    unfolding parseHiddenDescriptorEpoch_def h(1) by (simp add: Split_append Split_no_sep b n del: append.simps)
  then show ?thesis using keys by (metis list.sel(1))
qed

lemma demo_hidden_ref: "ParseHiddenLookupRef demo_lib demo_invite = Inr \<lparr>hr_Alias = sv_Alias demo_hidden, hr_Secret = ''0123456789abcdef''\<rparr>"
proof -
  have "ParseHiddenLookupRef demo_lib demo_invite = Inr \<lparr>hr_Alias = ''shop'', hr_Secret = ''0123456789abcdef''\<rparr>" by code_simp
  then show ?thesis by (simp add: demo_hidden_def SignServiceRecord_def demo_service_def)
qed

lemma demo_hidden_ok:
  "VerifyServiceRecord demo_lib demo_hidden demo_time = Inr ()" "list_all is_ascii (sv_strings demo_hidden)"
  "sv_IssuedAt demo_hidden \<noteq> []" "sv_ExpiresAt demo_hidden \<noteq> []"
proof -
  let ?r = "demo_service\<lparr>sv_IssuedAt := rfc3339_format demo_lib (62135596800 * second), sv_ExpiresAt := rfc3339_format demo_lib (62135600400 * second)\<rparr>"
  have shape: "verify_service_shape demo_lib ?r = Inr ()" using demo_service_shape by (simp add: verify_service_shape_def cong: if_cong sum.case_cong)
  have p: "rfc3339_parse demo_lib (sv_IssuedAt ?r) = Some (62135596800 * second)" "rfc3339_parse demo_lib (sv_ExpiresAt ?r) = Some (62135600400 * second)"
    using demo_lib_ok(3) by (simp_all add: rfc3339_ok_def second_def rfc3339_end_def)
  show "VerifyServiceRecord demo_lib demo_hidden demo_time = Inr ()"
    unfolding demo_hidden_def
    by (rule signed_service_verifies [OF demo_lib_ok(2) demo_identity_ok shape _ _ p]) (simp_all add: demo_service_def second_def)
  show "list_all is_ascii (sv_strings demo_hidden)"
    using demo_service_strings demo_rfc3339_ascii
    by (simp add: sv_strings_def SignServiceRecord_def demo_hidden_def demo_service_def rfc3339_ascii_def)
  show "sv_IssuedAt demo_hidden \<noteq> []" "sv_ExpiresAt demo_hidden \<noteq> []"
    by (simp_all add: demo_hidden_def SignServiceRecord_def) (metis ascii_demo_format(2) list.size(3) zero_neq_numeral)+
qed

lemma demo_fetch_ok:
  "\<forall>g. genuine_results demo_lib demo_jsonlib demo_aad ''0123456789abcdef'' demo_hidden_keys demo_hidden (demo_fetch g)"
  "snd (consensus_limits demo_privacy) \<le> int (card {g \<in> {0..<nat (fst (consensus_limits demo_privacy))}. has_value demo_hidden_keys (demo_fetch g)})"
proof -
  obtain key where key: "demo_hidden_keys = [key]" "parseHiddenDescriptorEpoch key = Inr 0" using demo_hidden_key by blast
  have "sv_IsHidden demo_hidden" "sv_Alias demo_hidden = ''shop''" by (simp_all add: demo_hidden_def SignServiceRecord_def demo_service_def)
  then obtain w where w: "EncodeHiddenServiceDescriptor demo_lib demo_jsonlib demo_aad (replicate 12 0) demo_hidden key ''0123456789abcdef'' = Inr w"
    "w = demo_published"
    by (simp add: EncodeHiddenServiceDescriptor_def key Let_def demo_published_def)
  show "\<forall>g. genuine_results demo_lib demo_jsonlib demo_aad ''0123456789abcdef'' demo_hidden_keys demo_hidden (demo_fetch g)"
    using w by (auto simp: genuine_results_def demo_fetch_def key(1) intro!: exI [of _ "replicate 12 0"])
  have "demo_published \<noteq> []"
    using w by (auto simp: EncodeHiddenServiceDescriptor_def key Let_def demo_jsonlib_def demo_descriptor_text_def split: if_splits)
  then have "has_value demo_hidden_keys (demo_fetch g)" for g by (simp add: has_value_def demo_fetch_def key(1))
  then show "snd (consensus_limits demo_privacy) \<le> int (card {g \<in> {0..<nat (fst (consensus_limits demo_privacy))}. has_value demo_hidden_keys (demo_fetch g)})"
    by (simp add: consensus_limits_def demo_privacy_def positive_or_def)
qed

theorem published_service_resolves_witness:
  "\<exists>s' c. ResolveHiddenService demo_lib demo_jsonlib demo_aad 0 False (\<lambda>g cs. cs) demo_fetch demo_invite demo_time
     (new_hidden_state demo_privacy) = Some (Inr demo_hidden, s') \<and> hs_cache s' demo_invite = Some c \<and> ch_Record c = demo_hidden"
  by (rule published_service_resolves [where order = "\<lambda>g cs. cs", OF demo_lib_ok(1) demo_jsonlib_ok(2,3) demo_aad_ok demo_hidden_ok demo_hidden_ref
      demo_hidden_keys_def demo_fetch_ok(1)])
    (use demo_fetch_ok(2) in \<open>simp_all add: new_hidden_state_def IsZero_def second_def\<close>)

theorem hidden_consensus_witness:
  "\<exists>key D. key \<in> set demo_hidden_keys \<and> 2 \<le> card D \<and> (\<forall>g. g \<notin> D \<or> demo_fetch g \<noteq> []) \<and>
    refreshHiddenServiceNetwork demo_lib demo_jsonlib demo_aad 0 False (\<lambda>g cs. cs) demo_fetch demo_invite demo_time (new_hidden_state demo_privacy) =
      Some (Inr (demo_hidden, key))"
proof -
  obtain key where r: "refreshHiddenServiceNetwork demo_lib demo_jsonlib demo_aad 0 False (\<lambda>g cs. cs) demo_fetch demo_invite demo_time
      (new_hidden_state demo_privacy) = Some (Inr (demo_hidden, key))"
    using refresh_genuine [where order = "\<lambda>g cs. cs", OF demo_lib_ok(1) demo_jsonlib_ok(2,3) demo_aad_ok demo_hidden_ok demo_hidden_ref
      demo_hidden_keys_def demo_fetch_ok(1), of "new_hidden_state demo_privacy"] demo_fetch_ok(2)
    by (auto simp: new_hidden_state_def)
  show ?thesis
    using hidden_consensus [where order = "\<lambda>g cs. cs", OF r refl] r
    by (auto simp: demo_hidden_keys_def new_hidden_state_def consensus_limits_def demo_privacy_def positive_or_def demo_fetch_def)
qed

theorem resolved_hidden_service_current_witness:
  "\<exists>rec s'. ResolveHiddenService demo_lib demo_jsonlib demo_aad 0 False (\<lambda>g cs. cs) demo_fetch demo_invite demo_time
     (TrackHiddenLookupInvite demo_invite (new_hidden_state demo_privacy)) = Some (Inr rec, s') \<and>
     VerifyServiceRecord demo_lib rec demo_time = Inr () \<and> sv_IsHidden rec"
proof -
  let ?s = "TrackHiddenLookupInvite demo_invite (new_hidden_state demo_privacy)"
  have "hs_hidden ?s = demo_privacy" "hs_cache ?s = Map.empty"
    by (simp_all add: TrackHiddenLookupInvite_def startHiddenDescriptorWarmer_def new_hidden_state_def Let_def)
  then obtain key where "refreshHiddenServiceNetwork demo_lib demo_jsonlib demo_aad 0 False (\<lambda>g cs. cs) demo_fetch demo_invite demo_time ?s =
      Some (Inr (demo_hidden, key))"
    using refresh_genuine [where order = "\<lambda>g cs. cs", OF demo_lib_ok(1) demo_jsonlib_ok(2,3) demo_aad_ok demo_hidden_ok demo_hidden_ref
      demo_hidden_keys_def demo_fetch_ok(1), of ?s] demo_fetch_ok(2)
    by auto
  then obtain s' where r: "ResolveHiddenService demo_lib demo_jsonlib demo_aad 0 False (\<lambda>g cs. cs) demo_fetch demo_invite demo_time ?s =
      Some (Inr demo_hidden, s')"
    using \<open>hs_cache ?s = Map.empty\<close> by (simp add: ResolveHiddenService_def lookupHiddenServiceCache_def IsZero_def second_def)
  have "steps (hidden_step demo_lib demo_jsonlib demo_aad) (new_hidden_state demo_privacy) [HTrack demo_invite] ?s"
    by (rule steps.intros hidden_step.track)+
  from resolved_hidden_service_current [where order = "\<lambda>g cs. cs", OF this refl _ r] r show ?thesis by (auto simp: second_def)
qed

section \<open>Circuits for hidden descriptors\<close>

definition plan_path :: "string \<Rightarrow> string list \<Rightarrow> int \<Rightarrow> EndpointRecord list \<Rightarrow> CircuitPlan \<Rightarrow> bool" where
  "plan_path target exclude hops peers plan \<longleftrightarrow> int (length (cp_Relays plan)) = hops \<and> set (cp_Relays plan) \<subseteq> set peers \<and>
     distinct (RelayAddrs plan) \<and> set (RelayAddrs plan) \<inter> insert target (set exclude) = {} \<and> cp_TargetAddr plan = target"

lemma plan_path_purpose [simp]: "plan_path target exclude hops peers (plan\<lparr>cp_Purpose := x\<rparr>) = plan_path target exclude hops peers plan"
  by (simp add: plan_path_def RelayAddrs_def)

lemma planned_target:
  "PlanAutomatedCircuit pick shuffle rnd svc peers hopCount excluded = Inr plan \<Longrightarrow> cp_TargetAddr plan = plan_target pick svc"
  by (auto simp: PlanAutomatedCircuit_def Let_def split: if_splits)

definition search_ok :: "(CircuitPlan \<Rightarrow> bool) \<Rightarrow> plan_search \<Rightarrow> bool" where
  "search_ok P st \<longleftrightarrow> (case ps_best st of Some p \<Rightarrow> P p | None \<Rightarrow> ps_score st = -1 \<and> ps_err st \<noteq> Some DiversityBelowThreshold)"

lemma try_plans_ok:
  assumes "\<And>i xs. mset (shuffle i xs) = mset xs" "search_ok (plan_path addr exclude hops relays) st"
  shows "search_ok (plan_path addr exclude hops relays) (try_plans G R shuffle rnd cfg (target_service addr) relays hops exclude i n st)"
  using assms(2)
proof (induction n arbitrary: i st)
  case (Suc n)
  have t: "plan_target 0 (target_service addr) = addr" by (simp add: plan_target_def target_service_def)
  show ?case
  proof (cases "PlanAutomatedCircuit 0 (shuffle i) (rnd i) (target_service addr) relays hops exclude")
    case (Inl e)
    have "search_ok (plan_path addr exclude hops relays) (st\<lparr>ps_err := Some (PlanFailed e)\<rparr>)"
      using Suc.prems by (auto simp: search_ok_def split: option.splits)
    then show ?thesis using Inl Suc.IH by simp
  next
    case (Inr p)
    have path: "plan_path addr exclude hops relays p"
      using planned_path [where shuffle = "shuffle i" and pick = 0 and rnd = "rnd i" and svc = "target_service addr" and peers = relays
          and hopCount = hops and excluded = exclude, OF assms(1)] planned_target [OF Inr] Inr t by (simp add: plan_path_def)
    obtain ng pg ag where d: "circuitRelayDiversity G R (cp_Relays p) = (ng, pg, ag)" by (metis prod_cases3)
    define score where "score = int ng * 100 + int pg * 10 + int ag"
    define st1 where "st1 = (if score > ps_score st then st\<lparr>ps_score := score, ps_best := Some p\<rparr> else st)"
    have s: "\<exists>q. ps_best st1 = Some q \<and> plan_path addr exclude hops relays q"
      using Suc.prems path by (auto simp: st1_def search_ok_def score_def split: option.splits)
    have "search_ok (plan_path addr exclude hops relays) (st1\<lparr>ps_err := Some DiversityBelowThreshold\<rparr>)"
      using s by (auto simp: search_ok_def)
    note IH = Suc.IH [OF this, of "Suc i"]
    have "search_ok (plan_path addr exclude hops relays) (st1\<lparr>ps_best := Some p, ps_err := None\<rparr>)" using path by (simp add: search_ok_def)
    with IH show ?thesis by (auto simp: Inr d Let_def st1_def score_def split: if_splits)
  qed
qed simp

lemma drop_seen_nodes_facts:
  "set (drop_seen_nodes addrs ids recs) \<subseteq> set recs" "er_NodeID ` set (drop_seen_nodes addrs ids recs) \<inter> ids = {}"
  "distinct (map er_NodeID (drop_seen_nodes addrs ids recs))"
proof (induction recs arbitrary: ids)
  case (Cons r recs)
  {
    case 1
    show ?case using Cons(1) by (auto; blast)
  next
    case 2
    show ?case using Cons(2) [of ids] Cons(2) [of "insert (er_NodeID r) ids"] by auto
  next
    case 3
    show ?case using Cons(3) [of ids] Cons(3) [of "insert (er_NodeID r) ids"] Cons(2) [of "insert (er_NodeID r) ids"] by auto
  }
qed simp_all

lemma filterRelayCandidates_facts:
  "set (filterRelayCandidates nodes exclude) \<subseteq> set nodes" "inj_on er_NodeID (set (filterRelayCandidates nodes exclude))"
  using drop_seen_nodes_facts(1) drop_seen_nodes_facts(3) by (auto simp: filterRelayCandidates_def distinct_map)

text \<open>
  C29: hidden-descriptor traffic goes through a simple path. A connection for a hidden-descriptor key, when
  relay candidates are configured, is never direct: either there are not enough relays or no plan, or it
  uses a circuit of the configured number of distinct relays with different addresses that avoids the
  contacted peer and the excluded addresses. A circuit is never refused for its lack of diversity: the
  configured minimums only decide whether another plan is tried.
\<close>

theorem hidden_circuit_path:
  assumes "\<And>i xs. mset (shuffle i xs) = mset xs" "stringsHasHiddenDescriptorKey key" "hc_RelayCandidates (hs_hidden s) = Some cands"
  shows "case dialHiddenDescriptorConn G R shuffle rnd addr key action s of
     None \<Rightarrow> False
   | Some (Inl e) \<Rightarrow> e \<noteq> DiversityBelowThreshold
   | Some (Inr plan) \<Rightarrow> int (length (cp_Relays plan)) = positive_or 3 (hc_RelayHopCount (hs_hidden s)) \<and> set (cp_Relays plan) \<subseteq> set cands \<and>
       distinct (RelayAddrs plan) \<and> distinct (map er_NodeID (cp_Relays plan)) \<and> cp_TargetAddr plan = addr \<and>
       set (RelayAddrs plan) \<inter> insert addr (set (case hc_ExcludeAddrs (hs_hidden s) of None \<Rightarrow> [] | Some as \<Rightarrow> as)) = {}"
proof -
  define cfg where "cfg = hs_hidden s"
  define hops where "hops = positive_or 3 (hc_RelayHopCount cfg)"
  define exclude where "exclude = addr # (case hc_ExcludeAddrs cfg of None \<Rightarrow> [] | Some as \<Rightarrow> as)"
  define relays where "relays = filterRelayCandidates cands exclude"
  define st where "st = try_plans G R shuffle rnd cfg (target_service addr) relays hops exclude 0 (nat (hc_DiversityAttempts cfg))
    \<lparr>ps_best = None, ps_score = -1, ps_err = None\<rparr>"
  have D: "dialHiddenDescriptorConn G R shuffle rnd addr key action s = Some (if int (length relays) < hops then Inl (NotEnoughRelays action)
      else case (case ps_best st of Some p \<Rightarrow> if cp_Relays p = [] then None else Some p | None \<Rightarrow> None) of
          None \<Rightarrow> Inl (case ps_err st of Some e \<Rightarrow> e | None \<Rightarrow> NoPlan)
        | Some plan \<Rightarrow> Inr (plan\<lparr>cp_Purpose := ''dht-hidden-desc-'' @ action\<rparr>))"
    using assms(2,3)
    by (simp add: dialHiddenDescriptorConn_def Let_def cfg_def [symmetric] hops_def [symmetric] exclude_def [symmetric] relays_def [symmetric] st_def [symmetric])
  have ok: "search_ok (plan_path addr exclude hops relays) st"
    unfolding st_def by (rule try_plans_ok [OF assms(1)]) (simp add: search_ok_def)
  have hops: "0 < hops" by (simp add: hops_def positive_or_def)
  show ?thesis
  proof (cases "int (length relays) < hops \<or> ps_best st = None")
    case True
    then show ?thesis using ok by (auto simp: D search_ok_def split: option.splits)
  next
    case False
    then obtain p where p: "ps_best st = Some p" "plan_path addr exclude hops relays p" using ok by (auto simp: search_ok_def)
    then have "cp_Relays p \<noteq> []" using hops by (auto simp: plan_path_def)
    moreover have "distinct (cp_Relays p)" "set (cp_Relays p) \<subseteq> set relays"
      using p(2) by (simp_all add: plan_path_def RelayAddrs_def distinct_map)
    then have "distinct (map er_NodeID (cp_Relays p))" "set (cp_Relays p) \<subseteq> set cands"
      using filterRelayCandidates_facts [of cands exclude] by (auto simp: relays_def distinct_map intro: inj_on_subset)
    ultimately show ?thesis
      using False p by (simp add: D plan_path_def RelayAddrs_def hops_def [symmetric] cfg_def [symmetric] exclude_def)
  qed
qed

definition demo_relays :: "EndpointRecord list" where
  "demo_relays = map (\<lambda>n. (Circuit.demo_endpoint n)\<lparr>er_NodeID := n, er_PublicKey := n\<rparr>) [''a'', ''b'']"

definition demo_hops :: hidden_state where
  "demo_hops = new_hidden_state (demo_privacy\<lparr>hc_RelayHopCount := 2, hc_DiversityAttempts := 1, hc_RelayCandidates := Some demo_relays\<rparr>)"

theorem hidden_circuit_path_witness:
  "\<exists>plan. dialHiddenDescriptorConn demo_lib (\<lambda>_. None) (\<lambda>i. rev) (\<lambda>i. [1]) ''t'' ''hidden-desc/v1/0/k'' ''get'' demo_hops = Some (Inr plan) \<and>
    length (cp_Relays plan) = 2 \<and> ''t'' \<notin> set (RelayAddrs plan)"
proof -
  let ?d = "dialHiddenDescriptorConn demo_lib (\<lambda>_. None) (\<lambda>i. rev) (\<lambda>i. [1]) ''t'' ''hidden-desc/v1/0/k'' ''get'' demo_hops"
  have k: "stringsHasHiddenDescriptorKey ''hidden-desc/v1/0/k''" by code_simp
  have "''a'' \<le> ''b''" by code_simp
  then have f: "filterRelayCandidates demo_relays [''t''] = demo_relays"
    by (simp add: filterRelayCandidates_def demo_relays_def Circuit.demo_endpoint_def)
  have s: "hc_RelayCandidates (hs_hidden demo_hops) = Some demo_relays" "hc_ExcludeAddrs (hs_hidden demo_hops) = None"
    "hc_RelayHopCount (hs_hidden demo_hops) = 2" "hc_DiversityAttempts (hs_hidden demo_hops) = 1"
    by (simp_all add: demo_hops_def new_hidden_state_def demo_privacy_def)
  have "\<exists>plan. ?d = Some (Inr plan)"
    by (simp add: dialHiddenDescriptorConn_def k s f positive_or_def Let_def PlanAutomatedCircuit_def plan_target_def target_service_def split: prod.splits)
      (simp add: demo_relays_def Circuit.demo_endpoint_def)
  then show ?thesis
    using hidden_circuit_path [where shuffle = "\<lambda>i. rev" and G = demo_lib and R = "\<lambda>_. None" and rnd = "\<lambda>i. [1]" and addr = "''t''" and action = "''get''", OF _ k s(1)]
    by (auto simp: s positive_or_def)
qed

section \<open>Cover traffic\<close>

text \<open>
  The cover schedule panics exactly when its slots are shorter than a second: the length of a slot in
  seconds is then zero, and the Unix time is divided by it.
\<close>

lemma scheduleBucketCover_panics:
  assumes "0 < hc_BucketPeriod cfg"
  shows "scheduleBucketCover cfg now = None \<longleftrightarrow> hc_BucketBaseCover cfg \<noteq> [] \<and>
    0 < hc_BucketPeriod cfg div int (length (hc_BucketBaseCover cfg)) \<and> hc_BucketPeriod cfg div int (length (hc_BucketBaseCover cfg)) < second"
  using assms
  by (auto simp: scheduleBucketCover_def positive_or_def Let_def second_def minute_def pos_imp_zdiv_nonneg_iff split: if_splits)

end
