(* ===== verification/Replication.thy ===== *)
theory Replication
  imports Lookup
begin

text \<open>
  The client side of the DHT protocol and the maintenance of replicas: \<^verbatim>\<open>internal/dht/dht.go\<close> and
  \<^verbatim>\<open>internal/dht/replica_status.go\<close>. A connection is the function from the bytes written to it to the
  bytes read from it before it ends; a dial that fails is \<^verbatim>\<open>None\<close>. Deadlines and cancelled contexts end
  a connection early. The failure average is a floating-point number that is only compared with two
  thresholds: the number of thresholds it reaches is an argument.
\<close>

section \<open>Requests and responses on the wire\<close>

type_synonym conn = "bytes \<Rightarrow> bytes"

text \<open>\<^verbatim>\<open>json.Marshal\<close> of a request and the decoders that \<^verbatim>\<open>strictjson.Decode\<close> runs, at the wire types.\<close>

record wirelib =
  wl_marshal_req :: "DHTRequest \<Rightarrow> bytes"
  wl_marshal_resp :: "DHTResponse \<Rightarrow> bytes"
  wl_tokens :: "bytes \<Rightarrow> decoder"
  wl_req :: "bytes \<Rightarrow> json_error + (DHTRequest \<times> (json_error + unit))"
  wl_resp :: "bytes \<Rightarrow> json_error + (DHTResponse \<times> (json_error + unit))"

datatype query_error =
    DialFailed
  | QueryCancelled
  | QueryInvalid validate_error
  | QueryRead proto_error
  | InvalidResponse
  | ResponseDecode json_error
  | ResponseMismatch
  | TooManyReferrals nat

definition request_bytes :: "wirelib \<Rightarrow> DHTRequest \<Rightarrow> bytes" where
  "request_bytes W req = WriteHeader KindDHT @ WriteLengthPrefixed (wl_marshal_req W req)"

definition read_response :: "wirelib \<Rightarrow> DHTRequest \<Rightarrow> u32 \<Rightarrow> bytes \<Rightarrow> query_error + DHTResponse" where
  "read_response W req maxSize r =
     (case ReadLengthPrefixed r maxSize of Inl e \<Rightarrow> Inl (QueryRead e) | Inr (resPayload, _) \<Rightarrow>
      (case Decode (wl_tokens W) (wl_resp W) resPayload of Inl e \<Rightarrow> Inl (ResponseDecode e) | Inr resp \<Rightarrow>
       if resp_Version resp \<noteq> req_Version req \<or> resp_Type resp \<noteq> req_Type req then Inl ResponseMismatch else Inr resp))"

text \<open>
  The request of \<^verbatim>\<open>sendStore\<close>: a value under a node key whose envelope holds a current endpoint record
  is sent as an \<^verbatim>\<open>update_ip\<close>, anything else as a \<^verbatim>\<open>store\<close>.
\<close>

definition store_request :: "golib \<Rightarrow> jsonlib \<Rightarrow> string \<Rightarrow> string \<Rightarrow> time \<Rightarrow> DHTRequest" where
  "store_request G J key val now =
     (let req = \<lparr>req_Version = DHTWireVersion, req_Type = DHTTypeFor ''store'' key, req_Action = ''store'', req_Target = key, req_Data = val\<rparr>
      in if HasPrefix key ''node/id/'' \<or> HasPrefix key ''node/name/'' then
           (case maybeDecodeEnvelope J val of
              Inr (Some envelope) \<Rightarrow>
                (case Decode (js_tokens J) (js_endpoint J) (se_Value envelope) of
                   Inr endpoint \<Rightarrow>
                     if VerifyEndpointRecord G endpoint now = Inr ()
                     then \<lparr>req_Version = DHTWireVersion, req_Type = DHTTypeUpdateIP, req_Action = ''update_ip'', req_Target = key, req_Data = val\<rparr>
                     else req
                 | Inl _ \<Rightarrow> req)
            | _ \<Rightarrow> req)
         else req)"

definition sendStore :: "golib \<Rightarrow> jsonlib \<Rightarrow> wirelib \<Rightarrow> time \<Rightarrow> conn option \<Rightarrow> string \<Rightarrow> string \<Rightarrow> query_error + unit" where
  "sendStore G J W now dialled key val =
     (case dialled of None \<Rightarrow> Inl DialFailed | Some conn \<Rightarrow>
      let req = store_request G J key val now in
      case Validate G req of Inl e \<Rightarrow> Inl (QueryInvalid e) | Inr _ \<Rightarrow>
      (case ReadHeader (conn (request_bytes W req)) of
         Inl e \<Rightarrow> Inl (QueryRead e)
       | Inr (kind, r) \<Rightarrow>
           if kind \<noteq> KindDHT then Inl InvalidResponse
           else (case read_response W req (1024 * 1024) r of Inl e \<Rightarrow> Inl e | Inr _ \<Rightarrow> Inr ())))"

section \<open>Queries\<close>

definition nodeLookupTarget :: "string \<Rightarrow> string \<times> string" where
  "nodeLookupTarget target =
     (if HasPrefix target ''node/name/'' then (DHTTypeLookupName, TrimPrefix target ''node/name/'')
      else if HasPrefix target ''node/id/'' then (DHTTypeLookupKey, TrimPrefix target ''node/id/'')
      else if HasPrefix target ''vx6_'' then (DHTTypeLookupKey, target)
      else (DHTTypeFor ''find_node'' target, target))"

definition lookupRequestTarget :: "string \<Rightarrow> string \<times> string" where
  "lookupRequestTarget key =
     (if HasPrefix key ''node/name/'' then (DHTTypeLookupName, TrimPrefix key ''node/name/'')
      else if HasPrefix key ''node/id/'' then (DHTTypeLookupKey, TrimPrefix key ''node/id/'')
      else (DHTTypeFor ''find_value'' key, key))"

text \<open>The exchange that both queries share: header errors are not told apart, referrals are counted.\<close>

definition query_exchange :: "golib \<Rightarrow> wirelib \<Rightarrow> LookupLimits \<Rightarrow> conn \<Rightarrow> DHTRequest \<Rightarrow> query_error + DHTResponse" where
  "query_exchange G W limits conn req =
     (case Validate G req of Inl e \<Rightarrow> Inl (QueryInvalid e) | Inr _ \<Rightarrow>
      (case ReadHeader (conn (request_bytes W req)) of
         Inl _ \<Rightarrow> Inl InvalidResponse
       | Inr (kind, r) \<Rightarrow>
           if kind \<noteq> KindDHT then Inl InvalidResponse
           else (case read_response W req (word_of_int (ll_MaxResponseSize limits)) r of Inl e \<Rightarrow> Inl e | Inr resp \<Rightarrow>
             if int (length (resp_Nodes resp)) > ll_MaxReferrals limits then Inl (TooManyReferrals (nat (ll_MaxReferrals limits)))
             else Inr resp)))"

definition node_request :: "string \<Rightarrow> bool \<Rightarrow> DHTRequest" where
  "node_request targetID bootstrap =
     (let (typ, target) = nodeLookupTarget targetID;
          (typ, target) = (if bootstrap then (DHTTypeBootstrap,
              if HasPrefix targetID ''node/name/'' then TrimPrefix targetID ''node/name/'' else TrimPrefix targetID ''node/id/'')
            else (typ, target))
      in \<lparr>req_Version = DHTWireVersion, req_Type = typ, req_Action = ''find_node'', req_Target = target, req_Data = []\<rparr>)"

definition value_request :: "string \<Rightarrow> DHTRequest" where
  "value_request key =
     (let (typ, target) = lookupRequestTarget key
      in \<lparr>req_Version = DHTWireVersion, req_Type = typ, req_Action = ''find_value'', req_Target = target, req_Data = []\<rparr>)"

definition queryNodeOnce :: "golib \<Rightarrow> wirelib \<Rightarrow> LookupLimits \<Rightarrow> conn option \<Rightarrow> string \<Rightarrow> bool \<Rightarrow> query_error + NodeInfo list" where
  "queryNodeOnce G W limits dialled targetID bootstrap =
     (case dialled of None \<Rightarrow> Inl DialFailed | Some conn \<Rightarrow>
      (case query_exchange G W limits conn (node_request targetID bootstrap) of Inl e \<Rightarrow> Inl e | Inr resp \<Rightarrow> Inr (resp_Nodes resp)))"

definition queryValueOnce :: "golib \<Rightarrow> wirelib \<Rightarrow> LookupLimits \<Rightarrow> conn option \<Rightarrow> string \<Rightarrow> query_error + (string \<times> NodeInfo list)" where
  "queryValueOnce G W limits dialled key =
     (case dialled of None \<Rightarrow> Inl DialFailed | Some conn \<Rightarrow>
      (case query_exchange G W limits conn (value_request key) of Inl e \<Rightarrow> Inl e | Inr resp \<Rightarrow> Inr (resp_Value resp, resp_Nodes resp)))"

text \<open>
  The retry loop, \<open>left\<close> attempts before it gives up. \<open>ended i\<close> says that the context has ended before
  attempt \<open>i\<close>. A negative retry limit makes no attempt and returns a nil error with no result, here \<open>none\<close>.
\<close>

fun retry :: "(nat \<Rightarrow> bool) \<Rightarrow> (nat \<Rightarrow> query_error + 'a) \<Rightarrow> query_error + 'a \<Rightarrow> nat \<Rightarrow> nat \<Rightarrow> query_error + 'a" where
  "retry ended once res attempt 0 = res"
| "retry ended once res attempt (Suc left) =
     (if ended attempt then Inl QueryCancelled
      else case once attempt of
          Inr a \<Rightarrow> Inr a
        | Inl e \<Rightarrow> retry ended once (Inl e) (Suc attempt) left)"

definition queryNode ::
  "golib \<Rightarrow> wirelib \<Rightarrow> LookupLimits \<Rightarrow> (nat \<Rightarrow> bool) \<Rightarrow> (nat \<Rightarrow> conn option) \<Rightarrow> string \<Rightarrow> bool \<Rightarrow> query_error + NodeInfo list" where
  "queryNode G W limits ended dial targetID bootstrap =
     retry ended (\<lambda>i. queryNodeOnce G W limits (dial i) targetID bootstrap) (Inr []) 0 (nat (ll_MaxRetries limits + 1))"

definition QueryValue ::
  "golib \<Rightarrow> wirelib \<Rightarrow> LookupLimits \<Rightarrow> (nat \<Rightarrow> bool) \<Rightarrow> (nat \<Rightarrow> conn option) \<Rightarrow> string \<Rightarrow> query_error + (string \<times> NodeInfo list)" where
  "QueryValue G W limits ended dial key =
     retry ended (\<lambda>i. queryValueOnce G W limits (dial i) key) (Inr ([], [])) 0 (nat (ll_MaxRetries limits + 1))"

section \<open>The serving side\<close>

text \<open>
  The node's handler of a DHT stream after the header (\<^verbatim>\<open>internal/node/node.go\<close>): the bytes it sends back and
  the new state of the server. A request that cannot be read or decoded, and a request that fails, close
  the connection without a reply.
\<close>

definition serve_dht ::
  "golib \<Rightarrow> jsonlib \<Rightarrow> wirelib \<Rightarrow> bool \<Rightarrow> string list \<Rightarrow> (nat \<Rightarrow> time) \<Rightarrow> string \<Rightarrow> bytes \<Rightarrow> Server \<Rightarrow> bytes \<times> Server" where
  "serve_dht G J W put_ok offs clk remoteAddr r s =
     (case ReadLengthPrefixed r (1024 * 1024) of Inl _ \<Rightarrow> ([], s) | Inr (payload, _) \<Rightarrow>
      (case Decode (wl_tokens W) (wl_req W) payload of Inl _ \<Rightarrow> ([], s) | Inr dr \<Rightarrow>
       (case HandleDHT G J put_ok offs clk remoteAddr dr s of
          (Inl _, s') \<Rightarrow> ([], s')
        | (Inr resp, s') \<Rightarrow> (reply_bytes (wl_marshal_resp W) resp, s'))))"

section \<open>Replication\<close>

abbreviation (input) K :: int where "K \<equiv> 20"

record AdaptiveConfig =
  ac_LookupAlphaBase :: int
  ac_LookupAlphaMax :: int
  ac_LookupBudgetBase :: int
  ac_LookupBudgetMax :: int
  ac_ReplicationBase :: int
  ac_ReplicationMax :: int

definition defaultAdaptiveConfig :: AdaptiveConfig where
  "defaultAdaptiveConfig = \<lparr>ac_LookupAlphaBase = 4, ac_LookupAlphaMax = 6, ac_LookupBudgetBase = 12, ac_LookupBudgetMax = 28,
     ac_ReplicationBase = 5, ac_ReplicationMax = 8\<rparr>"

text \<open>How the failure average compares with \<^verbatim>\<open>HighFailureThreshold\<close> and its half.\<close>

datatype failure_level = FailureLow | FailureRaised | FailureHigh

definition adaptiveLookupParams :: "AdaptiveConfig \<Rightarrow> failure_level \<Rightarrow> int \<times> int" where
  "adaptiveLookupParams cfg failure =
     (let (alpha0, budget0) = (case failure of
          FailureHigh \<Rightarrow> (ac_LookupAlphaBase cfg + 2, ac_LookupBudgetBase cfg + 10)
        | FailureRaised \<Rightarrow> (ac_LookupAlphaBase cfg + 1, ac_LookupBudgetBase cfg + 5)
        | FailureLow \<Rightarrow> (ac_LookupAlphaBase cfg, ac_LookupBudgetBase cfg));
          alpha1 = (if alpha0 < 1 then 1 else alpha0);
          alpha = (if alpha1 > ac_LookupAlphaMax cfg then ac_LookupAlphaMax cfg else alpha1);
          budget1 = (if budget0 < alpha then alpha else budget0)
      in (alpha, if budget1 > ac_LookupBudgetMax cfg then ac_LookupBudgetMax cfg else budget1))"

definition adaptiveReplicationTarget :: "AdaptiveConfig \<Rightarrow> failure_level \<Rightarrow> int" where
  "adaptiveReplicationTarget cfg failure =
     (let target0 = (case failure of
          FailureHigh \<Rightarrow> ac_ReplicationBase cfg + 2
        | FailureRaised \<Rightarrow> ac_ReplicationBase cfg + 1
        | FailureLow \<Rightarrow> ac_ReplicationBase cfg);
          target = (if target0 < 1 then 1 else target0)
      in if target > ac_ReplicationMax cfg then ac_ReplicationMax cfg else target)"

definition selectReplicationNodes :: "NodeInfo list \<Rightarrow> int \<Rightarrow> NodeInfo list" where
  "selectReplicationNodes nodes limit =
     (if limit \<le> 0 then [] else if int (length nodes) > limit then take (nat limit) nodes else nodes)"

record ReplicationReport =
  rr_Key :: string
  rr_Desired :: int
  rr_Attempted :: int
  rr_StoredRemotely :: int
  rr_LocalStored :: bool
  rr_Successful :: "NodeInfo list"
  rr_Failed :: "NodeInfo list"

definition empty_report :: "string \<Rightarrow> ReplicationReport" where
  "empty_report key = \<lparr>rr_Key = key, rr_Desired = 0, rr_Attempted = 0, rr_StoredRemotely = 0, rr_LocalStored = False, rr_Successful = [], rr_Failed = []\<rparr>"

text \<open>
  The results of a batch in the order in which they arrive, each with the time at which it is noted;
  \<open>send\<close> is what \<^verbatim>\<open>sendStore\<close> returns for a node.
\<close>

definition note_result ::
  "golib \<Rightarrow> (NodeInfo \<Rightarrow> query_error + unit) \<Rightarrow> NodeInfo \<times> time \<Rightarrow> ReplicationReport \<times> RoutingTable \<Rightarrow> ReplicationReport \<times> RoutingTable" where
  "note_result G send result st =
     (let node = fst result; report = (fst st)\<lparr>rr_Attempted := rr_Attempted (fst st) + 1\<rparr> in
      case send node of
        Inl _ \<Rightarrow> (report\<lparr>rr_Failed := rr_Failed report @ [node]\<rparr>, fst (NoteFailureAt (ni_ID node) (snd result) (snd st)))
      | Inr _ \<Rightarrow> (report\<lparr>rr_StoredRemotely := rr_StoredRemotely report + 1, rr_Successful := rr_Successful report @ [node]\<rparr>,
                   AddNode G node (snd result) (snd st)))"

text \<open>The loop over the candidates that are left; \<open>arrive n batch\<close> is the order of arrival of a batch sent after \<open>n\<close> attempts.\<close>

function replicate_rounds ::
  "golib \<Rightarrow> (NodeInfo \<Rightarrow> query_error + unit) \<Rightarrow> (int \<Rightarrow> NodeInfo list \<Rightarrow> (NodeInfo \<times> time) list) \<Rightarrow> NodeInfo list \<Rightarrow>
     ReplicationReport \<times> RoutingTable \<Rightarrow> ReplicationReport \<times> RoutingTable" where
  "replicate_rounds G send arrive candidates (report, t) =
     (if candidates = [] \<or> rr_StoredRemotely report \<ge> rr_Desired report then (report, t)
      else let remaining = nat (rr_Desired report - rr_StoredRemotely report)
        in replicate_rounds G send arrive (drop remaining candidates)
             (fold (note_result G send) (arrive (rr_Attempted report) (take remaining candidates)) (report, t)))"
  by pat_completeness auto
termination
  by (relation "measure (\<lambda>(G, send, arrive, candidates, st). length candidates)") auto

declare replicate_rounds.simps [simp del]

datatype replicate_error = PrepareFailed value_error | StoreFailed store_error

text \<open>
  \<^verbatim>\<open>MaintainReplicas\<close>; \<open>clk\<close> holds its two readings of the clock, and \<open>dial node\<close> is the outcome of the connection
  made for that candidate, with the time at which \<^verbatim>\<open>sendStore\<close> looks at the clock: every candidate has its own, also
  when several share an address.
\<close>

definition MaintainReplicas ::
  "golib \<Rightarrow> jsonlib \<Rightarrow> wirelib \<Rightarrow> AdaptiveConfig \<Rightarrow> failure_level \<Rightarrow> bool \<Rightarrow> time \<times> time \<Rightarrow> (NodeInfo \<Rightarrow> time \<times> conn option) \<Rightarrow>
     (int \<Rightarrow> NodeInfo list \<Rightarrow> (NodeInfo \<times> time) list) \<Rightarrow> string \<Rightarrow> string \<Rightarrow> Server \<Rightarrow>
     (replicate_error option \<times> ReplicationReport) \<times> Server" where
  "MaintainReplicas G J W cfg failure put_ok clk dial arrive targetID val s =
     (let report = empty_report targetID in
      case prepareStoreValue G J targetID val (fst clk) s of
        Inl e \<Rightarrow> ((Some (PrepareFailed e), report), s)
      | Inr wrapped \<Rightarrow>
          (case storeValidated G J put_ok targetID wrapped (snd clk) s of
             (Inl e, s1) \<Rightarrow> ((Some (StoreFailed e), report), s1)
           | (Inr _, s1) \<Rightarrow>
               let candidates = selectReplicationNodes (closestForTarget G targetID K (ds_RT s1)) K;
                   desired = adaptiveReplicationTarget cfg failure;
                   report1 = report\<lparr>rr_LocalStored := True,
                     rr_Desired := (if int (length candidates) < desired then int (length candidates) else desired)\<rparr>;
                   send = (\<lambda>node. sendStore G J W (fst (dial node)) (snd (dial node)) targetID wrapped);
                   (report2, t) = replicate_rounds G send arrive candidates (report1, ds_RT s1)
               in ((None, report2), s1\<lparr>ds_RT := t\<rparr>)))"

section \<open>Replica status\<close>

abbreviation ReplicaKindNodeName :: string where "ReplicaKindNodeName \<equiv> ''node_name''"
abbreviation ReplicaKindNodeID :: string where "ReplicaKindNodeID \<equiv> ''node_id''"
abbreviation ReplicaKindPublicService :: string where "ReplicaKindPublicService \<equiv> ''public_service''"
abbreviation ReplicaKindPrivateCatalog :: string where "ReplicaKindPrivateCatalog \<equiv> ''private_catalog''"
abbreviation ReplicaKindHiddenDescriptor :: string where "ReplicaKindHiddenDescriptor \<equiv> ''hidden_descriptor''"

datatype ReplicaHealth = ReplicaHealthHealthy | ReplicaHealthDegraded | ReplicaHealthStale

record ReplicaObservation =
  ro_Key :: string
  ro_Kind :: string
  ro_Subject :: string
  ro_Epoch :: int
  ro_Desired :: int
  ro_Attempted :: int
  ro_StoredRemotely :: int
  ro_LocalStored :: bool
  ro_PublishedAt :: time
  ro_RefreshBy :: time
  ro_ExpiresAt :: time
  ro_LastError :: "replicate_error option"   \<comment> \<open>\<^verbatim>\<open>None\<close> for the empty text\<close>

record ReplicaSummary =
  rs_Tracked :: nat
  rs_Healthy :: nat
  rs_Degraded :: nat
  rs_Stale :: nat
  rs_HiddenDescriptors :: nat
  rs_HiddenHealthy :: nat
  rs_HiddenDegraded :: nat
  rs_HiddenStale :: nat
  rs_NextRefreshBy :: time
  rs_LastPublishedAt :: time
  rs_RefreshInterval :: duration
  rs_HiddenRotation :: duration
  rs_HiddenPublishOverlapKey :: int

definition HiddenDescriptorEpochFromKey :: "string \<Rightarrow> int option" where
  "HiddenDescriptorEpochFromKey key = (case parseHiddenDescriptorEpoch key of Inl _ \<Rightarrow> None | Inr epoch \<Rightarrow> Some epoch)"

definition HealthAt :: "time \<Rightarrow> ReplicaObservation \<Rightarrow> time \<Rightarrow> ReplicaHealth" where
  "HealthAt clock ob now0 =
     (let now = (if IsZero now0 then clock else now0) in
      if \<not> IsZero (ro_ExpiresAt ob) \<and> now > ro_ExpiresAt ob then ReplicaHealthStale
      else if \<not> IsZero (ro_RefreshBy ob) \<and> now > ro_RefreshBy ob then ReplicaHealthStale
      else if ro_LastError ob \<noteq> None then ReplicaHealthDegraded
      else if \<not> ro_LocalStored ob then ReplicaHealthDegraded
      else if ro_Desired ob = 0 then ReplicaHealthDegraded
      else if ro_StoredRemotely ob < ro_Desired ob then ReplicaHealthDegraded
      else ReplicaHealthHealthy)"

text \<open>The map of replicas is a list of entries with different keys.\<close>

type_synonym replicas = "(string \<times> ReplicaObservation) list"

definition RecordReplicaObservation :: "ReplicaObservation \<Rightarrow> replicas \<Rightarrow> replicas" where
  "RecordReplicaObservation ob replicas = (if ro_Key ob = [] then replicas else AList.update (ro_Key ob) ob replicas)"

definition replica_before :: "ReplicaObservation \<Rightarrow> ReplicaObservation \<Rightarrow> bool" where
  "replica_before a b =
     (if ro_Kind a \<noteq> ro_Kind b then ro_Kind a < ro_Kind b
      else if ro_Subject a \<noteq> ro_Subject b then ro_Subject a < ro_Subject b
      else ro_Key a < ro_Key b)"

definition ReplicaObservationsSnapshot :: "replicas \<Rightarrow> ReplicaObservation list" where
  "ReplicaObservationsSnapshot replicas = sort_slice replica_before (map snd replicas)"

definition count_health :: "ReplicaHealth \<Rightarrow> ReplicaSummary \<Rightarrow> ReplicaSummary" where
  "count_health h s = (case h of
     ReplicaHealthHealthy \<Rightarrow> s\<lparr>rs_Healthy := rs_Healthy s + 1\<rparr>
   | ReplicaHealthDegraded \<Rightarrow> s\<lparr>rs_Degraded := rs_Degraded s + 1\<rparr>
   | ReplicaHealthStale \<Rightarrow> s\<lparr>rs_Stale := rs_Stale s + 1\<rparr>)"

definition count_hidden :: "ReplicaHealth \<Rightarrow> ReplicaSummary \<Rightarrow> ReplicaSummary" where
  "count_hidden h s0 = (let s = s0\<lparr>rs_HiddenDescriptors := rs_HiddenDescriptors s0 + 1\<rparr> in case h of
     ReplicaHealthHealthy \<Rightarrow> s\<lparr>rs_HiddenHealthy := rs_HiddenHealthy s + 1\<rparr>
   | ReplicaHealthDegraded \<Rightarrow> s\<lparr>rs_HiddenDegraded := rs_HiddenDegraded s + 1\<rparr>
   | ReplicaHealthStale \<Rightarrow> s\<lparr>rs_HiddenStale := rs_HiddenStale s + 1\<rparr>)"

definition note_times :: "ReplicaObservation \<Rightarrow> ReplicaSummary \<Rightarrow> ReplicaSummary" where
  "note_times ob s0 =
     (let s = (if \<not> IsZero (ro_PublishedAt ob) \<and> ro_PublishedAt ob > rs_LastPublishedAt s0
               then s0\<lparr>rs_LastPublishedAt := ro_PublishedAt ob\<rparr> else s0)
      in if \<not> IsZero (ro_RefreshBy ob) \<and> (IsZero (rs_NextRefreshBy s) \<or> ro_RefreshBy ob < rs_NextRefreshBy s)
         then s\<lparr>rs_NextRefreshBy := ro_RefreshBy ob\<rparr> else s)"

definition add_observation :: "time \<Rightarrow> time \<Rightarrow> ReplicaObservation \<Rightarrow> ReplicaSummary \<Rightarrow> ReplicaSummary" where
  "add_observation clock now ob s =
     (let health = HealthAt clock ob now;
          s1 = count_health health s;
          s2 = (if ro_Kind ob = ReplicaKindHiddenDescriptor then count_hidden health s1 else s1)
      in note_times ob s2)"

definition replica_summary :: "replicas \<Rightarrow> time \<Rightarrow> time \<Rightarrow> duration \<Rightarrow> ReplicaSummary" where
  "replica_summary replicas clock now0 refreshInterval0 =
     (let now = (if IsZero now0 then clock else now0);
          observations = ReplicaObservationsSnapshot replicas
      in fold (add_observation clock now) observations
           \<lparr>rs_Tracked = length observations, rs_Healthy = 0, rs_Degraded = 0, rs_Stale = 0, rs_HiddenDescriptors = 0, rs_HiddenHealthy = 0,
            rs_HiddenDegraded = 0, rs_HiddenStale = 0, rs_NextRefreshBy = 0, rs_LastPublishedAt = 0,
            rs_RefreshInterval = (if refreshInterval0 \<le> 0 then second else refreshInterval0), rs_HiddenRotation = hour,
            rs_HiddenPublishOverlapKey = 2\<rparr>)"

end
