(* ===== verification/ReplicationFacts.thy ===== *)
theory ReplicationFacts
  imports Replication LookupFacts
begin

text \<open>
  Replication and the DHT protocol over the wire: what a replication report says, what an acknowledgement
  means, and that a published record is found through the bytes of both sides.
\<close>

section \<open>Replication reports\<close>

definition acked :: "(NodeInfo \<Rightarrow> query_error + unit) \<Rightarrow> NodeInfo \<Rightarrow> bool" where
  "acked send node \<longleftrightarrow> send node = Inr ()"

definition report_ok :: "(NodeInfo \<Rightarrow> query_error + unit) \<Rightarrow> NodeInfo list \<Rightarrow> ReplicationReport \<Rightarrow> bool" where
  "report_ok send tried r \<longleftrightarrow> mset (rr_Successful r) = mset (filter (acked send) tried) \<and>
     mset (rr_Failed r) = mset (filter (\<lambda>n. \<not> acked send n) tried) \<and>
     rr_StoredRemotely r = int (length (rr_Successful r)) \<and> rr_Attempted r = int (length tried)"

lemma note_result_ok:
  assumes "report_ok send tried r" "table_ok G t"
  shows "report_ok send (tried @ [fst x]) (fst (note_result G send x (r, t))) \<and> table_ok G (snd (note_result G send x (r, t))) \<and>
    rr_Desired (fst (note_result G send x (r, t))) = rr_Desired r \<and> rr_LocalStored (fst (note_result G send x (r, t))) = rr_LocalStored r"
  using assms AddNode_ok NoteFailureAt_ok
  by (cases "send (fst x)") (auto simp: note_result_def report_ok_def acked_def Let_def)

lemma note_results_ok:
  assumes "report_ok send tried r" "table_ok G t" "fold (note_result G send) xs (r, t) = (r', t')"
  shows "report_ok send (tried @ map fst xs) r' \<and> table_ok G t' \<and> rr_Desired r' = rr_Desired r \<and> rr_LocalStored r' = rr_LocalStored r"
  using assms
proof (induction xs arbitrary: tried r t)
  case (Cons x xs)
  obtain r1 t1 where x: "note_result G send x (r, t) = (r1, t1)" by force
  with note_result_ok [OF Cons.prems(1,2), of x]
  have "report_ok send (tried @ [fst x]) r1" "table_ok G t1" "rr_Desired r1 = rr_Desired r" "rr_LocalStored r1 = rr_LocalStored r"
    by simp_all
  then show ?case using Cons.IH [of "tried @ [fst x]" r1 t1] Cons.prems(3) x by simp
qed simp

lemma report_ok_perm: "report_ok send xs r \<Longrightarrow> mset xs = mset ys \<Longrightarrow> report_ok send ys r"
  by (simp add: report_ok_def mset_filter) (metis size_mset)

lemma report_ok_stored: "report_ok send tried r \<Longrightarrow> rr_StoredRemotely r = int (length (filter (acked send) tried))"
  unfolding report_ok_def by (metis size_mset)

lemma replicate_rounds_ok:
  assumes "\<And>n b. mset (map fst (arrive n b)) = mset b"
    and "replicate_rounds G send arrive cands (r, t) = (r', t')" "report_ok send tried r" "table_ok G t" "rr_StoredRemotely r \<le> rr_Desired r"
  shows "\<exists>k \<le> length cands. report_ok send (tried @ take k cands) r' \<and> table_ok G t' \<and> rr_Desired r' = rr_Desired r \<and>
    rr_LocalStored r' = rr_LocalStored r \<and> rr_StoredRemotely r' \<le> rr_Desired r \<and> (rr_StoredRemotely r' < rr_Desired r \<longrightarrow> k = length cands)"
  using assms(2-)
proof (induction "length cands" arbitrary: cands r t tried rule: less_induct)
  case less
  show ?case
  proof (cases "cands = [] \<or> rr_StoredRemotely r \<ge> rr_Desired r")
    case True
    then have "r' = r" "t' = t" using less.prems(1) by (simp_all add: replicate_rounds.simps)
    then show ?thesis using True less.prems by (intro exI [of _ 0]) auto
  next
    case False
    define n where "n = nat (rr_Desired r - rr_StoredRemotely r)"
    obtain r1 t1 where f: "fold (note_result G send) (arrive (rr_Attempted r) (take n cands)) (r, t) = (r1, t1)" by force
    have run: "replicate_rounds G send arrive (drop n cands) (r1, t1) = (r', t')"
      using less.prems(1) False f by (simp add: replicate_rounds.simps [of G send arrive cands] n_def Let_def)
    note o = note_results_ok [OF less.prems(2,3) f]
    have ok: "report_ok send (tried @ take n cands) r1"
      using report_ok_perm [of send "tried @ map fst (arrive (rr_Attempted r) (take n cands))"] o assms(1) by simp
    have l: "int (length (filter (acked send) (take n cands))) \<le> int n"
      by (metis length_filter_le length_take min.boundedE of_nat_mono order_trans)
    have "rr_StoredRemotely r1 = int (length (filter (acked send) (tried @ take n cands)))"
      "rr_StoredRemotely r = int (length (filter (acked send) tried))"
      using report_ok_stored [OF ok] report_ok_stored [OF less.prems(2)] by simp_all
    then have le: "rr_StoredRemotely r1 \<le> rr_Desired r1" using l o False by (simp add: n_def)
    have lt: "length (drop n cands) < length cands" and tok: "table_ok G t1" using False o by (simp_all add: n_def)
    obtain k where k: "k \<le> length (drop n cands)" "report_ok send ((tried @ take n cands) @ take k (drop n cands)) r'" "table_ok G t'"
      "rr_Desired r' = rr_Desired r1" "rr_LocalStored r' = rr_LocalStored r1" "rr_StoredRemotely r' \<le> rr_Desired r1"
      "rr_StoredRemotely r' < rr_Desired r1 \<longrightarrow> k = length (drop n cands)"
      using less.hyps [OF lt run ok tok le] by blast
    show ?thesis
    proof (intro exI [of _ "min (length cands) (n + k)"] conjI)
      show "report_ok send (tried @ take (min (length cands) (n + k)) cands) r'"
        using k(2) by (metis append_assoc take_add take_all_iff min.cobounded2 min_def)
    qed (use k o in \<open>auto simp: min_def\<close>)
  qed
qed

lemma RT_kept:
  "ds_RT (recordVersionLocked G key a b c s) = ds_RT s" "ds_RT (recordConflictLocked G key a s) = ds_RT s" "ds_RT (persist key v s) = ds_RT s"
  by (simp_all add: recordVersionLocked_def recordConflictLocked_def persist_def Let_def split: option.splits)

lemma storeValidated_RT: "ds_RT (snd (storeValidated G J put key v now s)) = ds_RT s"
  by (simp add: storeValidated_def Let_def RT_kept split: option.splits)

text \<open>
  C15: the replication report tells what was sent. Whatever the peers do and in whatever order their answers
  arrive, maintaining a replica that was stored locally ends; the peers tried are the first ones of the
  twenty active peers closest to the key, each tried once; the successful ones are exactly those that
  acknowledged the store; at most the desired number acknowledges, and if fewer do, every candidate has
  been tried. The routing table stays consistent.
\<close>

theorem MaintainReplicas_report:
  assumes "\<And>n b. mset (map fst (arrive n b)) = mset b" "table_ok G (ds_RT s)"
    and "0 \<le> ac_ReplicationMax cfg"
    and "MaintainReplicas G J W cfg failure put clk dial arrive key val s = ((None, rep), s')"
  defines "cands \<equiv> selectReplicationNodes (closestForTarget G key K (ds_RT s)) K"
  shows "\<exists>wrapped k. k \<le> length cands \<and> rr_Attempted rep = int k \<and> rr_LocalStored rep \<and>
    rr_Desired rep = min (int (length cands)) (adaptiveReplicationTarget cfg failure) \<and>
    mset (rr_Successful rep) = mset (filter (\<lambda>n. sendStore G J W (fst (dial n)) (snd (dial n)) key wrapped = Inr ()) (take k cands)) \<and>
    mset (rr_Failed rep) = mset (filter (\<lambda>n. sendStore G J W (fst (dial n)) (snd (dial n)) key wrapped \<noteq> Inr ()) (take k cands)) \<and>
    rr_StoredRemotely rep = int (length (rr_Successful rep)) \<and> rr_StoredRemotely rep \<le> rr_Desired rep \<and>
    (rr_StoredRemotely rep < rr_Desired rep \<longrightarrow> k = length cands) \<and> table_ok G (ds_RT s')"
proof -
  obtain wrapped where w: "prepareStoreValue G J key val (fst clk) s = Inr wrapped"
    using assms(4) by (cases "prepareStoreValue G J key val (fst clk) s") (simp_all add: MaintainReplicas_def Let_def)
  obtain x s1 where st: "storeValidated G J put key wrapped (snd clk) s = (Inr x, s1)"
    using assms(4) w
    by (cases "storeValidated G J put key wrapped (snd clk) s"; cases "fst (storeValidated G J put key wrapped (snd clk) s)")
      (simp_all add: MaintainReplicas_def Let_def)
  have rt: "ds_RT s1 = ds_RT s" using storeValidated_RT [of G J put key wrapped "snd clk" s] st by simp
  define send where "send = (\<lambda>node :: NodeInfo. sendStore G J W (fst (dial node)) (snd (dial node)) key wrapped)"
  define target where "target = adaptiveReplicationTarget cfg failure"
  define rep0 where "rep0 = (empty_report key)\<lparr>rr_LocalStored := True,
    rr_Desired := (if int (length cands) < target then int (length cands) else target)\<rparr>"
  have M: "MaintainReplicas G J W cfg failure put clk dial arrive key val s =
      (case replicate_rounds G send arrive cands (rep0, ds_RT s) of (r, t) \<Rightarrow> ((None, r), s1\<lparr>ds_RT := t\<rparr>))"
    by (simp add: MaintainReplicas_def w st rt Let_def cands_def send_def target_def rep0_def cong: if_cong)
  obtain t where run: "replicate_rounds G send arrive cands (rep0, ds_RT s) = (rep, t)" and s': "s' = s1\<lparr>ds_RT := t\<rparr>"
    using assms(4) by (cases "replicate_rounds G send arrive cands (rep0, ds_RT s)") (simp add: M)
  have "0 \<le> target" using assms(3) by (auto simp: target_def adaptiveReplicationTarget_def Let_def)
  then have r0: "report_ok send [] rep0" "rr_StoredRemotely rep0 \<le> rr_Desired rep0" "rr_LocalStored rep0" "rr_Desired rep0 = min (int (length cands)) target"
    by (auto simp: rep0_def report_ok_def empty_report_def)
  obtain k where k: "k \<le> length cands" "report_ok send (take k cands) rep" "table_ok G t" "rr_Desired rep = rr_Desired rep0"
    "rr_LocalStored rep" "rr_StoredRemotely rep \<le> rr_Desired rep0" "rr_StoredRemotely rep < rr_Desired rep0 \<longrightarrow> k = length cands"
    using replicate_rounds_ok [where arrive = arrive, OF assms(1) run r0(1) assms(2) r0(2)] r0(3) by auto
  then show ?thesis
    using r0(4) by (intro exI [of _ wrapped] exI [of _ k]) (simp add: report_ok_def acked_def send_def s' target_def)
qed

section \<open>Both ends of a connection\<close>

definition req_fields :: "DHTRequest \<Rightarrow> string list" where
  "req_fields r = [req_Type r, req_Action r, req_Target r, req_Data r]"

definition node_fields :: "NodeInfo \<Rightarrow> string list" where
  "node_fields n = [ni_ID n, ni_Name n, ni_NameHash n, ni_Addr n, ni_PublicKey n, ni_IdentityIssuedAt n, ni_IdentityExpiresAt n,
     ni_IdentitySignature n]"

definition resp_fields :: "DHTResponse \<Rightarrow> string list" where
  "resp_fields r = resp_Type r # resp_Value r # concat (map node_fields (resp_Nodes r))"

text \<open>JSON documents of wire messages decode to the message; strings survive if they are ASCII.\<close>

definition wire_ok :: "wirelib \<Rightarrow> bool" where
  "wire_ok W \<longleftrightarrow>
     (\<forall>req. list_all is_ascii (req_fields req) \<longrightarrow> wl_marshal_req W req \<noteq> [] \<and> Decode (wl_tokens W) (wl_req W) (wl_marshal_req W req) = Inr req) \<and>
     (\<forall>resp. list_all is_ascii (resp_fields resp) \<longrightarrow> wl_marshal_resp W resp \<noteq> [] \<and> Decode (wl_tokens W) (wl_resp W) (wl_marshal_resp W resp) = Inr resp)"

text \<open>A connection that a node with server \<open>p\<close> serves, and the state of the server after it.\<close>

definition dht_conn ::
  "golib \<Rightarrow> jsonlib \<Rightarrow> wirelib \<Rightarrow> bool \<Rightarrow> string list \<Rightarrow> (nat \<Rightarrow> time) \<Rightarrow> string \<Rightarrow> Server \<Rightarrow> conn" where
  "dht_conn G J W put offs clk remote p bs = (case ReadHeader bs of
     Inr (kind, r) \<Rightarrow> if kind = KindDHT then fst (serve_dht G J W put offs clk remote r p) else []
   | Inl _ \<Rightarrow> [])"

definition dht_next ::
  "golib \<Rightarrow> jsonlib \<Rightarrow> wirelib \<Rightarrow> bool \<Rightarrow> string list \<Rightarrow> (nat \<Rightarrow> time) \<Rightarrow> string \<Rightarrow> Server \<Rightarrow> bytes \<Rightarrow> Server" where
  "dht_next G J W put offs clk remote p bs = (case ReadHeader bs of
     Inr (kind, r) \<Rightarrow> if kind = KindDHT then snd (serve_dht G J W put offs clk remote r p) else p
   | Inl _ \<Rightarrow> p)"

lemma header_frame: "ReadHeader (WriteHeader kind @ r) = Inr (kind, r)"
  by (simp add: ReadHeader_iff)

lemma frame_read: "bs \<noteq> [] \<Longrightarrow> length bs \<le> unat m \<Longrightarrow> ReadLengthPrefixed (WriteLengthPrefixed bs) m = Inr (bs, [])"
  using ReadLengthPrefixed_append [of bs m "[]"] by simp

lemma unat_mega: "unat (1024 * 1024 :: u32) = 1024 * 1024"
  by simp

lemma served:
  assumes "wire_ok W" "list_all is_ascii (req_fields req)" "length (wl_marshal_req W req) \<le> 1024 * 1024"
  shows "dht_conn G J W put offs clk remote p (request_bytes W req) = (case fst (HandleDHT G J put offs clk remote req p) of
      Inl _ \<Rightarrow> [] | Inr resp \<Rightarrow> reply_bytes (wl_marshal_resp W) resp)"
    and "dht_next G J W put offs clk remote p (request_bytes W req) = snd (HandleDHT G J put offs clk remote req p)"
proof -
  have "wl_marshal_req W req \<noteq> []" "Decode (wl_tokens W) (wl_req W) (wl_marshal_req W req) = Inr req"
    using assms(1,2) by (simp_all add: wire_ok_def)
  then show "dht_conn G J W put offs clk remote p (request_bytes W req) = (case fst (HandleDHT G J put offs clk remote req p) of
      Inl _ \<Rightarrow> [] | Inr resp \<Rightarrow> reply_bytes (wl_marshal_resp W) resp)"
    "dht_next G J W put offs clk remote p (request_bytes W req) = snd (HandleDHT G J put offs clk remote req p)"
    using frame_read [of "wl_marshal_req W req" "1024 * 1024"] assms(3)
    by (auto simp: dht_conn_def dht_next_def request_bytes_def header_frame serve_dht_def split: prod.splits sum.splits)
qed

lemma reply_read:
  assumes "wire_ok W" "list_all is_ascii (resp_fields resp)" "length (wl_marshal_resp W resp) \<le> unat m"
    and "resp_Version resp = req_Version req" "resp_Type resp = req_Type req"
  shows "ReadHeader (reply_bytes (wl_marshal_resp W) resp) = Inr (KindDHT, WriteLengthPrefixed (wl_marshal_resp W resp)) \<and>
    read_response W req m (WriteLengthPrefixed (wl_marshal_resp W resp)) = Inr resp"
  using assms frame_read [of "wl_marshal_resp W resp" m] by (simp add: reply_bytes_def header_frame read_response_def wire_ok_def)

lemma HandleDHT_reply:
  assumes "HandleDHT G J put offs clk remote req p = (Inr resp, p')"
  shows "resp_Version resp = DHTWireVersion \<and> resp_Type resp = req_Type req \<and>
    (req_Action req \<in> {''store'', ''update_ip''} \<longrightarrow> resp_Nodes resp = [] \<and> resp_Value resp = [])"
  using assms by (auto simp: HandleDHT_def Let_def split: sum.splits prod.splits if_splits)

text \<open>
  C16: an acknowledged replica may not exist. The handler of a \<^verbatim>\<open>store\<close> request answers whether or not the
  value is admitted, and \<^verbatim>\<open>sendStore\<close> only checks that an answer comes: a peer that rejects a value (it is
  invalid, stale or over the rate limit) keeps what it had, and the sender counts it as a replica.
\<close>

theorem rejected_store_is_acknowledged:
  assumes W: "wire_ok W" and key: "\<not> HasPrefix key ''node/id/''" "\<not> HasPrefix key ''node/name/''" "\<not> stringsHasHiddenDescriptorKey key"
    and req: "Validate G (store_request G J key val now) = Inr ()" "is_ascii key" "is_ascii val"
      "length (wl_marshal_req W (store_request G J key val now)) \<le> 1024 * 1024"
      "length (wl_marshal_resp W \<lparr>resp_Version = DHTWireVersion, resp_Type = DHTTypeUpdate, resp_Nodes = [], resp_Value = []\<rparr>) \<le> 1024 * 1024"
    and rej: "fst (admitStoreValue G J remote key val (clk 1) p) = Inl e"
  shows "sendStore G J W now (Some (dht_conn G J W put offs clk remote p)) key val = Inr () \<and>
    current_value (dht_next G J W put offs clk remote p (request_bytes W (store_request G J key val now))) = current_value p"
proof -
  define r where "r = store_request G J key val now"
  let ?resp = "\<lparr>resp_Version = DHTWireVersion, resp_Type = DHTTypeUpdate, resp_Nodes = [], resp_Value = []\<rparr>"
  have r: "r = \<lparr>req_Version = DHTWireVersion, req_Type = DHTTypeUpdate, req_Action = ''store'', req_Target = key, req_Data = val\<rparr>"
    using key by (simp add: r_def store_request_def DHTTypeFor_def Let_def)
  have "is_ascii ''store''" "is_ascii DHTTypeUpdate" "is_ascii []" by code_simp+
  then have a: "list_all is_ascii (req_fields r)"
    "list_all is_ascii (resp_fields \<lparr>resp_Version = DHTWireVersion, resp_Type = DHTTypeUpdate, resp_Nodes = [], resp_Value = []\<rparr>)"
    using req(2,3) by (simp_all add: r req_fields_def resp_fields_def)
  obtain p1 where p1: "admitStoreValue G J remote key val (clk 1) p = (Inl e, p1)" using rej by (cases "admitStoreValue G J remote key val (clk 1) p") simp
  have "HandleDHT G J put offs clk remote r p =
      (Inr \<lparr>resp_Version = DHTWireVersion, resp_Type = DHTTypeUpdate, resp_Nodes = [], resp_Value = []\<rparr>, p1)"
    using req(1) key(3) p1 by (simp add: HandleDHT_def r_def [symmetric]) (simp add: r)
  then have h: "dht_conn G J W put offs clk remote p (request_bytes W r) = reply_bytes (wl_marshal_resp W)
      \<lparr>resp_Version = DHTWireVersion, resp_Type = DHTTypeUpdate, resp_Nodes = [], resp_Value = []\<rparr>"
    "dht_next G J W put offs clk remote p (request_bytes W r) = p1"
    using served [OF W a(1), of G J put offs clk remote p] req(4) by (simp_all add: r_def)
  have "current_value (snd (admitStoreValue G J remote key val (clk 1) p)) = current_value p" by (rule current_value_cong) simp
  then have "current_value p1 = current_value p" unfolding p1 by simp
  moreover have rr: "ReadHeader (reply_bytes (wl_marshal_resp W) ?resp) = Inr (KindDHT, WriteLengthPrefixed (wl_marshal_resp W ?resp))"
    "read_response W r (1024 * 1024) (WriteLengthPrefixed (wl_marshal_resp W ?resp)) = Inr ?resp"
    using reply_read [OF W a(2), of "1024 * 1024" r] req(5) unfolding unat_mega by (simp_all add: r)
  moreover have "sendStore G J W now (Some (dht_conn G J W put offs clk remote p)) key val = Inr ()"
    unfolding sendStore_def Let_def r_def [symmetric] by (simp add: req(1) [folded r_def] h(1) rr(1) rr(2) [simplified])
  ultimately show ?thesis using h(2) by (simp add: r_def)
qed

lemma gate_fixed: "ds_RT (snd (gate clk remote req s)) = ds_RT s" "ds_lookupLimits (snd (gate clk remote req s)) = ds_lookupLimits s"
  by (simp_all add: gate_def allowHiddenDescriptorRequest_def Let_def split: prod.splits)

lemma admit_fixed: "ds_RT (snd (admitStoreValue G J remote key val now s)) = ds_RT s"
  "ds_lookupLimits (snd (admitStoreValue G J remote key val now s)) = ds_lookupLimits s"
  by (simp_all add: admitStoreValue_state allowStoreRequest_def Let_def split: prod.splits bool.splits)

lemma store_fixed: "ds_lookupLimits (snd (storeValidated G J put key v now s)) = ds_lookupLimits s"
  by (simp add: storeValidated_def recordVersionLocked_def recordConflictLocked_def persist_def Let_def split: option.splits)

lemma HandleDHT_fixed:
  "ds_RT (snd (HandleDHT G J put offs clk remote req s)) = ds_RT s"
  "lookup_limits (snd (HandleDHT G J put offs clk remote req s)) = lookup_limits s"
  using HandleDHT_state [of G J put offs clk remote req s]
  by (auto simp: gate_fixed admit_fixed store_fixed storeValidated_RT lookup_limits_def)

text \<open>The replies to a value query carry at most as many referrals as the limit of the server says.\<close>

lemma find_value_referrals:
  assumes "table_ok G (ds_RT p)"
  shows "int (length (fst (find_value_reply G (find_request n) p))) \<le> max 0 (ll_MaxReferrals (lookup_limits p))"
  using ClosestNodes_spec(1) [OF assms, of n "ll_MaxReferrals (lookup_limits p)"]
  by (simp add: find_value_reply_def find_request_def Let_def)

lemma store_request_update:
  assumes "maybeDecodeEnvelope J w = Inr (Some e)" "Decode (js_tokens J) (js_endpoint J) (se_Value e) = Inr r" "VerifyEndpointRecord G r now = Inr ()"
  shows "store_request G J (NodeIDKey n) w now = update_request n w"
proof -
  have "HasPrefix (NodeIDKey n) ''node/id/''" by (simp add: NodeIDKey_def HasPrefix_def)
  then show ?thesis using assms by (simp add: store_request_def update_request_def)
qed

lemma value_request_find: "value_request (NodeIDKey n) = find_request n"
  by (simp add: value_request_def lookupRequestTarget_def find_request_def NodeIDKey_def HasPrefix_def TrimPrefix_def)

text \<open>
  C14: a published record is found over the network. A node signs its endpoint record and wraps it for its
  node ID key; it sends the value to a peer that has nothing under the key and has not counted requests
  yet, over a connection that the peer's node serves; the peer acknowledges. Until the record expires, a
  client that queries the peer for the key over another connection gets exactly the published value. All
  messages pass as JSON in frames; they must be ASCII and fit the size limits.
\<close>

theorem published_over_wire:
  fixes remote :: string and offs :: "string list"
  assumes laws: "sha256_ok G" "ed25519_ok G" "rfc3339_ok G" "rfc3339_ascii G" "envelope_json_ok J" "wire_ok W"
    and t: "0 \<le> now" "now + ttl < rfc3339_end" "second \<le> ttl"
    and r: "newEndpointRecord G i nodeName address ttl now sq = Inr r" "sq \<noteq> 0"
    and raw: "Decode (js_tokens J) (js_endpoint J) raw = Inr r" "is_ascii raw" "raw \<noteq> []"
    and ts: "now' \<le> whole (now + ttl)" "\<And>k. clk k \<le> whole (now + ttl)" "st \<le> whole (now + ttl)"
    and s: "ds_publisher s = i"
    and p: "current_value p (NodeIDKey (id_NodeID i)) = []" "ds_storeRates p = Map.empty" "ds_persistence p = None \<or> put" "table_ok G (ds_RT p)"
    and limits: "max 0 (ll_MaxReferrals (lookup_limits p)) \<le> ll_MaxReferrals limits" "0 \<le> ll_MaxRetries limits" "\<not> ended 0"
    and prep: "prepareStoreValue G J (NodeIDKey (id_NodeID i)) raw now' s = Inr w" "w \<noteq> []" "is_ascii w" "length w \<le> 1024 * 1024"
    and size: "length (wl_marshal_req W (update_request (id_NodeID i) w)) \<le> 1024 * 1024"
      "length (wl_marshal_req W (find_request (id_NodeID i))) \<le> 1024 * 1024"
      "length (wl_marshal_resp W \<lparr>resp_Version = DHTWireVersion, resp_Type = DHTTypeUpdateIP, resp_Nodes = [], resp_Value = []\<rparr>) \<le> 1024 * 1024"
    and fits: "\<And>resp. resp_Nodes resp = ClosestNodes G (id_NodeID i) (ll_MaxReferrals (lookup_limits p)) (ds_RT p) \<Longrightarrow> resp_Value resp = w \<Longrightarrow>
      resp_Type resp = DHTTypeLookupKey \<Longrightarrow> resp_Version resp = DHTWireVersion \<Longrightarrow>
      list_all is_ascii (resp_fields resp) \<and> length (wl_marshal_resp W resp) \<le> unat (word_of_int (ll_MaxResponseSize limits) :: u32)"
  defines "key \<equiv> NodeIDKey (id_NodeID i)"
  defines "p' \<equiv> dht_next G J W put offs clk remote p (request_bytes W (store_request G J key w st))"
  shows "sendStore G J W st (Some (dht_conn G J W put offs clk remote p)) key w = Inr () \<and>
    (\<exists>nodes. QueryValue G W limits ended (\<lambda>k. Some (dht_conn G J W put' offs' clk' remote' p')) key = Inr (w, nodes))"
proof -
  let ?n = "id_NodeID i"
  let ?ack = "\<lparr>resp_Version = DHTWireVersion, resp_Type = DHTTypeUpdateIP, resp_Nodes = [], resp_Value = []\<rparr>"
  have i: "?n = NodeIDFromPublicKey G (id_PublicKey i)" using newEndpointRecord_fields(3) [OF r(1)] by (auto simp: Identity_Validate_iff)
  obtain e resp p1 resp' where e: "maybeDecodeEnvelope J w = Inr (Some e)" "se_Value e = raw"
    and h: "HandleDHT G J put offs clk remote (update_request ?n w) p = (Inr resp, p1)"
      "HandleDHT G J put' offs' clk' remote' (find_request ?n) p1 = (Inr resp', p1)" "resp_Value resp' = w"
    using published_record_is_found [where clk = clk and offs = offs and remote = remote and put' = put' and offs' = offs' and clk' = clk'
        and remote' = remote', OF laws(1-5) t r raw ts(1,2) s p(1-3)] prep by auto
  have "VerifyEndpointRecord G r st = Inr ()"
    using newEndpointRecord_verifies_at [OF laws(2,3) t r(1), of st] ts(3) by (simp add: VerifyEndpointRecord_def)
  then have rq: "store_request G J key w st = update_request ?n w" unfolding key_def using store_request_update e raw(1) by simp
  have "is_ascii ''update_ip''" "is_ascii ''lookup_key''" "is_ascii ''find_value''" "is_ascii []" by code_simp+
  moreover have "is_ascii (NodeIDKey ?n)" "is_ascii ?n" using ascii_NodeID unfolding i by (simp_all add: NodeIDKey_def is_ascii_def)
  ultimately have a: "list_all is_ascii (req_fields (update_request ?n w))" "list_all is_ascii (req_fields (find_request ?n))"
    "list_all is_ascii (resp_fields ?ack)"
    using prep(3) by (simp_all add: req_fields_def resp_fields_def update_request_def find_request_def)
  note v = requests_valid [OF laws(1) prep(2,4), of "id_PublicKey i", folded i]
  have ack: "resp = ?ack" using HandleDHT_reply [OF h(1)] by (simp add: update_request_def)
  have c1: "dht_conn G J W put offs clk remote p (request_bytes W (update_request ?n w)) = reply_bytes (wl_marshal_resp W) ?ack"
    and p': "p' = p1"
    using served [OF laws(6) a(1) size(1), of G J put offs clk remote p] h(1) ack by (simp_all add: p'_def rq)
  have c2: "dht_conn G J W put' offs' clk' remote' p1 (request_bytes W (find_request ?n)) = reply_bytes (wl_marshal_resp W) resp'"
    using served [OF laws(6) a(2) size(2), of G J put' offs' clk' remote' p1] h(2) by simp
  have store: "sendStore G J W st (Some (dht_conn G J W put offs clk remote p)) key w = Inr ()"
  proof -
    have "ReadHeader (reply_bytes (wl_marshal_resp W) ?ack) = Inr (KindDHT, WriteLengthPrefixed (wl_marshal_resp W ?ack))"
      "read_response W (update_request ?n w) (1024 * 1024) (WriteLengthPrefixed (wl_marshal_resp W ?ack)) = Inr ?ack"
      using reply_read [OF laws(6) a(3), of "1024 * 1024" "update_request ?n w"] size(3) unfolding unat_mega by (simp_all add: update_request_def)
    then show ?thesis unfolding sendStore_def Let_def rq by (simp add: v(1) c1)
  qed
  have fx: "ds_RT p1 = ds_RT p" "lookup_limits p1 = lookup_limits p"
    using HandleDHT_fixed [of G J put offs clk remote "update_request ?n w" p] h(1) by simp_all
  have nodes: "resp_Nodes resp' = ClosestNodes G ?n (ll_MaxReferrals (lookup_limits p)) (ds_RT p)"
    using h(2) v(2) i by (auto simp: HandleDHT_def find_request_def find_value_reply_def fx Let_def)
  have "length (resp_Nodes resp') \<le> nat (ll_MaxReferrals (lookup_limits p))"
    using ClosestNodes_spec(1) [OF p(4), of ?n "ll_MaxReferrals (lookup_limits p)"] nodes by simp
  then have few: "int (length (resp_Nodes resp')) \<le> ll_MaxReferrals limits" using limits(1) by linarith
  note rp = HandleDHT_reply [OF h(2)]
  then have f: "list_all is_ascii (resp_fields resp')" "length (wl_marshal_resp W resp') \<le> unat (word_of_int (ll_MaxResponseSize limits) :: u32)"
    using fits [OF nodes h(3)] by (simp_all add: find_request_def)
  have "ReadHeader (reply_bytes (wl_marshal_resp W) resp') = Inr (KindDHT, WriteLengthPrefixed (wl_marshal_resp W resp'))"
    "read_response W (find_request ?n) (word_of_int (ll_MaxResponseSize limits)) (WriteLengthPrefixed (wl_marshal_resp W resp')) = Inr resp'"
    using reply_read [OF laws(6) f, of "find_request ?n"] rp by (simp_all add: find_request_def)
  then have q: "queryValueOnce G W limits (Some (dht_conn G J W put' offs' clk' remote' p')) key = Inr (w, resp_Nodes resp')"
    using few by (simp add: queryValueOnce_def key_def value_request_find query_exchange_def v(2) p' c2 h(3))
  have "nat (ll_MaxRetries limits + 1) = Suc (nat (ll_MaxRetries limits))" using limits(2) by simp
  then have "QueryValue G W limits ended (\<lambda>k. Some (dht_conn G J W put' offs' clk' remote' p')) key = Inr (w, resp_Nodes resp')"
    using q limits(3) by (simp add: QueryValue_def)
  with store show ?thesis by blast
qed

section \<open>The status summary\<close>

definition health_of :: "time \<Rightarrow> time \<Rightarrow> ReplicaHealth \<Rightarrow> ReplicaObservation \<Rightarrow> bool" where
  "health_of clock now h ob \<longleftrightarrow> HealthAt clock ob now = h"

definition hidden_kind :: "ReplicaObservation \<Rightarrow> bool" where
  "hidden_kind ob \<longleftrightarrow> ro_Kind ob = ReplicaKindHiddenDescriptor"

definition earliest :: "time \<Rightarrow> time list \<Rightarrow> time" where
  "earliest d ts = (if ts = [] then d else Min (set ts))"

definition counted :: "time \<Rightarrow> time \<Rightarrow> ReplicaObservation list \<Rightarrow> ReplicaSummary \<Rightarrow> bool" where
  "counted clock now obs s \<longleftrightarrow>
     rs_Healthy s = length (filter (health_of clock now ReplicaHealthHealthy) obs) \<and>
     rs_Degraded s = length (filter (health_of clock now ReplicaHealthDegraded) obs) \<and>
     rs_Stale s = length (filter (health_of clock now ReplicaHealthStale) obs) \<and>
     rs_HiddenDescriptors s = length (filter hidden_kind obs) \<and>
     rs_HiddenHealthy s = length (filter (\<lambda>x. hidden_kind x \<and> health_of clock now ReplicaHealthHealthy x) obs) \<and>
     rs_HiddenDegraded s = length (filter (\<lambda>x. hidden_kind x \<and> health_of clock now ReplicaHealthDegraded x) obs) \<and>
     rs_HiddenStale s = length (filter (\<lambda>x. hidden_kind x \<and> health_of clock now ReplicaHealthStale x) obs) \<and>
     rs_NextRefreshBy s = earliest 0 (filter (\<lambda>t. \<not> IsZero t) (map ro_RefreshBy obs)) \<and>
     rs_LastPublishedAt s = Max (set (0 # map ro_PublishedAt obs))"

lemma note_times_sel [simp]:
  "rs_Healthy (note_times ob s) = rs_Healthy s" "rs_Degraded (note_times ob s) = rs_Degraded s" "rs_Stale (note_times ob s) = rs_Stale s"
  "rs_HiddenDescriptors (note_times ob s) = rs_HiddenDescriptors s" "rs_HiddenHealthy (note_times ob s) = rs_HiddenHealthy s"
  "rs_HiddenDegraded (note_times ob s) = rs_HiddenDegraded s" "rs_HiddenStale (note_times ob s) = rs_HiddenStale s"
  "rs_Tracked (note_times ob s) = rs_Tracked s"
  by (simp_all add: note_times_def Let_def)

lemma count_times_sel [simp]:
  "rs_NextRefreshBy (count_health h s) = rs_NextRefreshBy s" "rs_LastPublishedAt (count_health h s) = rs_LastPublishedAt s"
  "rs_NextRefreshBy (count_hidden h s) = rs_NextRefreshBy s" "rs_LastPublishedAt (count_hidden h s) = rs_LastPublishedAt s"
  "rs_Tracked (count_health h s) = rs_Tracked s" "rs_Tracked (count_hidden h s) = rs_Tracked s"
  by (cases h; simp add: count_health_def count_hidden_def Let_def)+

lemma note_times_published:
  assumes "rs_LastPublishedAt s = Max (set (0 # ps))"
  shows "rs_LastPublishedAt (note_times ob s) = Max (set (0 # ps @ [ro_PublishedAt ob]))"
proof -
  have m: "Max (insert 0 (insert p (set ps))) = max p (Max (insert 0 (set ps)))" for p :: time
    by (metis List.finite_set Max_insert finite.insertI insert_commute insert_not_empty)
  define M where "M = Max (insert 0 (set ps))"
  have "0 \<le> M" by (simp add: M_def)
  then have "rs_LastPublishedAt (note_times ob s) = max (ro_PublishedAt ob) M"
    using assms by (simp add: M_def [symmetric] note_times_def Let_def IsZero_def max_def)
  then show ?thesis by (simp add: m M_def)
qed

lemma earliest_snoc: "ts \<noteq> [] \<Longrightarrow> earliest d (ts @ [t]) = min t (earliest d ts)"
  by (simp add: earliest_def)

lemma earliest_in: "ts \<noteq> [] \<Longrightarrow> earliest d ts \<in> set ts"
  by (simp add: earliest_def)

lemma note_times_refresh:
  assumes "rs_NextRefreshBy s = earliest 0 (filter (\<lambda>t. \<not> IsZero t) ts)"
  shows "rs_NextRefreshBy (note_times ob s) = earliest 0 (filter (\<lambda>t. \<not> IsZero t) (ts @ [ro_RefreshBy ob]))"
proof (cases "filter (\<lambda>t. \<not> IsZero t) ts = []")
  case True
  then show ?thesis using assms by (auto simp: note_times_def Let_def earliest_def IsZero_def)
next
  case False
  then have "\<not> IsZero (earliest 0 (filter (\<lambda>t. \<not> IsZero t) ts))" using earliest_in [OF False, of 0] by simp
  then show ?thesis using assms False by (auto simp: note_times_def Let_def earliest_snoc min_def)
qed

lemma add_observation_counted:
  assumes "counted clock now obs s"
  shows "counted clock now (obs @ [ob]) (add_observation clock now ob s)"
proof -
  have times: "rs_LastPublishedAt (add_observation clock now ob s) = Max (set (0 # map ro_PublishedAt obs @ [ro_PublishedAt ob]))"
    "rs_NextRefreshBy (add_observation clock now ob s) = earliest 0 (filter (\<lambda>t. \<not> IsZero t) (map ro_RefreshBy obs @ [ro_RefreshBy ob]))"
    unfolding add_observation_def Let_def
    by (rule note_times_published note_times_refresh; use assms in \<open>simp add: counted_def\<close>)+
  show ?thesis
    using assms times
    by (cases "HealthAt clock ob now") (simp_all add: counted_def add_observation_def Let_def health_of_def hidden_kind_def count_health_def count_hidden_def)
qed

lemma add_observations_counted:
  "counted clock now obs s \<Longrightarrow> counted clock now (obs @ new) (fold (add_observation clock now) new s)"
proof (induction new arbitrary: obs s)
  case (Cons a new)
  from Cons.IH [OF add_observation_counted [OF Cons.prems, of a]] show ?case by simp
qed simp

lemma add_observations_tracked: "rs_Tracked (fold (add_observation clock now) obs s) = rs_Tracked s"
  by (induction obs arbitrary: s) (simp_all add: add_observation_def Let_def)

lemma counted_perm:
  assumes "mset obs = mset obs'"
  shows "counted clock now obs s = counted clock now obs' s"
proof -
  have "length (filter P obs) = length (filter P obs')" for P using assms by (metis mset_filter size_mset)
  moreover have "set obs = set obs'" using assms by (metis set_mset_mset)
  then have "set (map f obs) = set (map f obs')" for f :: "ReplicaObservation \<Rightarrow> time" by simp
  moreover have "earliest 0 (filter P (map f obs)) = earliest 0 (filter P (map f obs'))" for P and f :: "ReplicaObservation \<Rightarrow> time"
    using \<open>set obs = set obs'\<close> by (auto simp: earliest_def filter_empty_conv)
  ultimately show ?thesis by (simp only: counted_def list.set)
qed

lemma health_partition:
  "length (filter (health_of clock now ReplicaHealthHealthy) obs) + length (filter (health_of clock now ReplicaHealthDegraded) obs) +
     length (filter (health_of clock now ReplicaHealthStale) obs) = length obs"
proof (induction obs)
  case (Cons x obs)
  then show ?case by (cases "HealthAt clock x now") (simp_all add: health_of_def)
qed simp

lemma hidden_partition:
  "length (filter (\<lambda>x. hidden_kind x \<and> health_of clock now ReplicaHealthHealthy x) obs) +
     length (filter (\<lambda>x. hidden_kind x \<and> health_of clock now ReplicaHealthDegraded x) obs) +
     length (filter (\<lambda>x. hidden_kind x \<and> health_of clock now ReplicaHealthStale x) obs) = length (filter hidden_kind obs)"
proof (induction obs)
  case (Cons x obs)
  then show ?case by (cases "HealthAt clock x now") (auto simp: health_of_def)
qed simp

text \<open>
  C30: the status summary counts every tracked record once. It does not depend on the order of the map:
  the numbers of healthy, degraded and stale records are the numbers of records with that health and add
  up to the tracked ones, likewise for the hidden descriptors; the next refresh is the earliest deadline
  set, and the last publication the latest one.
\<close>

theorem replica_summary_counts:
  fixes replicas :: replicas and clock now :: time and interval :: duration
  assumes "\<not> IsZero now"
  defines "s \<equiv> replica_summary replicas clock now interval" and "obs \<equiv> map snd replicas"
  shows "counted clock now obs s \<and> rs_Tracked s = length replicas \<and> rs_Healthy s + rs_Degraded s + rs_Stale s = rs_Tracked s \<and>
    rs_HiddenHealthy s + rs_HiddenDegraded s + rs_HiddenStale s = rs_HiddenDescriptors s"
proof -
  define snap where "snap = ReplicaObservationsSnapshot replicas"
  have perm: "mset snap = mset obs" by (simp add: snap_def ReplicaObservationsSnapshot_def obs_def)
  obtain s0 where s: "s = fold (add_observation clock now) snap s0" and s0: "counted clock now [] s0" "rs_Tracked s0 = length snap"
    using assms(1) by (auto simp: s_def replica_summary_def snap_def [symmetric] Let_def counted_def earliest_def)
  have c: "counted clock now obs s"
    using add_observations_counted [OF s0(1), of snap] counted_perm [OF perm] s by simp
  moreover have "rs_Tracked s = length replicas"
    using s s0(2) mset_eq_length [OF perm] by (simp add: add_observations_tracked obs_def)
  moreover have "rs_Healthy s + rs_Degraded s + rs_Stale s = length obs" "rs_HiddenHealthy s + rs_HiddenDegraded s + rs_HiddenStale s = rs_HiddenDescriptors s"
    using c health_partition [of clock now obs] hidden_partition [of clock now obs] by (simp_all add: counted_def)
  ultimately show ?thesis by (simp add: obs_def)
qed

section \<open>Instances\<close>

definition demo_node_text :: "NodeInfo \<Rightarrow> string" where
  "demo_node_text n = pack (Itoa (unat (ni_IdentityVersion n)) # Itoa (unat (ni_IdentitySequence n)) # node_fields n)"

definition demo_node_of :: "string \<Rightarrow> NodeInfo" where
  "demo_node_of t = (let f = unpack 10 t in \<lparr>ni_IdentityVersion = of_nat (dec_value (f ! 0)), ni_IdentitySequence = of_nat (dec_value (f ! 1)),
     ni_ID = f ! 2, ni_Name = f ! 3, ni_NameHash = f ! 4, ni_Addr = f ! 5, ni_PublicKey = f ! 6, ni_IdentityIssuedAt = f ! 7,
     ni_IdentityExpiresAt = f ! 8, ni_IdentitySignature = f ! 9\<rparr>)"

definition demo_wire :: wirelib where
  "demo_wire = \<lparr>
     wl_marshal_req = (\<lambda>r. bytes_of (CHR ''Q'' # pack (Itoa (unat (req_Version r)) # req_fields r))),
     wl_marshal_resp = (\<lambda>r. bytes_of (CHR ''R'' # pack [Itoa (unat (resp_Version r)), resp_Type r, resp_Value r,
        pack_list (map demo_node_text (resp_Nodes r))])),
     wl_tokens = (\<lambda>_. \<lparr>toks = [NullTok], tail_err = IoEOF\<rparr>),
     wl_req = (\<lambda>bs. let f = unpack 5 (tl (string_of bs)) in Inr (\<lparr>req_Version = of_nat (dec_value (f ! 0)), req_Type = f ! 1,
        req_Action = f ! 2, req_Target = f ! 3, req_Data = f ! 4\<rparr>, Inl IoEOF)),
     wl_resp = (\<lambda>bs. let f = unpack 4 (tl (string_of bs)) in Inr (\<lparr>resp_Version = of_nat (dec_value (f ! 0)), resp_Type = f ! 1,
        resp_Nodes = map demo_node_of (unpack_list (f ! 3)), resp_Value = f ! 2\<rparr>, Inl IoEOF))\<rparr>"

lemma demo_node_of_text [simp]: "demo_node_of (demo_node_text n) = n"
  by (simp add: demo_node_of_def demo_node_text_def node_fields_def unpack_pack_all Let_def)

lemma demo_wire_ok: "wire_ok demo_wire"
proof -
  have "bytes_of (c # t) \<noteq> []" for c t by (metis length_bytes_of length_Cons list.size(3) nat.simps(3))
  then show ?thesis
  by (simp add: wire_ok_def demo_wire_def req_fields_def unpack_pack_all Let_def Decode_def rejectDuplicateKeys_def Token_def scanValue.simps
      comp_def del: bytes_of_append)
qed

definition demo_observation :: ReplicaObservation where
  "demo_observation = \<lparr>ro_Key = ''k'', ro_Kind = ReplicaKindNodeID, ro_Subject = ''n'', ro_Epoch = 0, ro_Desired = 5, ro_Attempted = 5,
     ro_StoredRemotely = 4, ro_LocalStored = True, ro_PublishedAt = second, ro_RefreshBy = minute, ro_ExpiresAt = 0, ro_LastError = None\<rparr>"

theorem replica_summary_counts_witness:
  "rs_Tracked (replica_summary (RecordReplicaObservation demo_observation []) 0 second second) = 1 \<and>
   rs_Degraded (replica_summary (RecordReplicaObservation demo_observation []) 0 second second) = 1"
  using replica_summary_counts [where now = second and replicas = "RecordReplicaObservation demo_observation []" and clock = 0 and interval = second]
  by (simp add: IsZero_def second_def RecordReplicaObservation_def demo_observation_def counted_def health_of_def HealthAt_def minute_def)

theorem rejected_store_is_acknowledged_witness:
  "sendStore demo_lib demo_jsonlib demo_wire 0 (Some (dht_conn demo_lib demo_jsonlib demo_wire True [] (\<lambda>_. 0) demo_addr demo_peer_server))
     ''service/a.b'' ''x'' = Inr () \<and>
   current_value (dht_next demo_lib demo_jsonlib demo_wire True [] (\<lambda>_. 0) demo_addr demo_peer_server
     (request_bytes demo_wire (store_request demo_lib demo_jsonlib ''service/a.b'' ''x'' 0))) ''service/a.b'' = []"
proof -
  let ?k = "''service/a.b''"
  let ?r = "\<lparr>req_Version = DHTWireVersion, req_Type = DHTTypeUpdate, req_Action = ''store'', req_Target = ?k, req_Data = ''x''\<rparr>"
  have r: "store_request demo_lib demo_jsonlib ?k ''x'' 0 = ?r"
    by (simp add: store_request_def DHTTypeFor_def HasPrefix_def)
  have ne: "\<not> HasPrefix ?k ''node/id/''" "\<not> HasPrefix ?k ''node/name/''" "\<not> stringsHasHiddenDescriptorKey ?k" by code_simp+
  have "\<not> ContainsAny ?k [char_of (0 :: nat), CHR 0x0D, CHR 0x0A, CHR 0x09, CHR '' '']" "is_ascii ?k" "is_ascii ''x''" by code_simp+
  then have v: "Validate demo_lib ?r = Inr ()" "is_ascii ?k" "is_ascii ''x''"
    by (simp_all add: Validate_def validate_type_def DHTTypeFor_def validDHTValueKey_def HasPrefix_def TrimPrefix_def)
  have len: "length (wl_marshal_req demo_wire ?r) \<le> 1024 * 1024"
    "length (wl_marshal_resp demo_wire \<lparr>resp_Version = DHTWireVersion, resp_Type = DHTTypeUpdate, resp_Nodes = [], resp_Value = []\<rparr>) \<le> 1024 * 1024"
    by (simp_all add: demo_wire_def length_pack req_fields_def Itoa.simps pack_list_def pack1_def pack_def)
  obtain s1 where al: "allowStoreRequest demo_addr ?k (isTrustedLookupKey ?k) 0 demo_peer_server = (Inr (), s1)"
    using allowStoreRequest_fresh [of demo_peer_server demo_addr ?k "isTrustedLookupKey ?k" 0]
    by (cases "allowStoreRequest demo_addr ?k (isTrustedLookupKey ?k) 0 demo_peer_server") (simp add: demo_peer_server_def NewServer_def)
  have "isTrustedLookupKey ?k" "\<not> is_ok (validateLookupValue demo_lib demo_jsonlib ?k ''x'' 0)" by code_simp+
  then obtain e where "fst (admitStoreValue demo_lib demo_jsonlib demo_addr ?k ''x'' 0 demo_peer_server) = Inl e"
    using al by (cases "validateLookupValue demo_lib demo_jsonlib ?k ''x'' 0") (auto simp: admitStoreValue_def)
  then show ?thesis
    using rejected_store_is_acknowledged [OF demo_wire_ok ne, of demo_lib demo_jsonlib "''x''" 0 demo_addr "\<lambda>_. 0" demo_peer_server] v len r
    by (simp add: demo_peer_server_def current_value_def NewServer_def)
qed

lemma demo_prepared:
  obtains w where "prepareStoreValue demo_lib demo_jsonlib demo_key (demo_text 7) second demo_publisher = Inr w"
    and "validateLookupValue demo_lib demo_jsonlib demo_key w (2 * second) =
      Inr (published (own_endpoint_value demo_lib demo_identity (demo_endpoint 7) (demo_text 7) 0 (60 * second) 7) w (id_NodeID demo_identity))"
proof -
  have t: "second \<le> whole (0 + 60 * second)" "2 * second \<le> whole (0 + 60 * second)" by (simp_all add: second_def)
  note inner = own_endpoint_validates(1) [OF demo_lib_ok(2,3) demo_times(1-3) demo_endpoint_new _ demo_decode t(1), of 7]
  have "ds_publisher demo_publisher = demo_identity"
    by (simp add: demo_publisher_def NewServerWithIdentity_def SetPublisherIdentity_def demo_identity_ok Let_def)
  then show ?thesis
    using own_endpoint_published [OF demo_lib_ok(2,3) demo_rfc3339_ascii demo_jsonlib_ok(1) demo_times(1-3) demo_endpoint_new _ demo_decode
        demo_text_ascii t, of 7] inner demo_identity_ok that
    by (auto simp: prepareStoreValue_def)
qed

theorem MaintainReplicas_report_witness:
  "\<exists>rep s'. MaintainReplicas demo_lib demo_jsonlib demo_wire defaultAdaptiveConfig FailureLow True (second, 2 * second) (\<lambda>_. (second, None))
      (\<lambda>n b. map (\<lambda>x. (x, second)) b) demo_key (demo_text 7) demo_publisher = ((None, rep), s') \<and>
    rr_LocalStored rep \<and> rr_StoredRemotely rep \<le> rr_Desired rep \<and> table_ok demo_lib (ds_RT s')"
proof -
  obtain w where w: "prepareStoreValue demo_lib demo_jsonlib demo_key (demo_text 7) second demo_publisher = Inr w"
    "validateLookupValue demo_lib demo_jsonlib demo_key w (2 * second) =
      Inr (published (own_endpoint_value demo_lib demo_identity (demo_endpoint 7) (demo_text 7) 0 (60 * second) 7) w (id_NodeID demo_identity))"
    by (rule demo_prepared)
  have s: "current_value demo_publisher demo_key = []" "ds_RT demo_publisher = NewRoutingTable demo_lib (id_NodeID demo_identity)"
    by (simp_all add: demo_publisher_def NewServerWithIdentity_def SetPublisherIdentity_def demo_identity_ok NewServer_def current_value_def Let_def)
  obtain s1 where st: "storeValidated demo_lib demo_jsonlib True demo_key w (2 * second) demo_publisher = (Inr (w, True), s1)"
    using store_first_value(1) [OF w(2) s(1), of True]
    by (cases "storeValidated demo_lib demo_jsonlib True demo_key w (2 * second) demo_publisher") simp
  let ?M = "MaintainReplicas demo_lib demo_jsonlib demo_wire defaultAdaptiveConfig FailureLow True (second, 2 * second) (\<lambda>_. (second, None))
      (\<lambda>n b. map (\<lambda>x. (x, second)) b) demo_key (demo_text 7) demo_publisher"
  have "fst (fst ?M) = None" using w(1) st by (simp add: MaintainReplicas_def Let_def split: prod.splits)
  then obtain rep s' where m: "?M = ((None, rep), s')" by (metis prod.collapse)
  have "table_ok demo_lib (ds_RT demo_publisher)" using NewRoutingTable_ok s(2) by simp
  from MaintainReplicas_report [OF _ this _ m] m show ?thesis by (auto simp: defaultAdaptiveConfig_def comp_def)
qed

theorem published_over_wire_witness:
  "\<exists>w p'. sendStore demo_lib demo_jsonlib demo_wire (2 * second)
      (Some (dht_conn demo_lib demo_jsonlib demo_wire True [] (\<lambda>_. 2 * second) demo_addr demo_peer_server)) demo_key w = Inr () \<and>
    (\<exists>nodes. QueryValue demo_lib demo_wire defaultLookupLimits (\<lambda>_. False)
      (\<lambda>_. Some (dht_conn demo_lib demo_jsonlib demo_wire True [] (\<lambda>_. 3 * second) demo_addr p')) demo_key = Inr (w, nodes))"
proof -
  obtain w where w: "prepareStoreValue demo_lib demo_jsonlib demo_key (demo_text 7) second demo_publisher = Inr w"
    by (rule demo_prepared)
  note sz = demo_wrapped_size [OF w]
  have h: "length (NodeIDFromPublicKey demo_lib k) = 68" for k
    using demo_lib_ok(1) by (simp add: NodeIDFromPublicKey_def sha256_ok_def)
  have t: "second \<le> whole (0 + 60 * second)" "2 * second \<le> whole (0 + 60 * second)" by (simp_all add: second_def)
  have pub: "ds_publisher demo_publisher = demo_identity"
    by (simp add: demo_publisher_def NewServerWithIdentity_def SetPublisherIdentity_def demo_identity_ok Let_def)
  have p: "current_value demo_peer_server demo_key = []" "ds_storeRates demo_peer_server = Map.empty"
    "ds_persistence demo_peer_server = None \<or> True" "table_ok demo_lib (ds_RT demo_peer_server)" "lookup_limits demo_peer_server = defaultLookupLimits"
    using NewRoutingTable_ok by (simp_all add: demo_peer_server_def NewServer_def current_value_def lookup_limits_def defaultLookupLimits_def)
  have empty: "ClosestNodes demo_lib n k (ds_RT demo_peer_server) = []" for n k
    using ClosestNodes_spec(1) [OF p(4), of n k] by (simp add: demo_peer_server_def NewServer_def ActivePeerCount_def NewRoutingTable_def sum_list_replicate)
  have "is_ascii ''lookup_key''" by code_simp
  then have fits: "list_all is_ascii (resp_fields resp) \<and>
      length (wl_marshal_resp demo_wire resp) \<le> unat (word_of_int (ll_MaxResponseSize defaultLookupLimits) :: u32)"
    if "resp_Nodes resp = []" "resp_Value resp = w" "resp_Type resp = DHTTypeLookupKey" "resp_Version resp = DHTWireVersion" for resp
    using that sz by (simp add: resp_fields_def demo_wire_def length_pack pack_list_def pack1_def pack_def defaultLookupLimits_def Itoa.simps)
  have size: "length (wl_marshal_req demo_wire (update_request (id_NodeID demo_identity) w)) \<le> 1024 * 1024"
    "length (wl_marshal_req demo_wire (find_request (id_NodeID demo_identity))) \<le> 1024 * 1024"
    "length (wl_marshal_resp demo_wire \<lparr>resp_Version = DHTWireVersion, resp_Type = DHTTypeUpdateIP, resp_Nodes = [], resp_Value = []\<rparr>) \<le> 1024 * 1024"
    using sz by (simp_all add: demo_wire_def length_pack req_fields_def update_request_def find_request_def NodeIDKey_def Itoa.simps pack_list_def
        pack1_def pack_def demo_identity_sel h)
  have "max 0 (ll_MaxReferrals (lookup_limits demo_peer_server)) \<le> ll_MaxReferrals defaultLookupLimits" "0 \<le> ll_MaxRetries defaultLookupLimits"
    "(7 :: u64) \<noteq> 0" "length w \<le> 1024 * 1024"
    using sz p(5) by (simp_all add: defaultLookupLimits_def)
  note q = this
  have fits': "list_all is_ascii (resp_fields resp) \<and>
      length (wl_marshal_resp demo_wire resp) \<le> unat (word_of_int (ll_MaxResponseSize defaultLookupLimits) :: u32)"
    if "resp_Nodes resp = ClosestNodes demo_lib (id_NodeID demo_identity) (ll_MaxReferrals (lookup_limits demo_peer_server)) (ds_RT demo_peer_server)"
      "resp_Value resp = w" "resp_Type resp = DHTTypeLookupKey" "resp_Version resp = DHTWireVersion" for resp
    using that unfolding empty by (rule fits)
  have f: "\<not> (\<lambda>_ :: nat. False) 0" "w \<noteq> []" "is_ascii w" using sz by simp_all
  note c = published_over_wire [where clk = "\<lambda>_. 2 * second" and remote = demo_addr and offs = "[]" and put = True and p = demo_peer_server and
        limits = defaultLookupLimits and ended = "\<lambda>_. False" and w = w and st = "2 * second" and put' = True and offs' = "[]"
        and clk' = "\<lambda>_. 3 * second" and remote' = demo_addr and W = demo_wire,
        OF demo_lib_ok demo_rfc3339_ascii demo_jsonlib_ok(1) demo_wire_ok demo_times(1-3) demo_endpoint_new q(3) demo_decode demo_text_ascii t(1) t(2) t(2) pub
          p(1-4) q(1,2) f(1) w f(2,3) q(4) size fits']
  show ?thesis using c by blast
qed

end
