(* ===== verification/Spec2Isabelle.thy ===== *)
theory Spec2Isabelle
  imports RelayGovernor OnionPath Session StrictJson TableFacts StoreLimits ValueLookupFacts HiddenFacts ReplicationFacts
begin

text \<open>
  \<^bold>\<open>VX6: a verification of the protocol core.\<close>

  VX6 is a peer-to-peer network of nodes written in Go. A node has an Ed25519 identity, publishes signed
  records about itself and its services in a distributed hash table (DHT), talks to other nodes over
  authenticated encrypted sessions, and relays streams of other nodes through onion circuits. Hidden
  services publish encrypted descriptors under keys that change every hour and are reached through
  introduction points. The theories model the packages under \<^verbatim>\<open>src/internal/\<close> that decide what a node
  accepts, stores, answers and forwards.

  \<^bold>\<open>Conventions.\<close> A Go string is a \<^typ>\<open>char list\<close>, a byte slice a list of 8-bit words, an instant and
  a duration an integer number of nanoseconds (the zero \<^verbatim>\<open>time.Time\<close> is 0), a fixed-width integer a word
  wherever it can wrap. A struct is a record, an enumeration a datatype. A function that returns an error
  has a sum type, with the error on the left; a panic (nil dereference, index out of range, division by
  zero, \<^verbatim>\<open>cipher.Open\<close> with a nonce of the wrong length) is the value \<^verbatim>\<open>None\<close>, and in \<open>Session\<close>, where the
  results are sums, the error value \<open>VerifyPanic\<close>. A map is a partial
  function, or an association list where the order of insertion matters; where Go ranges over a map, the
  order is an argument. A mutex makes each method one step; concurrency is the interleaving of steps. The
  exceptions are named where they occur: \<^verbatim>\<open>PromoteCandidate\<close> is also a run of its two halves, \<^verbatim>\<open>RestoreCandidates\<close>
  runs alone at start (\<open>TableRuns\<close>), and the goroutines of a relay circuit are not interleaved within a handler (\<open>Relay\<close>).
  Readings of the clock, random draws and the answers of other nodes are arguments.

  \<^bold>\<open>Parameters.\<close> Code outside the repository is a parameter: the record \<open>golib\<close> holds SHA-256, Ed25519,
  the RFC 3339 formatter, IP parsing and Unicode case mapping; \<open>cryptolib\<close> X25519, HKDF and AES-GCM;
  \<open>aadlib\<close> AES-GCM with associated data; \<open>jsonlib\<close> the tokens and values of \<^verbatim>\<open>encoding/json\<close>. What the
  code relies on is stated in named predicates (\<open>sha256_ok\<close>, \<open>ed25519_ok\<close>, \<open>rfc3339_ok\<close>, \<open>aead_ok\<close>,
  \<open>x25519_ok\<close>, \<open>hkdf_ok\<close>, \<open>aad_ok\<close>, \<open>hello_json_ok\<close>, \<open>descriptor_json_ok\<close>, \<open>wire_ok\<close> and the like), and each is proved of a concrete instance (\<open>demo_lib\<close>,
  \<open>demo_crypto\<close>, \<open>demo_jsonlib\<close>, \<open>demo_aad\<close>), so that the theorems apply.
\<close>

text \<open>
  \<^bold>\<open>Foundations.\<close> \<open>Prelude\<close> has the collections of rules, generic lemmas, the relation \<open>steps\<close> of runs and
  the locale \<open>event_system\<close>, whose invariant holds along every run; it is interpreted on the relay governor
  (\<open>gov\<close>), the routing table (\<open>routing\<close>), the DHT server (\<open>store\<close>, and \<open>limits\<close> for its counters) and the hidden-service state
  (\<open>hidden\<close>). \<open>GoLib\<close>, \<open>GoBytes\<close>, \<open>GoSort\<close> and \<open>GoNet\<close> define what the code uses of the standard
  library: \<^verbatim>\<open>strings\<close>, \<^verbatim>\<open>encoding/hex\<close>, \<^verbatim>\<open>encoding/base64\<close>, \<^verbatim>\<open>encoding/binary\<close>, \<^verbatim>\<open>io.ReadFull\<close>,
  \<^verbatim>\<open>sort.Slice\<close> (insertion sort, the locale \<open>slice_sort\<close>), \<^verbatim>\<open>big.Int\<close> and host-port addresses. \<open>Crypto\<close>
  has the laws of the primitives.

  \<^bold>\<open>Wire protocol\<close> (\<^verbatim>\<open>proto/proto.go\<close>, theory \<open>Proto\<close>): stream header, length-prefixed frames, and the
  validation of DHT requests, characterised exactly.

  \<^bold>\<open>Relay governor\<close> (\<^verbatim>\<open>node/relay_governor.go\<close>, theory \<open>RelayGovernor\<close>): in every interleaving of
  configuration updates, acquisitions and releases the number of active slots is the number of slots
  granted and not yet released, and stays within the budget of the last configuration.

  \<^bold>\<open>Records\<close> (\<^verbatim>\<open>identity/store.go\<close>, \<^verbatim>\<open>record/*.go\<close>, theories \<open>Records\<close> and \<open>Service\<close>): what a
  node signs verifies until it expires; a signature a node made for an address without a newline stands for
  one record only, while the verification itself does not refuse newlines.

  \<^bold>\<open>Onion circuits\<close> (\<^verbatim>\<open>onion/cell.go\<close>, \<^verbatim>\<open>onion/onion.go\<close>, \<^verbatim>\<open>onion/circuit.go\<close>, theories \<open>Cell\<close>, \<open>Circuit\<close>,
  \<open>Relay\<close>, \<open>OnionPath\<close>): cells round-trip; a planned circuit is a simple path that avoids its ends; the
  first hop and the relay agree on the keys; and, composing client and relays, what the target sends is what
  the client reads, and what the client writes is what the target receives unless a relay misreads a
  ciphertext that starts with the relay magic, for circuits of up to five relays (the longest for which a data
  cell fits 1024 bytes).

  \<^bold>\<open>Secure sessions\<close> (\<^verbatim>\<open>secure/session.go\<close>, theory \<open>Session\<close>): honest peers agree on a key; a session is
  only established with a peer that signed its fresh key; a key of the wrong length makes the peer panic; the
  record stream refines a byte queue (locale \<open>byte_channel\<close>); no nonce is used twice by a caller that stops at the first
  failed write, and one is by a caller that does not. \<^bold>\<open>Strict JSON\<close> (\<^verbatim>\<open>strictjson/decode.go\<close>, theory \<open>StrictJson\<close>): the scan accepts
  exactly the documents without a duplicate key; its fuel is the number of tokens, each step consumes one.
\<close>

text \<open>
  \<^bold>\<open>DHT\<close> (\<^verbatim>\<open>dht/*.go\<close>). \<open>Metric\<close> has the lookup keys, the XOR metric and bucket indexes; \<open>Asn\<close> the resolver
  of autonomous systems; \<open>Peers\<close> the retention policy of the peer cache. \<open>Table\<close> is the routing table: its
  entries are shared by several indexes, so the model has an explicit memory of entries; \<open>TableInvariant\<close>
  and \<open>TableRuns\<close> prove that the operations keep the indexes consistent (under two conditions on the calls, stated
  there), \<open>TableFacts\<close> what the operations return. \<open>Envelope\<close>, \<open>Descriptor\<close> and \<open>LookupValue\<close> are the values a node stores: signed envelopes, private
  catalogs, hidden descriptors and the validation and ordering of all kinds of values; \<open>JsonLaws\<close> and
  \<open>ValueFacts\<close> their laws. \<open>Store\<close> is the server: admission, rate limits, validated stores, version
  histories, persistence and the request handler; \<open>StoreFacts\<close> and \<open>StoreLimits\<close> show that a stored record is
  never replaced by an older one, that a published record is found, and that rates and state are bounded.
  \<open>Collector\<close> and \<open>Lookup\<close> are the iterative lookups: the environment chooses which query of a batch answers
  next, with what, and when the context ends; \<open>CollectorFacts\<close>, \<open>LookupFacts\<close> and \<open>ValueLookupFacts\<close> show that
  lookups end without a panic whatever the peers answer (within the limits of the
  server, by default 20 rounds and 80 queries for node and value lookups alike; the rounds left are the
  measure of the recursion), ask no peer
  twice, leave the routing table as it was but for verified peers, and only return supported values.
  \<open>Replication\<close> is the client side of the wire (\<^verbatim>\<open>sendStore\<close>, \<^verbatim>\<open>QueryValue\<close>, \<^verbatim>\<open>queryNode\<close>), the node's handler of a DHT
  stream, \<^verbatim>\<open>MaintainReplicas\<close> and the replica status (\<^verbatim>\<open>dht/replica_status.go\<close>); \<open>ReplicationFacts\<close> composes both ends:
  a published record can be queried, the report says what was acknowledged, a rejected store is acknowledged
  too, and the status summary counts every record once.

  \<^bold>\<open>Hidden services.\<close> \<open>DescriptorFacts\<close> shows that a descriptor is decoded by the client that has the
  invite, that the keys of publisher and client meet for an hour, and that an outsider can replace a stored
  descriptor. \<open>HiddenLookup\<close> (\<^verbatim>\<open>dht/hidden_lookup.go\<close>, \<^verbatim>\<open>dht/privacy_transport.go\<close>) resolves invites by
  consensus between groups of lookups, with a cache, warmers and cover traffic, and dials through circuits;
  \<open>HiddenFacts\<close> shows that resolved records are genuine and current, that enough groups agreed on them, that
  published services are found, and that circuits avoid the contacted peer.

  \<^bold>\<open>Not modelled.\<close> The command line, the graphical programs, the product applications and the SDK call these
  packages and the operating system; their logic is I/O. Files, permissions and the database behind the
  peer cache are I/O and third-party code. QUIC and TCP dialling, IPsec, eBPF and firewall management drive
  the kernel and external daemons. Floating-point averages (failures, anomalies) are not modelled; where
  the code compares them, the outcome of the comparison is an argument.
\<close>

end
